(* ===== verification/Mega_Prelude.thy ===== *)
theory Mega_Prelude
  imports Main "HOL-Library.List_Lexorder" "HOL-Library.Sublist" "HOL-Library.Multiset"
begin

text \<open>
  Shared vocabulary of the development: Rust strings as lists of Unicode scalar values (integers), the
  character classes and string functions of the Rust standard library that the sources call,
  \<open>Result\<close> values as sums, and the generic list facts the component theories rest on.

  Rust compares strings bytewise in UTF-8. UTF-8 preserves the order of code points, so the
  lexicographic order on lists of code points is the same order; \<open>HOL-Library.List_Lexorder\<close>
  supplies it as the \<open>linorder\<close> instance of lists, for strings and for vectors of strings alike.
\<close>

section \<open>Strings\<close>

type_synonym rchar = int
type_synonym rstr = "rchar list"

definition lit :: "string \<Rightarrow> rstr" where
  "lit s = map of_char s"

text \<open>Code points of the characters the sources match on.\<close>

abbreviation (input) SLASH :: rchar where "SLASH \<equiv> 47"
abbreviation (input) BACKSLASH :: rchar where "BACKSLASH \<equiv> 92"
abbreviation (input) QUOTE :: rchar where "QUOTE \<equiv> 34"
abbreviation (input) COLON :: rchar where "COLON \<equiv> 58"
abbreviation (input) COMMA :: rchar where "COMMA \<equiv> 44"
abbreviation (input) RBRACKET :: rchar where "RBRACKET \<equiv> 93"
abbreviation (input) DOT :: rchar where "DOT \<equiv> 46"
abbreviation (input) UNDERSCORE :: rchar where "UNDERSCORE \<equiv> 95"
abbreviation (input) HYPHEN :: rchar where "HYPHEN \<equiv> 45"
abbreviation (input) SPACE :: rchar where "SPACE \<equiv> 32"
abbreviation (input) TAB :: rchar where "TAB \<equiv> 9"
abbreviation (input) LF :: rchar where "LF \<equiv> 10"
abbreviation (input) CR :: rchar where "CR \<equiv> 13"

text \<open>Character classes: \<open>char::is_whitespace\<close> (Unicode White\_Space), \<open>char::is_control\<close>
  (general category Cc), and the ASCII classes.\<close>

definition is_whitespace :: "rchar \<Rightarrow> bool" where
  "is_whitespace c \<longleftrightarrow> (9 \<le> c \<and> c \<le> 13) \<or> c = 32 \<or> c = 133 \<or> c = 160 \<or> c = 5760
     \<or> (8192 \<le> c \<and> c \<le> 8202) \<or> c = 8232 \<or> c = 8233 \<or> c = 8239 \<or> c = 8287 \<or> c = 12288"

definition is_control :: "rchar \<Rightarrow> bool" where
  "is_control c \<longleftrightarrow> c < 32 \<or> (127 \<le> c \<and> c < 160)"

definition is_ascii :: "rchar \<Rightarrow> bool" where
  "is_ascii c \<longleftrightarrow> c < 128"

definition is_ascii_alphanumeric :: "rchar \<Rightarrow> bool" where
  "is_ascii_alphanumeric c \<longleftrightarrow> (48 \<le> c \<and> c \<le> 57) \<or> (65 \<le> c \<and> c \<le> 90) \<or> (97 \<le> c \<and> c \<le> 122)"

text \<open>\<open>str::len\<close> counts UTF-8 bytes.\<close>

definition utf8_len :: "rchar \<Rightarrow> nat" where
  "utf8_len c = (if c < 128 then 1 else if c < 2048 then 2 else if c < 65536 then 3 else 4)"

definition byte_len :: "rstr \<Rightarrow> nat" where
  "byte_len s = sum_list (map utf8_len s)"

text \<open>\<open>str::strip_prefix\<close>, \<open>str::starts_with\<close>, \<open>str::ends_with\<close>, \<open>str::split\<close> on one character,
  \<open>slice::join\<close>, and the trimming functions.\<close>

fun strip_prefix :: "'a list \<Rightarrow> 'a list \<Rightarrow> 'a list option" where
  "strip_prefix [] s = Some s"
| "strip_prefix (p # ps) [] = None"
| "strip_prefix (p # ps) (c # s) = (if p = c then strip_prefix ps s else None)"

definition starts_with :: "'a list \<Rightarrow> 'a list \<Rightarrow> bool" where
  "starts_with s p \<longleftrightarrow> strip_prefix p s \<noteq> None"

definition ends_with :: "'a list \<Rightarrow> 'a list \<Rightarrow> bool" where
  "ends_with s p \<longleftrightarrow> starts_with (rev s) (rev p)"

fun split_on :: "'a \<Rightarrow> 'a list \<Rightarrow> 'a list list" where
  "split_on d [] = [[]]"
| "split_on d (c # s) =
     (if c = d then [] # split_on d s
      else (case split_on d s of [] \<Rightarrow> [[c]] | seg # segs \<Rightarrow> (c # seg) # segs))"

fun join_with :: "'a list \<Rightarrow> 'a list list \<Rightarrow> 'a list" where
  "join_with d [] = []"
| "join_with d [s] = s"
| "join_with d (s # t # ss) = s @ d @ join_with d (t # ss)"

definition trim_start_matches :: "('a \<Rightarrow> bool) \<Rightarrow> 'a list \<Rightarrow> 'a list" where
  "trim_start_matches P s = dropWhile P s"

definition trim_end_matches :: "('a \<Rightarrow> bool) \<Rightarrow> 'a list \<Rightarrow> 'a list" where
  "trim_end_matches P s = rev (dropWhile P (rev s))"

definition trim :: "rstr \<Rightarrow> rstr" where
  "trim s = trim_end_matches is_whitespace (trim_start_matches is_whitespace s)"

section \<open>Results\<close>

abbreviation (input) Ok :: "'a \<Rightarrow> 'e + 'a" where "Ok \<equiv> Inr"
abbreviation (input) Err :: "'e \<Rightarrow> 'e + 'a" where "Err \<equiv> Inl"

text \<open>The \<open>?\<close> operator: an error is returned, a value goes on. The code preprocessor unfolds it
  to a case distinction, which evaluates its first argument only.\<close>

definition bindR :: "'e + 'a \<Rightarrow> ('a \<Rightarrow> 'e + 'b) \<Rightarrow> 'e + 'b" where
  [code_unfold]: "bindR m f = (case m of Inl e \<Rightarrow> Inl e | Inr x \<Rightarrow> f x)"

definition map_err :: "('e \<Rightarrow> 'f) \<Rightarrow> 'e + 'a \<Rightarrow> 'f + 'a" where
  "map_err f m = (case m of Inl e \<Rightarrow> Inl (f e) | Inr x \<Rightarrow> Inr x)"

lemma bindR_simps [simp]:
  "bindR (Inl e) f = Inl e" "bindR (Inr x) f = f x"
  by (simp_all add: bindR_def)

lemma map_err_simps [simp]:
  "map_err f (Inl e) = Inl (f e)" "map_err f (Inr x) = Inr x"
  by (simp_all add: map_err_def)

lemma bindR_cong [fundef_cong]:
  "m = m' \<Longrightarrow> (\<And>x. m' = Inr x \<Longrightarrow> f x = g x) \<Longrightarrow> bindR m f = bindR m' g"
  by (cases m') auto

lemma bindR_eq_Inr: "bindR m f = Inr y \<longleftrightarrow> (\<exists>x. m = Inr x \<and> f x = Inr y)"
  by (cases m) auto

lemma bindR_eq_Inl: "bindR m f = Inl e \<longleftrightarrow> m = Inl e \<or> (\<exists>x. m = Inr x \<and> f x = Inl e)"
  by (cases m) auto

lemma map_err_eq_Inr [simp]: "map_err f m = Inr x \<longleftrightarrow> m = Inr x"
  by (cases m) auto

section \<open>Facts on the string functions\<close>

lemma lit_Nil [simp]: "lit [] = []"
  by (simp add: lit_def)

lemma lit_Cons [simp]: "lit (c # s) = of_char c # lit s"
  by (simp add: lit_def)

lemma lit_append [simp]: "lit (s @ t) = lit s @ lit t"
  by (simp add: lit_def)

lemma strip_prefix_append [simp]: "strip_prefix p (p @ s) = Some s"
  by (induction p) auto

lemma strip_prefix_Some: "strip_prefix p s = Some r \<longleftrightarrow> s = p @ r"
  by (induction p s rule: strip_prefix.induct) auto

lemma strip_prefix_None: "strip_prefix p s = None \<longleftrightarrow> \<not> prefix p s"
  by (induction p s rule: strip_prefix.induct) auto

lemma starts_with_iff: "starts_with s p \<longleftrightarrow> (\<exists>r. s = p @ r)"
  by (auto simp: starts_with_def strip_prefix_Some)

lemma ends_with_iff: "ends_with s p \<longleftrightarrow> (\<exists>r. s = r @ p)"
  unfolding ends_with_def starts_with_iff
  by (metis append_Nil2 rev_append rev_rev_ident)

lemma ends_with_single: "ends_with s [c] \<longleftrightarrow> s \<noteq> [] \<and> last s = c"
  unfolding ends_with_iff by (cases s rule: rev_cases) auto

lemma starts_with_single: "starts_with s [c] \<longleftrightarrow> s \<noteq> [] \<and> hd s = c"
  unfolding starts_with_iff by (cases s) auto

lemma split_on_not_Nil [simp]: "split_on d s \<noteq> []"
  by (induction s) (auto split: list.splits)

lemma split_on_Cons_neq:
  "c \<noteq> d \<Longrightarrow> split_on d (c # s) = (c # hd (split_on d s)) # tl (split_on d s)"
  by (cases "split_on d s") auto

lemma split_on_no_delim: "seg \<in> set (split_on d s) \<Longrightarrow> d \<notin> set seg"
  by (induction s arbitrary: seg) (auto split: list.splits if_splits)

lemma split_on_chars: "\<forall>seg \<in> set (split_on d s). set seg \<subseteq> set s"
proof (induction s)
  case (Cons c s)
  obtain seg segs where "split_on d s = seg # segs"
    by (cases "split_on d s") auto
  with Cons show ?case by auto
qed simp

lemma split_on_single: "d \<notin> set s \<Longrightarrow> split_on d s = [s]"
  by (induction s) auto

lemma split_on_append:
  "d \<notin> set s \<Longrightarrow> split_on d (s @ d # t) = s # split_on d t"
  by (induction s) auto

lemma split_on_join_with:
  "ss \<noteq> [] \<Longrightarrow> (\<And>s. s \<in> set ss \<Longrightarrow> d \<notin> set s) \<Longrightarrow> split_on d (join_with [d] ss) = ss"
  by (induction "[d]" ss rule: join_with.induct)
    (auto simp: split_on_single split_on_append)

lemma join_with_Cons: "ss \<noteq> [] \<Longrightarrow> join_with d (s # ss) = s @ d @ join_with d ss"
  by (cases ss) auto

lemma join_with_split_on [simp]: "join_with [d] (split_on d s) = s"
proof (induction s)
  case IH: (Cons c s)
  show ?case
  proof (cases "split_on d s")
    case (Cons seg segs)
    with IH.IH show ?thesis
      by (cases "c = d"; cases segs) simp_all
  qed simp
qed simp

lemma set_join_with: "set (join_with d ss) \<subseteq> \<Union>(set ` set ss) \<union> set d"
  by (induction d ss rule: join_with.induct) auto

lemma join_with_eq_Nil: "(\<And>s. s \<in> set ss \<Longrightarrow> s \<noteq> []) \<Longrightarrow> join_with d ss = [] \<longleftrightarrow> ss = []"
  by (cases "(d, ss)" rule: join_with.cases) auto

lemma hd_join_with: "s \<noteq> [] \<Longrightarrow> hd (join_with d (s # ss)) = hd s"
  by (cases ss) auto

lemma last_join_with:
  "ss \<noteq> [] \<Longrightarrow> (\<And>s. s \<in> set ss \<Longrightarrow> s \<noteq> []) \<Longrightarrow> last (join_with d ss) = last (last ss)"
proof (induction d ss rule: join_with.induct)
  case (3 d s t ss)
  have "join_with d (t # ss) \<noteq> []"
    using 3(3) by (subst join_with_eq_Nil) auto
  then show ?case using 3 by simp
qed auto

lemma dropWhile_fixed: "(s \<noteq> [] \<Longrightarrow> \<not> P (hd s)) \<Longrightarrow> dropWhile P s = s"
  by (cases s) auto

lemma trim_fixed:
  "(s \<noteq> [] \<Longrightarrow> \<not> is_whitespace (hd s) \<and> \<not> is_whitespace (last s)) \<Longrightarrow> trim s = s"
  unfolding trim_def trim_start_matches_def trim_end_matches_def
  by (cases "s = []") (simp_all add: dropWhile_fixed hd_rev)

section \<open>Path prefixes and the lexicographic order\<close>

text \<open>Between a list and an extension of it, in the lexicographic order, only extensions lie.\<close>

lemma prefix_imp_le: "prefix xs ys \<Longrightarrow> xs \<le> (ys :: 'a :: linorder list)"
proof (induction xs arbitrary: ys)
  case (Cons x xs)
  then show ?case by (cases ys) auto
qed simp

lemma prefix_between:
  assumes "prefix a c" and "a \<le> b" and "b \<le> (c :: 'a :: linorder list)"
  shows "prefix a b"
  using assms
proof (induction a arbitrary: b c)
  case (Cons x a)
  then show ?case
    by (cases b; cases c) auto
qed simp

section \<open>Bounds on maxima\<close>

lemma add_Max_le:
  "finite A \<Longrightarrow> n + Max (insert 0 A) \<le> m \<longleftrightarrow> n \<le> m \<and> (\<forall>a \<in> A. n + a \<le> (m :: nat))"
proof
  assume "finite A" and le: "n + Max (insert 0 A) \<le> m"
  then have "a \<le> Max (insert 0 A)" if "a \<in> A" for a
    using that by simp
  with le show "n \<le> m \<and> (\<forall>a \<in> A. n + a \<le> m)" by fastforce
next
  assume "finite A" and le: "n \<le> m \<and> (\<forall>a \<in> A. n + a \<le> m)"
  then have "Max (insert 0 A) \<in> insert 0 A" by (intro Max_in) auto
  with le show "n + Max (insert 0 A) \<le> m" by auto
qed

lemma Suc_add_Max_le:
  "finite A \<Longrightarrow> Suc (n + Max (insert 0 A)) \<le> m \<longleftrightarrow> n < m \<and> (\<forall>a \<in> A. Suc (n + a) \<le> m)"
  using add_Max_le [of A "Suc n" m] by auto

end
