(* ===== verification/Filter_Syntax.thy ===== *)
theory Filter_Syntax
  imports Mega_Prelude
begin

text \<open>
  The view filter language of \<open>src/ceres/view/filter\<close>: the abstract syntax of \<open>mod.rs\<close>, the
  well-formedness that \<open>ViewPath::new\<close> asserts, and the printer of \<open>canonical.rs\<close>.
\<close>

section \<open>Abstract syntax (\<open>filter/mod.rs\<close>)\<close>

definition REGISTER_MAX_SPEC_BYTES :: nat where "REGISTER_MAX_SPEC_BYTES = 16384"
definition REGISTER_MAX_NESTING :: nat where "REGISTER_MAX_NESTING = 16"
definition PARSE_MAX_NESTING :: nat where "PARSE_MAX_NESTING = 64"

definition valid_path_segment :: "rstr \<Rightarrow> bool" where
  "valid_path_segment segment \<longleftrightarrow>
     segment \<noteq> [] \<and> segment \<noteq> lit ''.'' \<and> segment \<noteq> lit ''..''
     \<and> \<not> (SLASH \<in> set segment \<or> BACKSLASH \<in> set segment)
     \<and> \<not> list_ex is_control segment
     \<and> \<not> is_whitespace (hd segment) \<and> \<not> is_whitespace (last segment)"

datatype ViewPath = ViewPath (segments: "rstr list")

text \<open>The constructor function: \<open>None\<close> is the failing \<open>assert!\<close>.\<close>

definition ViewPath_new :: "rstr list \<Rightarrow> ViewPath option" where
  "ViewPath_new segs =
     (if segs \<noteq> [] \<and> list_all valid_path_segment segs then Some (ViewPath segs) else None)"

datatype Selector = Sel_Entry ViewPath | Sel_Tree ViewPath

datatype Filter =
    Subdir ViewPath
  | Prefix ViewPath
  | Exclude "Selector list"
  | Compose "Filter list"
  | Chain "Filter list"
  | Nop
  | Empty

record CanonicalFilter =
  cf_filter :: Filter
  canonical_text :: rstr
  cf_filter_id :: rstr

datatype FilterParseError =
    Backslash | SegmentEdgeWhitespace | InvalidSegment | NeedsQuoting | PartialQuote
  | UnterminatedQuote | ControlChar | EmptySelectorSegment | ExcludeArgNotSelector
  | Syntax | SpecTooLarge | NestingTooDeep

datatype RecheckFailure = RoundTrip | FilterIdMismatch

section \<open>Printing (\<open>filter/canonical.rs\<close>)\<close>

definition is_safe :: "rchar \<Rightarrow> bool" where
  "is_safe ch \<longleftrightarrow> is_ascii_alphanumeric ch \<or> ch \<in> {DOT, UNDERSCORE, HYPHEN}
     \<or> (\<not> is_ascii ch \<and> \<not> is_whitespace ch \<and> \<not> is_control ch)"

definition escape_quotes :: "rstr \<Rightarrow> rstr" where
  "escape_quotes text = concat (map (\<lambda>c. if c = QUOTE then [BACKSLASH, QUOTE] else [c]) text)"

definition print_path :: "ViewPath \<Rightarrow> rstr" where
  "print_path path =
     (let text = join_with [SLASH] (segments path) in
      if list_all (\<lambda>ch. ch = SLASH \<or> is_safe ch) text then text
      else [QUOTE] @ escape_quotes text @ [QUOTE])"

fun print_selector :: "Selector \<Rightarrow> rstr" where
  "print_selector (Sel_Entry path) = lit ''::'' @ print_path path"
| "print_selector (Sel_Tree path) = lit ''::'' @ print_path path @ [SLASH]"

fun print_filter :: "Filter \<Rightarrow> rstr" where
  "print_filter (Subdir path) = lit '':/'' @ print_path path"
| "print_filter (Prefix path) = lit '':prefix='' @ print_path path"
| "print_filter (Exclude selectors) =
     lit '':exclude['' @ join_with [COMMA] (map print_selector selectors) @ [RBRACKET]"
| "print_filter (Compose members) =
     lit '':['' @ join_with [COMMA] (map print_filter members) @ [RBRACKET]"
| "print_filter (Chain ops) = concat (map print_filter ops)"
| "print_filter Nop = lit '':nop''"
| "print_filter Empty = lit '':empty''"

section \<open>Well-formedness\<close>

text \<open>What \<open>ViewPath::new\<close> asserts, lifted to selectors and filters.\<close>

definition wf_path :: "ViewPath \<Rightarrow> bool" where
  "wf_path path \<longleftrightarrow> segments path \<noteq> [] \<and> list_all valid_path_segment (segments path)"

fun wf_selector :: "Selector \<Rightarrow> bool" where
  "wf_selector (Sel_Entry path) = wf_path path"
| "wf_selector (Sel_Tree path) = wf_path path"

fun wf_filter :: "Filter \<Rightarrow> bool" where
  "wf_filter (Subdir path) = wf_path path"
| "wf_filter (Prefix path) = wf_path path"
| "wf_filter (Exclude selectors) = list_all wf_selector selectors"
| "wf_filter (Compose members) = list_all wf_filter members"
| "wf_filter (Chain ops) = list_all wf_filter ops"
| "wf_filter Nop = True"
| "wf_filter Empty = True"

text \<open>Compose nesting, the quantity the parser bounds.\<close>

fun nesting_depth :: "Filter \<Rightarrow> nat" where
  "nesting_depth (Compose members) = Suc (Max (set (0 # map nesting_depth members)))"
| "nesting_depth (Chain ops) = Max (set (0 # map nesting_depth ops))"
| "nesting_depth (Subdir _) = 0"
| "nesting_depth (Prefix _) = 0"
| "nesting_depth (Exclude _) = 0"
| "nesting_depth Nop = 0"
| "nesting_depth Empty = 0"

lemma ViewPath_new_Some: "ViewPath_new segs = Some p \<longleftrightarrow> p = ViewPath segs \<and> wf_path p"
  by (auto simp: ViewPath_new_def wf_path_def)

lemma wf_path_segment: "wf_path p \<Longrightarrow> s \<in> set (segments p) \<Longrightarrow> valid_path_segment s"
  by (simp add: wf_path_def list_all_iff)

lemma valid_segment_no_slash: "valid_path_segment s \<Longrightarrow> SLASH \<notin> set s"
  by (simp add: valid_path_segment_def)

lemma valid_segment_not_Nil: "valid_path_segment s \<Longrightarrow> s \<noteq> []"
  by (simp add: valid_path_segment_def)

lemma wf_path_split_join:
  "wf_path p \<Longrightarrow> split_on SLASH (join_with [SLASH] (segments p)) = segments p"
  by (rule split_on_join_with) (auto simp: wf_path_def list_all_iff dest: valid_segment_no_slash)

lemma wf_path_text_not_Nil: "wf_path p \<Longrightarrow> join_with [SLASH] (segments p) \<noteq> []"
  by (subst join_with_eq_Nil) (auto simp: wf_path_def list_all_iff dest: valid_segment_not_Nil)

lemma wf_path_text_chars:
  assumes "wf_path p" and "c \<in> set (join_with [SLASH] (segments p))"
  shows "\<not> is_control c" and "c \<noteq> BACKSLASH"
proof -
  from assms(2) set_join_with [of "[SLASH]" "segments p"]
  have "c = SLASH \<or> (\<exists>s \<in> set (segments p). c \<in> set s)" by auto
  with wf_path_segment [OF assms(1)] show "\<not> is_control c" "c \<noteq> BACKSLASH"
    by (auto simp: valid_path_segment_def is_control_def list_ex_iff)
qed

lemma wf_path_text_edges:
  assumes "wf_path p"
  shows "hd (join_with [SLASH] (segments p)) \<noteq> SLASH"
    and "last (join_with [SLASH] (segments p)) \<noteq> SLASH"
proof -
  obtain s ss where segs: "segments p = s # ss"
    using assms by (cases "segments p") (auto simp: wf_path_def)
  have valid: "\<And>t. t \<in> set (segments p) \<Longrightarrow> valid_path_segment t"
    using assms by (rule wf_path_segment)
  then show "hd (join_with [SLASH] (segments p)) \<noteq> SLASH"
    using segs by (metis hd_join_with hd_in_set list.set_intros(1) valid_segment_no_slash
        valid_segment_not_Nil)
  have "last (join_with [SLASH] (segments p)) = last (last (segments p))"
    using segs valid by (intro last_join_with) (auto dest: valid_segment_not_Nil)
  then show "last (join_with [SLASH] (segments p)) \<noteq> SLASH"
    using segs valid by (metis last_in_set list.distinct(1) valid_segment_no_slash
        valid_segment_not_Nil)
qed

lemma is_safe_not:
  "is_safe c \<Longrightarrow> c \<notin> {SLASH, BACKSLASH, QUOTE, COLON, COMMA, RBRACKET, SPACE, TAB, LF, CR}
    \<and> \<not> is_control c"
  by (auto simp: is_safe_def is_ascii_alphanumeric_def is_ascii_def is_control_def
      is_whitespace_def)

end
