(* ===== verification/Filter_Parse.thy ===== *)
theory Filter_Parse
  imports Filter_Syntax
begin

text \<open>
  The recursive-descent parser of \<open>src/ceres/view/filter/parse.rs\<close>. The parser state is the
  text not yet consumed (\<open>text[pos..]\<close>) and the nesting counters. A failing \<open>assert!\<close> of
  \<open>ViewPath::new\<close> is the value \<open>PathAssert\<close>, and the mutually recursive functions carry fuel;
  \<open>PathAssert\<close> and \<open>OutOfFuel\<close> are shown never to be returned by \<open>parse_with_max\<close>.
\<close>

section \<open>The parser\<close>

record parser =
  rest :: rstr
  nesting :: nat
  max_nesting :: nat

datatype PathKind = Operator | SelectorPath

datatype parse_fail = ParseErr FilterParseError | PathAssert | OutOfFuel

definition peek :: "parser \<Rightarrow> rchar option" where
  "peek p = (case rest p of [] \<Rightarrow> None | c # _ \<Rightarrow> Some c)"

definition eat :: "rstr \<Rightarrow> parser \<Rightarrow> bool \<times> parser" where
  "eat pre p = (case strip_prefix pre (rest p) of
      Some r \<Rightarrow> (True, p\<lparr>rest := r\<rparr>) | None \<Rightarrow> (False, p))"

definition is_space :: "rchar \<Rightarrow> bool" where
  "is_space ch \<longleftrightarrow> ch \<in> {SPACE, TAB, LF, CR}"

definition skip_space :: "parser \<Rightarrow> bool \<times> parser" where
  "skip_space p = (let r = dropWhile is_space (rest p) in
      (length r \<noteq> length (rest p), p\<lparr>rest := r\<rparr>))"

text \<open>The two character loops of \<open>parse_path\<close>; \<open>raw\<close> is the accumulated text.\<close>

fun read_quoted :: "rstr \<Rightarrow> rstr \<Rightarrow> FilterParseError + rstr \<times> rstr" where
  "read_quoted raw [] = Err UnterminatedQuote"
| "read_quoted raw (c # cs) =
     (if c = QUOTE then Ok (raw, cs)
      else if c = BACKSLASH then
        (case cs of [] \<Rightarrow> Err Backslash
         | d # ds \<Rightarrow> if d = QUOTE then read_quoted (raw @ [QUOTE]) ds else Err Backslash)
      else if is_control c then Err ControlChar
      else read_quoted (raw @ [c]) cs)"

fun read_unquoted :: "rstr \<Rightarrow> rstr \<Rightarrow> FilterParseError + rstr \<times> rstr" where
  "read_unquoted raw [] = Ok (raw, [])"
| "read_unquoted raw (c # cs) =
     (if c \<in> {COLON, COMMA, RBRACKET} then Ok (raw, c # cs)
      else if is_space c then Ok (raw, c # cs)
      else if c = QUOTE then Err PartialQuote
      else if c = BACKSLASH then Err Backslash
      else if is_control c then Err ControlChar
      else if c = SLASH \<or> is_safe c then read_unquoted (raw @ [c]) cs
      else Err NeedsQuoting)"

definition check_after_unquoted :: "rstr \<Rightarrow> FilterParseError + unit" where
  "check_after_unquoted r =
     (case r of [] \<Rightarrow> Ok ()
      | c # _ \<Rightarrow>
        if is_space c then
          (case dropWhile is_space r of
             [] \<Rightarrow> Ok ()
           | n # _ \<Rightarrow> if n = COLON then Err Syntax
                      else if n = COMMA \<or> n = RBRACKET then Ok () else Err NeedsQuoting)
        else Ok ())"

definition check_after_quoted :: "rstr \<Rightarrow> FilterParseError + unit" where
  "check_after_quoted r =
     (case r of [] \<Rightarrow> Ok ()
      | c # _ \<Rightarrow>
        if c = BACKSLASH then Err Backslash
        else if c = SLASH \<or> is_safe c then Err PartialQuote
        else if \<not> (c \<in> {COLON, COMMA, RBRACKET} \<or> is_space c) then Err Syntax
        else Ok ())"

text \<open>The \<open>tree\<close> flag, with the edits of \<open>raw\<close> and of the input it makes.\<close>

definition split_tree :: "PathKind \<Rightarrow> bool \<Rightarrow> rstr \<Rightarrow> rstr \<Rightarrow> bool \<times> rstr \<times> rstr" where
  "split_tree kind quoted raw r =
     (case kind of
        SelectorPath \<Rightarrow>
          if quoted then
            (case strip_prefix [SLASH] r of Some r' \<Rightarrow> (True, raw, r') | None \<Rightarrow> (False, raw, r))
          else if ends_with raw [SLASH] then (True, butlast raw, r) else (False, raw, r)
      | Operator \<Rightarrow>
          let raw1 = (if starts_with raw [SLASH] then tl raw else raw);
              raw2 = (if ends_with raw1 [SLASH] then butlast raw1 else raw1)
          in (False, raw2, r))"

fun check_segments :: "PathKind \<Rightarrow> rstr list \<Rightarrow> FilterParseError + unit" where
  "check_segments kind [] = Ok ()"
| "check_segments kind (s # ss) =
     (if s = [] then
        Err (if kind = SelectorPath \<and> ss = [] then EmptySelectorSegment else InvalidSegment)
      else if s = lit ''.'' \<or> s = lit ''..'' then Err InvalidSegment
      else if is_whitespace (hd s) \<or> is_whitespace (last s) then Err SegmentEdgeWhitespace
      else check_segments kind ss)"

definition parse_path :: "PathKind \<Rightarrow> parser \<Rightarrow> parse_fail + (ViewPath \<times> bool) \<times> parser" where
  "parse_path kind p0 =
     (let (quoted, p) = eat [QUOTE] p0 in
      bindR (map_err ParseErr
        (if quoted then read_quoted [] (rest p)
         else bindR (read_unquoted [] (rest p)) (\<lambda>(raw, r).
              bindR (check_after_unquoted r) (\<lambda>_. Ok (raw, r)))))
      (\<lambda>(raw, r).
        let (tree, raw', r') = split_tree kind quoted raw r in
        bindR (map_err ParseErr (if quoted then check_after_quoted r' else Ok ())) (\<lambda>_.
          let segs = split_on SLASH raw' in
          bindR (map_err ParseErr (check_segments kind segs)) (\<lambda>_.
            case ViewPath_new segs of
              None \<Rightarrow> Err PathAssert
            | Some path \<Rightarrow> Ok ((path, tree), p\<lparr>rest := r'\<rparr>)))))"

fun parse_exclude_loop :: "nat \<Rightarrow> Selector list \<Rightarrow> parser \<Rightarrow> parse_fail + Filter \<times> parser" where
  "parse_exclude_loop 0 selectors p = Err OutOfFuel"
| "parse_exclude_loop (Suc fuel) selectors p =
     (let (sel, p1) = eat (lit ''::'') p in
      if \<not> sel then Err (ParseErr ExcludeArgNotSelector)
      else bindR (parse_path SelectorPath p1) (\<lambda>((path, tree), p2).
        let selectors' = selectors @ [if tree then Sel_Tree path else Sel_Entry path];
            (_, p3) = skip_space p2; (comma, p4) = eat [COMMA] p3 in
        if comma then parse_exclude_loop fuel selectors' (snd (skip_space p4))
        else (let (close, p5) = eat [RBRACKET] p3 in
          if close then Ok (Exclude selectors', p5) else Err (ParseErr Syntax))))"

definition parse_exclude :: "nat \<Rightarrow> parser \<Rightarrow> parse_fail + Filter \<times> parser" where
  "parse_exclude fuel p = parse_exclude_loop fuel [] (snd (skip_space p))"

fun parse_chain :: "nat \<Rightarrow> parser \<Rightarrow> parse_fail + Filter \<times> parser"
  and parse_chain_loop :: "nat \<Rightarrow> Filter list \<Rightarrow> parser \<Rightarrow> parse_fail + Filter list \<times> parser"
  and parse_op :: "nat \<Rightarrow> parser \<Rightarrow> parse_fail + Filter \<times> parser"
  and parse_compose :: "nat \<Rightarrow> parser \<Rightarrow> parse_fail + Filter \<times> parser"
  and parse_compose_loop :: "nat \<Rightarrow> Filter list \<Rightarrow> parser \<Rightarrow> parse_fail + Filter list \<times> parser"
where
  "parse_chain 0 p = Err OutOfFuel"
| "parse_chain (Suc fuel) p =
     bindR (parse_chain_loop fuel [] p) (\<lambda>(ops, p').
       Ok (case ops of [f] \<Rightarrow> f | _ \<Rightarrow> Chain ops, p'))"
| "parse_chain_loop 0 ops p = Err OutOfFuel"
| "parse_chain_loop (Suc fuel) ops p =
     (if peek p \<noteq> Some COLON then Err (ParseErr Syntax)
      else bindR (parse_op fuel p) (\<lambda>(f, p1).
        let ops' = ops @ [f]; (spaced, p2) = skip_space p1 in
        case peek p2 of
          None \<Rightarrow> Ok (ops', p2)
        | Some c \<Rightarrow>
            if c = COLON then
              (if spaced then Err (ParseErr Syntax) else parse_chain_loop fuel ops' p2)
            else if c = COMMA \<or> c = RBRACKET then Ok (ops', p2)
            else Err (ParseErr Syntax)))"
| "parse_op 0 p = Err OutOfFuel"
| "parse_op (Suc fuel) p =
     (let (e1, p1) = eat (lit '':prefix='') p in
      if e1 then bindR (parse_path Operator p1) (\<lambda>((path, _), q). Ok (Prefix path, q))
      else let (e2, p2) = eat (lit '':exclude['') p in
      if e2 then parse_exclude fuel p2
      else let (e3, p3) = eat (lit '':['') p in
      if e3 then parse_compose fuel p3
      else let (e4, p4) = eat (lit '':/'') p in
      if e4 then bindR (parse_path Operator p4) (\<lambda>((path, _), q). Ok (Subdir path, q))
      else let (e5, p5) = eat (lit '':nop'') p in
      if e5 then Ok (Nop, p5)
      else let (e6, p6) = eat (lit '':empty'') p in
      if e6 then Ok (Empty, p6)
      else Err (ParseErr Syntax))"
| "parse_compose 0 p = Err OutOfFuel"
| "parse_compose (Suc fuel) p =
     (let p1 = p\<lparr>nesting := nesting p + 1\<rparr> in
      if nesting p1 > max_nesting p1 then Err (ParseErr NestingTooDeep)
      else bindR (parse_compose_loop fuel [] (snd (skip_space p1))) (\<lambda>(members, p2).
        Ok (Compose members, p2\<lparr>nesting := nesting p2 - 1\<rparr>)))"
| "parse_compose_loop 0 members p = Err OutOfFuel"
| "parse_compose_loop (Suc fuel) members p =
     bindR (parse_chain fuel p) (\<lambda>(f, p1).
       let members' = members @ [f]; (_, p2) = skip_space p1; (comma, p3) = eat [COMMA] p2 in
       if comma then parse_compose_loop fuel members' (snd (skip_space p3))
       else (let (close, p4) = eat [RBRACKET] p2 in
         if close then Ok (members', p4) else Err (ParseErr Syntax)))"

text \<open>Every call spends one unit of fuel and at most six calls nest between two characters
  consumed, so a multiple of the length of the text is enough.\<close>

definition parse_fuel :: "rstr \<Rightarrow> nat" where
  "parse_fuel text = 8 * (length text + 1)"

definition parse_with_max :: "rstr \<Rightarrow> nat \<Rightarrow> parse_fail + Filter" where
  "parse_with_max text limit =
     (let p = \<lparr>rest = text, nesting = 0, max_nesting = limit\<rparr>;
          (_, p1) = skip_space p in
      bindR (parse_chain (parse_fuel text) p1) (\<lambda>(f, p2).
        let (_, p3) = skip_space p2 in
        if rest p3 \<noteq> [] then Err (ParseErr Syntax) else Ok f))"

definition parse :: "rstr \<Rightarrow> parse_fail + Filter" where
  "parse text = parse_with_max text PARSE_MAX_NESTING"

section \<open>What a parser step consumes and yields\<close>

text \<open>The contract of a parser function: it never trips the assertion, it consumes at least
  \<open>k\<close> characters, it restores the nesting counter, and its value satisfies \<open>P\<close>; with \<open>enough\<close>
  fuel it does not run out of it.\<close>

definition parse_post ::
    "bool \<Rightarrow> nat \<Rightarrow> ('a \<Rightarrow> bool) \<Rightarrow> parser \<Rightarrow> parse_fail + 'a \<times> parser \<Rightarrow> bool" where
  "parse_post enough k P p r \<longleftrightarrow> (case r of
      Inl e \<Rightarrow> e \<noteq> PathAssert \<and> (enough \<longrightarrow> e \<noteq> OutOfFuel)
    | Inr (x, q) \<Rightarrow> P x \<and> length (rest q) + k \<le> length (rest p)
        \<and> nesting q = nesting p \<and> max_nesting q = max_nesting p)"

lemma parse_post_simps [simp]:
  "parse_post enough k P p (Inl e) \<longleftrightarrow> e \<noteq> PathAssert \<and> (enough \<longrightarrow> e \<noteq> OutOfFuel)"
  "parse_post enough k P p (Inr (x, q)) \<longleftrightarrow> P x \<and> length (rest q) + k \<le> length (rest p)
     \<and> nesting q = nesting p \<and> max_nesting q = max_nesting p"
  by (simp_all add: parse_post_def)

lemma parse_post_bindR:
  assumes "parse_post enough k P p m" and "enough' \<Longrightarrow> enough"
    and "\<And>x q. m = Inr (x, q) \<Longrightarrow> P x \<Longrightarrow> length (rest q) + k \<le> length (rest p)
      \<Longrightarrow> nesting q = nesting p \<Longrightarrow> max_nesting q = max_nesting p
      \<Longrightarrow> parse_post enough' k' Q p' (f (x, q))"
  shows "parse_post enough' k' Q p' (bindR m f)"
  using assms by (cases m) (auto simp: parse_post_def split: sum.splits)

lemma parse_post_mono:
  assumes "parse_post e k P p' r" and "e' \<Longrightarrow> e"
    and "length (rest p') + k' \<le> length (rest p) + k"
    and "nesting p' = nesting p" and "max_nesting p' = max_nesting p"
    and "\<And>x. P x \<Longrightarrow> Q x"
  shows "parse_post e' k' Q p r"
  using assms by (auto simp: parse_post_def split: sum.splits)

lemma eat_cases:
  obtains (no) "eat pre p = (False, p)"
  | (yes) r where "rest p = pre @ r" and "eat pre p = (True, p\<lparr>rest := r\<rparr>)"
  by (cases "strip_prefix pre (rest p)") (auto simp: eat_def strip_prefix_Some)

lemma skip_space_eq: "snd (skip_space p) = p\<lparr>rest := dropWhile is_space (rest p)\<rparr>"
  by (simp add: skip_space_def Let_def)

lemma skip_space_length [simp]:
  "length (rest (snd (skip_space p))) \<le> length (rest p)"
  "nesting (snd (skip_space p)) = nesting p"
  "max_nesting (snd (skip_space p)) = max_nesting p"
  by (simp_all add: skip_space_eq length_dropWhile_le)

lemma skip_space_le [simp]:
  "length (rest p) + k \<le> n \<Longrightarrow> length (rest (snd (skip_space p))) + k \<le> n"
  "length (rest p) \<le> n \<Longrightarrow> length (rest (snd (skip_space p))) \<le> n"
  using skip_space_length(1) [of p] by linarith+

definition raw_ok :: "rstr \<Rightarrow> bool" where
  "raw_ok s \<longleftrightarrow> (\<forall>c \<in> set s. \<not> is_control c \<and> c \<noteq> BACKSLASH)"

lemma read_quoted_ok:
  "read_quoted raw s = Inr (raw', r) \<Longrightarrow> raw_ok raw \<Longrightarrow> raw_ok raw' \<and> length r \<le> length s"
proof (induction raw s rule: read_quoted.induct)
  case (2 raw c cs)
  consider "c = QUOTE" | "c = BACKSLASH" | "c \<noteq> QUOTE" "c \<noteq> BACKSLASH" by blast
  then show ?case
  proof cases
    case 2
    with "2.prems" obtain ds where cs: "cs = QUOTE # ds"
      by (cases cs) (auto split: if_splits)
    with 2 "2.prems" have "read_quoted (raw @ [QUOTE]) ds = Inr (raw', r)" by simp
    moreover have "raw_ok (raw @ [QUOTE])"
      using "2.prems"(2) by (simp add: raw_ok_def is_control_def)
    ultimately have "raw_ok raw' \<and> length r \<le> length ds"
      using "2.IH"(1) [OF _ 2 cs] 2 by simp
    with cs show ?thesis by simp
  next
    case 3
    with "2.prems" have "\<not> is_control c" and "read_quoted (raw @ [c]) cs = Inr (raw', r)"
      by (auto split: if_splits)
    moreover have "raw_ok (raw @ [c])"
      using "2.prems"(2) 3 \<open>\<not> is_control c\<close> by (simp add: raw_ok_def)
    ultimately have "raw_ok raw' \<and> length r \<le> length cs"
      using "2.IH"(2) 3 by simp
    then show ?thesis by simp
  qed (use "2.prems" in auto)
qed simp

lemma read_unquoted_ok:
  "read_unquoted raw s = Inr (raw', r) \<Longrightarrow> raw_ok raw \<Longrightarrow> raw_ok raw' \<and> length r \<le> length s"
proof (induction raw s rule: read_unquoted.induct)
  case (2 raw c cs)
  show ?case
  proof (cases "c \<in> {COLON, COMMA, RBRACKET} \<or> is_space c")
    case True
    with "2.prems" show ?thesis by (auto split: if_splits)
  next
    case False
    with "2.prems" have c: "c \<noteq> QUOTE" "c \<noteq> BACKSLASH" "\<not> is_control c" "c = SLASH \<or> is_safe c"
      and rec: "read_unquoted (raw @ [c]) cs = Inr (raw', r)"
      by (simp_all split: if_splits)
    have "raw_ok (raw @ [c])"
      using "2.prems"(2) c by (simp add: raw_ok_def)
    with "2.IH" False c rec have "raw_ok raw' \<and> length r \<le> length cs" by simp
    then show ?thesis by simp
  qed
qed simp

lemma raw_ok_tl: "raw_ok s \<Longrightarrow> raw_ok (tl s)"
  by (cases s) (auto simp: raw_ok_def)

lemma raw_ok_butlast: "raw_ok s \<Longrightarrow> raw_ok (butlast s)"
  by (auto simp: raw_ok_def dest: in_set_butlastD)

lemma split_tree_ok:
  "split_tree kind quoted raw r = (tree, raw', r') \<Longrightarrow> raw_ok raw
    \<Longrightarrow> raw_ok raw' \<and> length r' \<le> length r"
  by (auto simp: split_tree_def Let_def strip_prefix_Some raw_ok_tl raw_ok_butlast
      split: PathKind.splits if_splits option.splits)

lemma check_segments_ok:
  "check_segments kind ss = Inr u \<Longrightarrow> s \<in> set ss
    \<Longrightarrow> s \<noteq> [] \<and> s \<noteq> lit ''.'' \<and> s \<noteq> lit ''..'' \<and> \<not> is_whitespace (hd s) \<and> \<not> is_whitespace (last s)"
  by (induction kind ss rule: check_segments.induct) (auto split: if_splits)

lemma checked_segments_wf:
  assumes "raw_ok raw" and "check_segments kind (split_on SLASH raw) = Inr u"
  shows "ViewPath_new (split_on SLASH raw) = Some (ViewPath (split_on SLASH raw))"
    and "wf_path (ViewPath (split_on SLASH raw))"
proof -
  have "valid_path_segment s" if s: "s \<in> set (split_on SLASH raw)" for s
    using check_segments_ok [OF assms(2) s] split_on_no_delim [OF s] split_on_chars [of SLASH raw] s
      assms(1)
    by (auto simp: valid_path_segment_def raw_ok_def list_ex_iff)
  then show "ViewPath_new (split_on SLASH raw) = Some (ViewPath (split_on SLASH raw))"
    and "wf_path (ViewPath (split_on SLASH raw))"
    by (auto simp: ViewPath_new_def wf_path_def list_all_iff)
qed

lemma parse_path_post: "parse_post True 0 (\<lambda>(path, tree). wf_path path) p (parse_path kind p)"
proof -
  obtain quoted p1 where e: "eat [QUOTE] p = (quoted, p1)" by (cases "eat [QUOTE] p")
  have p1: "length (rest p1) \<le> length (rest p)" "nesting p1 = nesting p" "max_nesting p1 = max_nesting p"
    using e by (auto simp: eat_def strip_prefix_Some split: option.splits)
  define src where "src = (if quoted then read_quoted [] (rest p1)
         else bindR (read_unquoted [] (rest p1)) (\<lambda>(raw, r).
              bindR (check_after_unquoted r) (\<lambda>_. Inr (raw, r))))"
  have src: "raw_ok raw \<and> length r \<le> length (rest p1)" if "src = Inr (raw, r)" for raw r
    using that read_quoted_ok [of "[]" "rest p1" raw r] read_unquoted_ok [of "[]" "rest p1" raw r]
    by (auto simp: src_def bindR_eq_Inr raw_ok_def split: if_splits)
  show ?thesis
  proof (cases src)
    case (Inl err)
    then show ?thesis by (simp add: parse_path_def e flip: src_def)
  next
    case (Inr x)
    obtain raw r where x: "x = (raw, r)" by (cases x)
    obtain tree raw' r' where st: "split_tree kind quoted raw r = (tree, raw', r')"
      by (cases "split_tree kind quoted raw r")
    have raw: "raw_ok raw" and r: "length r \<le> length (rest p1)" using src Inr x by auto
    have raw': "raw_ok raw'" and r': "length r' \<le> length r" using split_tree_ok [OF st raw] by auto
    show ?thesis
    proof (cases "if quoted then check_after_quoted r' else Inr ()")
      case (Inl err)
      then show ?thesis using Inr x st by (simp add: parse_path_def e flip: src_def)
    next
      case ok: (Inr u)
      show ?thesis
      proof (cases "check_segments kind (split_on SLASH raw')")
        case (Inl err)
        then show ?thesis using Inr x st ok by (simp add: parse_path_def e flip: src_def)
      next
        case (Inr v)
        note segs = checked_segments_wf [OF raw' Inr]
        show ?thesis
          using Inr \<open>src = Inr x\<close> x st ok segs p1 r r'
          by (simp add: parse_path_def e flip: src_def)
      qed
    qed
  qed
qed

lemma eat_post:
  assumes "\<And>r. rest p = pre @ r \<Longrightarrow> parse_post enough k P p (f (True, p\<lparr>rest := r\<rparr>))"
    and "parse_post enough k P p (f (False, p))"
  shows "parse_post enough k P p (f (eat pre p))"
  using assms by (cases rule: eat_cases [of pre p]) auto

text \<open>The value of a parser function is a well-formed filter within the nesting left.\<close>

definition filt_ok :: "nat \<Rightarrow> nat \<Rightarrow> Filter \<Rightarrow> bool" where
  "filt_ok n m f \<longleftrightarrow> wf_filter f \<and> n + nesting_depth f \<le> m"

lemma filt_ok_simps [simp]:
  "filt_ok n m (Subdir path) \<longleftrightarrow> wf_path path \<and> n \<le> m"
  "filt_ok n m (Prefix path) \<longleftrightarrow> wf_path path \<and> n \<le> m"
  "filt_ok n m (Exclude sels) \<longleftrightarrow> list_all wf_selector sels \<and> n \<le> m"
  "filt_ok n m (Compose fs) \<longleftrightarrow> list_all (filt_ok (Suc n) m) fs \<and> n < m"
  "filt_ok n m (Chain fs) \<longleftrightarrow> list_all (filt_ok n m) fs \<and> n \<le> m"
  "filt_ok n m Nop \<longleftrightarrow> n \<le> m"
  "filt_ok n m Empty \<longleftrightarrow> n \<le> m"
  by (auto simp: filt_ok_def list_all_iff add_Max_le Suc_add_Max_le)

lemma parse_exclude_loop_post:
  "list_all wf_selector sels \<Longrightarrow> nesting p \<le> max_nesting p \<Longrightarrow>
   parse_post (length (rest p) < fuel) 1 (filt_ok (nesting p) (max_nesting p)) p
     (parse_exclude_loop fuel sels p)"
proof (induction fuel arbitrary: sels p)
  case (Suc fuel)
  show ?case
  proof (cases rule: eat_cases [of "lit ''::''" p])
    case no
    then show ?thesis by simp
  next
    case (yes r)
    let ?p1 = "p\<lparr>rest := r\<rparr>"
    show ?thesis
    proof (cases "parse_path SelectorPath ?p1")
      case (Inl e)
      with yes parse_path_post [of ?p1 SelectorPath] show ?thesis by simp
    next
      case (Inr v)
      obtain path tree p2 where v: "v = ((path, tree), p2)" by (metis surj_pair)
      define sels' where "sels' = sels @ [if tree then Sel_Tree path else Sel_Entry path]"
      define p3 where "p3 = snd (skip_space p2)"
      have p3: "length (rest p3) + 2 \<le> length (rest p)" "nesting p3 = nesting p"
        "max_nesting p3 = max_nesting p" "list_all wf_selector sels'"
        using parse_path_post [of ?p1 SelectorPath] Inr v yes Suc.prems
          skip_space_length [of p2]
        by (auto simp: p3_def sels'_def)
      have loop: "parse_exclude_loop (Suc fuel) sels p =
        (let (comma, p4) = eat [COMMA] p3 in
          if comma then parse_exclude_loop fuel sels' (snd (skip_space p4))
          else (let (close, p5) = eat [RBRACKET] p3 in
            if close then Inr (Exclude sels', p5) else Inl (ParseErr Syntax)))"
        using yes Inr v by (simp add: sels'_def p3_def Let_def split_def)
      show ?thesis
      proof (cases rule: eat_cases [of "[COMMA]" p3])
        case no
        then show ?thesis
          using loop p3 Suc.prems by (cases rule: eat_cases [of "[RBRACKET]" p3]) auto
      next
        case comma: (yes r')
        define p4 where "p4 = snd (skip_space (p3\<lparr>rest := r'\<rparr>))"
        have p4: "length (rest p4) + 3 \<le> length (rest p)" "nesting p4 = nesting p"
          "max_nesting p4 = max_nesting p"
          using p3 comma(1) by (simp_all add: p4_def)
        have "parse_exclude_loop (Suc fuel) sels p = parse_exclude_loop fuel sels' p4"
          unfolding loop by (simp add: comma(2) p4_def)
        moreover have "parse_post (length (rest p4) < fuel) 1
            (filt_ok (nesting p4) (max_nesting p4)) p4 (parse_exclude_loop fuel sels' p4)"
          using p3 p4 Suc.prems by (intro Suc.IH) auto
        ultimately show ?thesis
          using p4 by (auto elim: parse_post_mono)
      qed
    qed
  qed
qed simp

abbreviation (input) step_ok :: "nat \<Rightarrow> nat \<Rightarrow> nat \<Rightarrow> parser \<Rightarrow> parse_fail + Filter \<times> parser \<Rightarrow> bool" where
  "step_ok need fuel k p r \<equiv> nesting p \<le> max_nesting p \<longrightarrow>
     parse_post (6 * length (rest p) + need \<le> fuel) k (filt_ok (nesting p) (max_nesting p)) p r"

abbreviation (input) loop_ok ::
    "nat \<Rightarrow> nat \<Rightarrow> nat \<Rightarrow> nat \<Rightarrow> Filter list \<Rightarrow> parser \<Rightarrow> parse_fail + Filter list \<times> parser \<Rightarrow> bool" where
  "loop_ok len need fuel k acc p r \<equiv>
     nesting p \<le> max_nesting p \<longrightarrow> list_all (filt_ok (nesting p) (max_nesting p)) acc \<longrightarrow>
     parse_post (6 * length (rest p) + need \<le> fuel) k
       (\<lambda>fs. length acc + len \<le> length fs \<and> list_all (filt_ok (nesting p) (max_nesting p)) fs) p r"

lemma parse_op_path:
  assumes "rest p = pre @ r" and "2 \<le> length pre" and "nesting p \<le> max_nesting p"
    and "\<And>path. C path = Subdir path \<or> C path = Prefix path"
  shows "parse_post e 2 (filt_ok (nesting p) (max_nesting p)) p
    (bindR (parse_path Operator (p\<lparr>rest := r\<rparr>)) (\<lambda>((path, _), q). Inr (C path, q)))"
proof -
  have "filt_ok (nesting p) (max_nesting p) (C path)" if "wf_path path" for path
    using that assms(3,4) by (metis filt_ok_simps(1,2))
  then show ?thesis
    using assms parse_path_post [of "p\<lparr>rest := r\<rparr>" Operator]
    by (auto simp: parse_post_def split: sum.splits)
qed

lemma parse_op_step:
  assumes compose: "\<And>p. step_ok 8 fuel 1 p (parse_compose fuel p)"
  shows "step_ok 4 (Suc fuel) 2 p (parse_op (Suc fuel) p)"
proof
  assume n: "nesting p \<le> max_nesting p"
  note path = parse_op_path [OF _ _ n]
  consider (pre) r where "eat (lit '':prefix='') p = (True, p\<lparr>rest := r\<rparr>)"
      "rest p = lit '':prefix='' @ r"
    | (npre) "eat (lit '':prefix='') p = (False, p)"
    by (cases rule: eat_cases [of "lit '':prefix=''" p]) auto
  then show "parse_post (6 * length (rest p) + 4 \<le> Suc fuel) 2 (filt_ok (nesting p) (max_nesting p)) p
      (parse_op (Suc fuel) p)"
  proof cases
    case (pre r)
    then show ?thesis using path [of "lit '':prefix=''" r Prefix] by simp
  next
    case npre
    show ?thesis
    proof (cases rule: eat_cases [of "lit '':exclude[''" p])
      case (yes r)
      have "parse_post (length (rest (snd (skip_space (p\<lparr>rest := r\<rparr>)))) < fuel) 1
          (filt_ok (nesting p) (max_nesting p)) (snd (skip_space (p\<lparr>rest := r\<rparr>)))
          (parse_exclude fuel (p\<lparr>rest := r\<rparr>))"
        using parse_exclude_loop_post [of "[]" "snd (skip_space (p\<lparr>rest := r\<rparr>))" fuel] n
        by (simp add: parse_exclude_def)
      moreover have "length (rest (snd (skip_space (p\<lparr>rest := r\<rparr>)))) + 9 \<le> length (rest p)"
        using yes(1) by simp
      ultimately show ?thesis
        using npre yes(2) by (auto elim!: parse_post_mono)
    next
      case nex: no
      show ?thesis
      proof (cases rule: eat_cases [of "lit '':[''" p])
        case (yes r)
        then show ?thesis
          using compose [of "p\<lparr>rest := r\<rparr>"] n npre nex
          by (auto elim!: parse_post_mono)
      next
        case ncomp: no
        show ?thesis
        proof (cases rule: eat_cases [of "lit '':/''" p])
          case (yes r)
          then show ?thesis using path [of "lit '':/''" r Subdir] npre nex ncomp by simp
        next
          case nsub: no
          show ?thesis
            using npre nex ncomp nsub n
            by (cases rule: eat_cases [of "lit '':nop''" p];
                cases rule: eat_cases [of "lit '':empty''" p]) simp_all
        qed
      qed
    qed
  qed
qed

lemma parse_chain_loop_step:
  assumes op: "\<And>p. step_ok 4 fuel 2 p (parse_op fuel p)"
    and loop: "\<And>acc p. loop_ok 1 5 fuel 2 acc p (parse_chain_loop fuel acc p)"
  shows "loop_ok 1 5 (Suc fuel) 2 acc p (parse_chain_loop (Suc fuel) acc p)"
proof (intro impI)
  assume n: "nesting p \<le> max_nesting p"
    and acc: "list_all (filt_ok (nesting p) (max_nesting p)) acc"
  let ?P = "\<lambda>fs. length acc + 1 \<le> length fs \<and> list_all (filt_ok (nesting p) (max_nesting p)) fs"
  let ?e = "6 * length (rest p) + 5 \<le> Suc fuel"
  have body: "parse_post ?e 2 ?P p (case (f, p1) of (f, p1) \<Rightarrow>
        let ops' = acc @ [f]; (spaced, p2) = skip_space p1 in
        case peek p2 of
          None \<Rightarrow> Inr (ops', p2)
        | Some c \<Rightarrow>
            if c = COLON then
              (if spaced then Inl (ParseErr Syntax) else parse_chain_loop fuel ops' p2)
            else if c = COMMA \<or> c = RBRACKET then Inr (ops', p2)
            else Inl (ParseErr Syntax))"
    if f: "filt_ok (nesting p) (max_nesting p) f" and len: "length (rest p1) + 2 \<le> length (rest p)"
      and p1: "nesting p1 = nesting p" "max_nesting p1 = max_nesting p" for f p1
  proof -
    obtain spaced p2 where sk: "skip_space p1 = (spaced, p2)" by (cases "skip_space p1")
    have p2: "length (rest p2) + 2 \<le> length (rest p)" "nesting p2 = nesting p"
      "max_nesting p2 = max_nesting p"
      using skip_space_le(1) [OF len] skip_space_length(2,3) [of p1] p1 sk by auto
    have "loop_ok 1 5 fuel 2 (acc @ [f]) p2 (parse_chain_loop fuel (acc @ [f]) p2)" by (rule loop)
    then have "parse_post (6 * length (rest p2) + 5 \<le> fuel) 2
        (\<lambda>fs. length acc + 2 \<le> length fs \<and> list_all (filt_ok (nesting p) (max_nesting p)) fs) p2
        (parse_chain_loop fuel (acc @ [f]) p2)"
      using f acc n p2 by simp
    then have "parse_post ?e 2 ?P p (parse_chain_loop fuel (acc @ [f]) p2)"
      by (rule parse_post_mono) (use p2 in auto)
    then show ?thesis
      using sk p2 f acc by (auto simp: Let_def split: option.splits)
  qed
  show "parse_post ?e 2 ?P p (parse_chain_loop (Suc fuel) acc p)"
  proof (cases "peek p = Some COLON")
    case True
    then show ?thesis
      using op [of p] n body by (auto intro!: parse_post_bindR)
  qed simp
qed

lemma parse_chain_step:
  assumes loop: "\<And>acc p. loop_ok 1 5 fuel 2 acc p (parse_chain_loop fuel acc p)"
  shows "step_ok 6 (Suc fuel) 2 p (parse_chain (Suc fuel) p)"
proof
  assume n: "nesting p \<le> max_nesting p"
  have "parse_post (6 * length (rest p) + 5 \<le> fuel) 2
      (\<lambda>fs. 1 \<le> length fs \<and> list_all (filt_ok (nesting p) (max_nesting p)) fs) p
      (parse_chain_loop fuel [] p)"
    using loop [of p "[]"] n by simp
  then show "parse_post (6 * length (rest p) + 6 \<le> Suc fuel) 2
      (filt_ok (nesting p) (max_nesting p)) p (parse_chain (Suc fuel) p)"
    unfolding parse_chain.simps
    by (rule parse_post_bindR) (use n in \<open>auto split: list.splits\<close>)
qed

lemma parse_compose_step:
  assumes loop: "\<And>acc p. loop_ok 1 7 fuel 1 acc p (parse_compose_loop fuel acc p)"
  shows "step_ok 8 (Suc fuel) 1 p (parse_compose (Suc fuel) p)"
proof
  assume n: "nesting p \<le> max_nesting p"
  define p1 where "p1 = p\<lparr>nesting := nesting p + 1\<rparr>"
  define p2 where "p2 = snd (skip_space p1)"
  have p2: "length (rest p2) \<le> length (rest p)" "nesting p2 = Suc (nesting p)"
    "max_nesting p2 = max_nesting p"
    by (simp_all add: p2_def p1_def)
  show "parse_post (6 * length (rest p) + 8 \<le> Suc fuel) 1
      (filt_ok (nesting p) (max_nesting p)) p (parse_compose (Suc fuel) p)"
  proof (cases "nesting p < max_nesting p")
    case True
    then have "parse_post (6 * length (rest p2) + 7 \<le> fuel) 1
        (list_all (filt_ok (Suc (nesting p)) (max_nesting p))) p2 (parse_compose_loop fuel [] p2)"
      using loop [of p2 "[]"] p2 by (auto elim: parse_post_mono)
    then have "parse_post (6 * length (rest p) + 8 \<le> Suc fuel) 1 (filt_ok (nesting p) (max_nesting p)) p
        (bindR (parse_compose_loop fuel [] p2)
          (\<lambda>(members, q). Inr (Compose members, q\<lparr>nesting := nesting q - 1\<rparr>)))"
      by (rule parse_post_bindR) (use p2 True in auto)
    then show ?thesis using True by (simp add: p2_def p1_def)
  qed simp
qed

lemma parse_compose_loop_step:
  assumes chain: "\<And>p. step_ok 6 fuel 2 p (parse_chain fuel p)"
    and loop: "\<And>acc p. loop_ok 1 7 fuel 1 acc p (parse_compose_loop fuel acc p)"
  shows "loop_ok 1 7 (Suc fuel) 1 acc p (parse_compose_loop (Suc fuel) acc p)"
proof (intro impI)
  assume n: "nesting p \<le> max_nesting p"
    and acc: "list_all (filt_ok (nesting p) (max_nesting p)) acc"
  let ?P = "\<lambda>fs. length acc + 1 \<le> length fs \<and> list_all (filt_ok (nesting p) (max_nesting p)) fs"
  let ?e = "6 * length (rest p) + 7 \<le> Suc fuel"
  have body: "parse_post ?e 1 ?P p (case (f, p1) of (f, p1) \<Rightarrow>
        let members' = acc @ [f]; (_, p2) = skip_space p1; (comma, p3) = eat [COMMA] p2 in
        if comma then parse_compose_loop fuel members' (snd (skip_space p3))
        else (let (close, p4) = eat [RBRACKET] p2 in
          if close then Inr (members', p4) else Inl (ParseErr Syntax)))"
    if f: "filt_ok (nesting p) (max_nesting p) f" and len: "length (rest p1) + 2 \<le> length (rest p)"
      and p1: "nesting p1 = nesting p" "max_nesting p1 = max_nesting p" for f p1
  proof -
    obtain spaced p2 where sk: "skip_space p1 = (spaced, p2)" by (cases "skip_space p1")
    have p2: "length (rest p2) + 2 \<le> length (rest p)" "nesting p2 = nesting p"
      "max_nesting p2 = max_nesting p"
      using skip_space_le(1) [OF len] skip_space_length(2,3) [of p1] p1 sk by auto
    show ?thesis
    proof (cases rule: eat_cases [of "[COMMA]" p2])
      case (yes r)
      define p3 where "p3 = snd (skip_space (p2\<lparr>rest := r\<rparr>))"
      have p3: "length (rest p3) + 3 \<le> length (rest p)" "nesting p3 = nesting p"
        "max_nesting p3 = max_nesting p"
        using p2 yes(1) by (simp_all add: p3_def)
      have "loop_ok 1 7 fuel 1 (acc @ [f]) p3 (parse_compose_loop fuel (acc @ [f]) p3)" by (rule loop)
      then have "parse_post (6 * length (rest p3) + 7 \<le> fuel) 1
          (\<lambda>fs. length acc + 2 \<le> length fs \<and> list_all (filt_ok (nesting p) (max_nesting p)) fs) p3
          (parse_compose_loop fuel (acc @ [f]) p3)"
        using f acc n p3 by simp
      then have "parse_post ?e 1 ?P p (parse_compose_loop fuel (acc @ [f]) p3)"
        by (rule parse_post_mono) (use p3 in auto)
      then show ?thesis using sk yes(2) by (simp add: p3_def)
    next
      case no
      then show ?thesis
        using sk p2 f acc by (cases rule: eat_cases [of "[RBRACKET]" p2]) (auto simp: Let_def)
    qed
  qed
  show "parse_post ?e 1 ?P p (parse_compose_loop (Suc fuel) acc p)"
    using chain [of p] n body by (auto intro!: parse_post_bindR)
qed

lemma parse_mutual_ok:
  "(\<forall>p. step_ok 6 fuel 2 p (parse_chain fuel p))
   \<and> (\<forall>acc p. loop_ok 1 5 fuel 2 acc p (parse_chain_loop fuel acc p))
   \<and> (\<forall>p. step_ok 4 fuel 2 p (parse_op fuel p))
   \<and> (\<forall>p. step_ok 8 fuel 1 p (parse_compose fuel p))
   \<and> (\<forall>acc p. loop_ok 1 7 fuel 1 acc p (parse_compose_loop fuel acc p))"
proof (induction fuel)
  case 0
  show ?case by simp
next
  case (Suc fuel)
  then show ?case
    using parse_chain_step [of fuel] parse_chain_loop_step [of fuel] parse_op_step [of fuel]
      parse_compose_step [of fuel] parse_compose_loop_step [of fuel]
    by blast
qed

lemma parse_with_max_ok:
  "case parse_with_max text limit of
     Inl e \<Rightarrow> e \<noteq> PathAssert \<and> e \<noteq> OutOfFuel
   | Inr f \<Rightarrow> wf_filter f \<and> nesting_depth f \<le> limit"
proof -
  define p where "p = snd (skip_space \<lparr>rest = text, nesting = 0, max_nesting = limit\<rparr>)"
  have p: "length (rest p) \<le> length text" "nesting p = 0" "max_nesting p = limit"
    by (simp_all add: p_def)
  have "parse_post (6 * length (rest p) + 6 \<le> parse_fuel text) 2 (filt_ok 0 limit) p
      (parse_chain (parse_fuel text) p)"
    using parse_mutual_ok [of "parse_fuel text", THEN conjunct1, rule_format, of p] p by simp
  then have "parse_post True 2 (filt_ok 0 limit) p (parse_chain (parse_fuel text) p)"
    by (rule parse_post_mono) (use p in \<open>auto simp: parse_fuel_def\<close>)
  moreover have "parse_with_max text limit = bindR (parse_chain (parse_fuel text) p) (\<lambda>(f, p2).
      if rest (snd (skip_space p2)) \<noteq> [] then Inl (ParseErr Syntax) else Inr f)"
    by (simp add: parse_with_max_def p_def Let_def split_def)
  ultimately show ?thesis
    by (auto simp: parse_post_def filt_ok_def split: sum.splits if_splits)
qed

section \<open>More fuel never changes a result\<close>

definition fuel_le :: "parse_fail + 'a \<Rightarrow> parse_fail + 'a \<Rightarrow> bool" where
  "fuel_le r r' \<longleftrightarrow> r = Inl OutOfFuel \<or> r' = r"

lemma fuel_le_refl [simp, intro]: "fuel_le r r"
  by (simp add: fuel_le_def)

lemma fuel_le_OutOfFuel [simp]: "fuel_le (Inl OutOfFuel) r"
  by (simp add: fuel_le_def)

lemma fuel_le_trans: "fuel_le a b \<Longrightarrow> fuel_le b c \<Longrightarrow> fuel_le a c"
  by (auto simp: fuel_le_def)

lemma fuel_le_bindR:
  "fuel_le m m' \<Longrightarrow> (\<And>x. m = Inr x \<Longrightarrow> fuel_le (f x) (f' x)) \<Longrightarrow> fuel_le (bindR m f) (bindR m' f')"
  by (cases m) (auto simp: fuel_le_def)

lemma parse_exclude_loop_mono:
  "fuel_le (parse_exclude_loop fuel sels p) (parse_exclude_loop (Suc fuel) sels p)"
proof (induction fuel arbitrary: sels p)
  case (Suc fuel)
  show ?case
    by (subst parse_exclude_loop.simps(2) [of fuel], subst parse_exclude_loop.simps(2) [of "Suc fuel"])
      (auto simp: Let_def simp del: parse_exclude_loop.simps split: prod.splits
        intro!: fuel_le_bindR Suc.IH)
qed simp

lemma parse_mutual_mono:
  "(\<forall>p. fuel_le (parse_chain fuel p) (parse_chain (Suc fuel) p))
   \<and> (\<forall>acc p. fuel_le (parse_chain_loop fuel acc p) (parse_chain_loop (Suc fuel) acc p))
   \<and> (\<forall>p. fuel_le (parse_op fuel p) (parse_op (Suc fuel) p))
   \<and> (\<forall>p. fuel_le (parse_compose fuel p) (parse_compose (Suc fuel) p))
   \<and> (\<forall>acc p. fuel_le (parse_compose_loop fuel acc p) (parse_compose_loop (Suc fuel) acc p))"
proof (induction fuel)
  case (Suc fuel)
  then have IH: "fuel_le (parse_chain fuel p) (parse_chain (Suc fuel) p)"
    "fuel_le (parse_chain_loop fuel acc p) (parse_chain_loop (Suc fuel) acc p)"
    "fuel_le (parse_op fuel p) (parse_op (Suc fuel) p)"
    "fuel_le (parse_compose fuel p) (parse_compose (Suc fuel) p)"
    "fuel_le (parse_compose_loop fuel acc p) (parse_compose_loop (Suc fuel) acc p)" for acc p
    by blast+
  note defs = parse_chain.simps parse_chain_loop.simps parse_op.simps parse_compose.simps
    parse_compose_loop.simps parse_exclude_loop.simps
  have "fuel_le (parse_chain (Suc fuel) p) (parse_chain (Suc (Suc fuel)) p)" for p
    by (subst parse_chain.simps(2) [of fuel], subst parse_chain.simps(2) [of "Suc fuel"])
      (auto simp del: defs intro!: fuel_le_bindR IH)
  moreover have "fuel_le (parse_chain_loop (Suc fuel) acc p) (parse_chain_loop (Suc (Suc fuel)) acc p)"
    for acc p
    by (subst parse_chain_loop.simps(2) [of fuel], subst parse_chain_loop.simps(2) [of "Suc fuel"])
      (auto simp: Let_def simp del: defs intro!: fuel_le_bindR IH split: prod.splits option.splits)
  moreover have "fuel_le (parse_op (Suc fuel) p) (parse_op (Suc (Suc fuel)) p)" for p
    by (subst parse_op.simps(2) [of fuel], subst parse_op.simps(2) [of "Suc fuel"])
      (auto simp: Let_def parse_exclude_def simp del: defs intro!: fuel_le_bindR IH parse_exclude_loop_mono
        split: prod.splits)
  moreover have "fuel_le (parse_compose (Suc fuel) p) (parse_compose (Suc (Suc fuel)) p)" for p
    by (subst parse_compose.simps(2) [of fuel], subst parse_compose.simps(2) [of "Suc fuel"])
      (auto simp: Let_def simp del: defs intro!: fuel_le_bindR IH)
  moreover have "fuel_le (parse_compose_loop (Suc fuel) acc p)
      (parse_compose_loop (Suc (Suc fuel)) acc p)" for acc p
    by (subst parse_compose_loop.simps(2) [of fuel], subst parse_compose_loop.simps(2) [of "Suc fuel"])
      (auto simp: Let_def simp del: defs intro!: fuel_le_bindR IH split: prod.splits)
  ultimately show ?case by blast
qed simp

lemma parse_chain_mono: "fuel \<le> fuel' \<Longrightarrow> fuel_le (parse_chain fuel p) (parse_chain fuel' p)"
proof (induction rule: dec_induct)
  case (step n)
  then show ?case
    using parse_mutual_mono [of n] by (blast intro: fuel_le_trans)
qed simp

text \<open>To know what \<open>parse_with_max\<close> returns it is enough to know what \<open>parse_chain\<close> returns with
  some amount of fuel.\<close>

lemma parse_with_maxI:
  assumes chain: "parse_chain fuel \<lparr>rest = text, nesting = 0, max_nesting = limit\<rparr>
      = Inr (f, \<lparr>rest = [], nesting = n, max_nesting = m\<rparr>)"
    and ns: "dropWhile is_space text = text"
  shows "parse_with_max text limit = Inr f"
proof -
  let ?p = "\<lparr>rest = text, nesting = 0, max_nesting = limit\<rparr>"
  have skip: "skip_space ?p = (False, ?p)"
    using ns by (simp add: skip_space_def)
  have "parse_post (6 * length text + 6 \<le> parse_fuel text) 2 (filt_ok 0 limit) ?p
      (parse_chain (parse_fuel text) ?p)"
    using parse_mutual_ok [of "parse_fuel text", THEN conjunct1, rule_format, of ?p] by simp
  then have noof: "parse_chain (parse_fuel text) ?p \<noteq> Inl OutOfFuel"
    by (auto simp: parse_fuel_def)
  have "parse_chain (parse_fuel text) ?p = Inr (f, \<lparr>rest = [], nesting = n, max_nesting = m\<rparr>)"
    using parse_chain_mono [of "parse_fuel text" fuel ?p] parse_chain_mono [of fuel "parse_fuel text" ?p]
      noof chain
    by (cases "fuel \<le> parse_fuel text") (auto simp: fuel_le_def)
  then show ?thesis
    using skip by (simp add: parse_with_max_def skip_space_def)
qed

end
