(* ===== verification/Filter_Roundtrip.thy ===== *)
theory Filter_Roundtrip
  imports Filter_Parse
begin

text \<open>
  Parsing what the printer wrote. The parser functions are first turned into relations with
  enough fuel (\<open>ev_chain\<close>, \<open>ev_op\<close>, ...), one rule per way through the code; the round trip is then
  an induction over the filter.
\<close>

section \<open>Paths\<close>

definition delimited :: "rstr \<Rightarrow> bool" where
  "delimited r \<longleftrightarrow> (case r of [] \<Rightarrow> True | c # _ \<Rightarrow> c \<in> {COLON, COMMA, RBRACKET})"

lemma read_quoted_escape:
  "(\<And>c. c \<in> set t \<Longrightarrow> \<not> is_control c \<and> c \<noteq> BACKSLASH) \<Longrightarrow>
   read_quoted raw (escape_quotes t @ QUOTE # r) = Inr (raw @ t, r)"
proof (induction t arbitrary: raw)
  case Nil
  show ?case by (simp add: escape_quotes_def)
next
  case (Cons c t)
  then have IH: "read_quoted raw' (escape_quotes t @ QUOTE # r) = Inr (raw' @ t, r)" for raw'
    by simp
  have esc: "escape_quotes (c # t) = (if c = QUOTE then [BACKSLASH, QUOTE] else [c]) @ escape_quotes t"
    by (simp add: escape_quotes_def)
  show ?case
    using Cons.prems [of c] IH by (auto simp: esc)
qed

lemma read_unquoted_safe:
  "(\<And>c. c \<in> set t \<Longrightarrow> c = SLASH \<or> is_safe c) \<Longrightarrow> delimited r \<Longrightarrow>
   read_unquoted raw (t @ r) = Inr (raw @ t, r)"
proof (induction t arbitrary: raw)
  case Nil
  then show ?case by (cases r) (auto simp: delimited_def)
next
  case (Cons c t)
  have "c = SLASH \<or> is_safe c" using Cons.prems(1) by simp
  then have c: "c \<notin> {BACKSLASH, QUOTE, COLON, COMMA, RBRACKET, SPACE, TAB, LF, CR}"
    "\<not> is_control c" "c = SLASH \<or> is_safe c"
    using is_safe_not [of c] by (auto simp: is_control_def)
  have "read_unquoted (raw @ [c]) (t @ r) = Inr ((raw @ [c]) @ t, r)"
    using Cons by simp
  with c show ?case by (simp add: is_space_def)
qed

lemma check_after_delimited:
  "delimited r \<Longrightarrow> check_after_unquoted r = Inr ()"
  "delimited r \<Longrightarrow> check_after_quoted r = Inr ()"
  by (auto simp: delimited_def check_after_unquoted_def check_after_quoted_def is_space_def
      is_safe_def is_ascii_alphanumeric_def is_ascii_def split: list.splits)

lemma check_segments_valid: "list_all valid_path_segment ss \<Longrightarrow> check_segments kind ss = Inr ()"
  by (induction ss) (auto simp: valid_path_segment_def)

lemma wf_path_new: "wf_path path \<Longrightarrow> ViewPath_new (segments path) = Some path"
  by (cases path) (simp add: ViewPath_new_def wf_path_def)

lemma parse_path_print:
  assumes wf: "wf_path path" and del: "delimited r"
    and post: "tree \<longleftrightarrow> tail = [SLASH]" "\<not> tree \<longleftrightarrow> tail = []" "kind = Operator \<Longrightarrow> \<not> tree"
  shows "parse_path kind (p\<lparr>rest := print_path path @ tail @ r\<rparr>)
    = Inr ((path, tree), p\<lparr>rest := r\<rparr>)"
proof -
  define t where "t = join_with [SLASH] (segments path)"
  have t: "t \<noteq> []" "hd t \<noteq> SLASH" "last t \<noteq> SLASH" "split_on SLASH t = segments path"
    "\<And>c. c \<in> set t \<Longrightarrow> \<not> is_control c \<and> c \<noteq> BACKSLASH"
    using wf_path_text_not_Nil [OF wf] wf_path_text_edges [OF wf] wf_path_split_join [OF wf]
      wf_path_text_chars [OF wf]
    by (auto simp: t_def)
  have seg: "check_segments kind (segments path) = Inr ()"
    using wf by (intro check_segments_valid) (simp add: wf_path_def)
  have no_slash: "\<not> starts_with t [SLASH]" "\<not> ends_with t [SLASH]"
    using t by (simp_all add: starts_with_single ends_with_single)
  have strip: "strip_prefix [SLASH] r = None"
    using del by (cases r) (auto simp: delimited_def)
  show ?thesis
  proof (cases "list_all (\<lambda>ch. ch = SLASH \<or> is_safe ch) t")
    case True
    then have safe: "c \<in> set t \<Longrightarrow> c = SLASH \<or> is_safe c" for c
      by (auto simp: list_all_iff)
    have pp: "print_path path = t"
      using True by (simp add: print_path_def t_def)
    have "hd t \<noteq> QUOTE"
      using safe [of "hd t"] t(1) is_safe_not [of "hd t"] by auto
    then have nq: "eat [QUOTE] (p\<lparr>rest := t @ tail @ r\<rparr>) = (False, p\<lparr>rest := t @ tail @ r\<rparr>)"
      using t(1) by (cases t) (simp_all add: eat_def)
    have rd: "read_unquoted [] ((t @ tail) @ r) = Inr ([] @ (t @ tail), r)"
      by (rule read_unquoted_safe) (use safe post del in auto)
    have st: "split_tree kind False (t @ tail) r = (tree, t, r)"
      using no_slash post by (cases kind; cases tree) (auto simp: split_tree_def ends_with_single)
    show ?thesis
      using rd st by (simp add: parse_path_def pp nq check_after_delimited(1) [OF del] t(4) seg
          wf_path_new [OF wf])
  next
    case False
    then have pp: "print_path path = QUOTE # escape_quotes t @ [QUOTE]"
      by (simp add: print_path_def t_def)
    have rd: "read_quoted [] (escape_quotes t @ QUOTE # tail @ r) = Inr (t, tail @ r)"
      using read_quoted_escape [of t "[]" "tail @ r"] t(5) by simp
    have st: "split_tree kind True t (tail @ r) = (tree, t, r)"
      using no_slash post strip by (cases kind; cases tree) (auto simp: split_tree_def)
    show ?thesis
      using rd st by (simp add: parse_path_def pp eat_def check_after_delimited(2) [OF del] t(4) seg
          wf_path_new [OF wf])
  qed
qed

section \<open>The parser with enough fuel\<close>

text \<open>The parser functions as relations between the states before and after.\<close>

definition ev_chain :: "parser \<Rightarrow> Filter \<Rightarrow> parser \<Rightarrow> bool" where
  "ev_chain p f q \<longleftrightarrow> (\<exists>k. \<forall>fuel \<ge> k. parse_chain fuel p = Inr (f, q))"

definition ev_chain_loop :: "Filter list \<Rightarrow> parser \<Rightarrow> Filter list \<Rightarrow> parser \<Rightarrow> bool" where
  "ev_chain_loop acc p fs q \<longleftrightarrow> (\<exists>k. \<forall>fuel \<ge> k. parse_chain_loop fuel acc p = Inr (fs, q))"

definition ev_op :: "parser \<Rightarrow> Filter \<Rightarrow> parser \<Rightarrow> bool" where
  "ev_op p f q \<longleftrightarrow> (\<exists>k. \<forall>fuel \<ge> k. parse_op fuel p = Inr (f, q))"

definition ev_compose_loop :: "Filter list \<Rightarrow> parser \<Rightarrow> Filter list \<Rightarrow> parser \<Rightarrow> bool" where
  "ev_compose_loop acc p fs q \<longleftrightarrow> (\<exists>k. \<forall>fuel \<ge> k. parse_compose_loop fuel acc p = Inr (fs, q))"

lemma all_ge_Suc: "(\<And>fuel. k \<le> fuel \<Longrightarrow> P (Suc fuel)) \<Longrightarrow> \<forall>fuel \<ge> Suc k. P fuel"
  by (metis Suc_le_D Suc_le_mono)

lemma skip_space_none:
  "delimited (rest p) \<Longrightarrow> skip_space p = (False, p)"
  by (cases "rest p") (auto simp: skip_space_def delimited_def is_space_def)

lemma skip_space_nonspace:
  "rest p = c # r \<Longrightarrow> \<not> is_space c \<Longrightarrow> skip_space p = (False, p)"
  by (simp add: skip_space_def)

lemma ev_chain_loop_last:
  assumes op: "ev_op p f q" and start: "peek p = Some COLON"
    and stop: "delimited (rest q)" "peek q \<noteq> Some COLON"
  shows "ev_chain_loop acc p (acc @ [f]) q"
proof -
  obtain k where k: "\<And>fuel. k \<le> fuel \<Longrightarrow> parse_op fuel p = Inr (f, q)"
    using op by (auto simp: ev_op_def)
  have "\<forall>fuel \<ge> Suc k. parse_chain_loop fuel acc p = Inr (acc @ [f], q)"
    by (rule all_ge_Suc)
      (use k start stop in \<open>auto simp: skip_space_none peek_def delimited_def split: list.splits\<close>)
  then show ?thesis by (auto simp: ev_chain_loop_def)
qed

lemma ev_chain_loop_next:
  assumes op: "ev_op p f p1" and start: "peek p = Some COLON"
    and go: "peek p1 = Some COLON" and loop: "ev_chain_loop (acc @ [f]) p1 fs q"
  shows "ev_chain_loop acc p fs q"
proof -
  obtain k l where k: "\<And>fuel. k \<le> fuel \<Longrightarrow> parse_op fuel p = Inr (f, p1)"
    and l: "\<And>fuel. l \<le> fuel \<Longrightarrow> parse_chain_loop fuel (acc @ [f]) p1 = Inr (fs, q)"
    using op loop by (auto simp: ev_op_def ev_chain_loop_def)
  have sk: "skip_space p1 = (False, p1)"
    using go by (intro skip_space_none) (auto simp: peek_def delimited_def split: list.splits)
  have "\<forall>fuel \<ge> Suc (max k l). parse_chain_loop fuel acc p = Inr (fs, q)"
    by (rule all_ge_Suc) (use k l start go sk in auto)
  then show ?thesis by (auto simp: ev_chain_loop_def)
qed

lemma ev_chain_loop_chain:
  assumes "ev_chain_loop [] p fs q"
  shows "ev_chain p (case fs of [f] \<Rightarrow> f | _ \<Rightarrow> Chain fs) q"
proof -
  obtain k where k: "\<And>fuel. k \<le> fuel \<Longrightarrow> parse_chain_loop fuel [] p = Inr (fs, q)"
    using assms by (auto simp: ev_chain_loop_def)
  have "\<forall>fuel \<ge> Suc k. parse_chain fuel p = Inr (case fs of [f] \<Rightarrow> f | _ \<Rightarrow> Chain fs, q)"
    by (rule all_ge_Suc) (use k in auto)
  then show ?thesis by (auto simp: ev_chain_def)
qed

lemma ev_compose_loop_last:
  assumes chain: "ev_chain p f q" and close: "rest q = RBRACKET # r"
  shows "ev_compose_loop acc p (acc @ [f]) (q\<lparr>rest := r\<rparr>)"
proof -
  obtain k where k: "\<And>fuel. k \<le> fuel \<Longrightarrow> parse_chain fuel p = Inr (f, q)"
    using chain by (auto simp: ev_chain_def)
  have sk: "skip_space q = (False, q)"
    using close by (intro skip_space_none) (simp add: delimited_def)
  have "\<forall>fuel \<ge> Suc k. parse_compose_loop fuel acc p = Inr (acc @ [f], q\<lparr>rest := r\<rparr>)"
    by (rule all_ge_Suc) (use k close sk in \<open>auto simp: eat_def\<close>)
  then show ?thesis by (auto simp: ev_compose_loop_def)
qed

lemma ev_compose_loop_next:
  assumes chain: "ev_chain p f p1" and comma: "rest p1 = COMMA # COLON # r"
    and loop: "ev_compose_loop (acc @ [f]) (p1\<lparr>rest := COLON # r\<rparr>) fs q"
  shows "ev_compose_loop acc p fs q"
proof -
  obtain k l where k: "\<And>fuel. k \<le> fuel \<Longrightarrow> parse_chain fuel p = Inr (f, p1)"
    and l: "\<And>fuel. l \<le> fuel \<Longrightarrow> parse_compose_loop fuel (acc @ [f]) (p1\<lparr>rest := COLON # r\<rparr>) = Inr (fs, q)"
    using chain loop by (auto simp: ev_chain_def ev_compose_loop_def)
  have sk: "skip_space p1 = (False, p1)"
    "skip_space (p1\<lparr>rest := COLON # r\<rparr>) = (False, p1\<lparr>rest := COLON # r\<rparr>)"
    using comma by (auto intro!: skip_space_none simp: delimited_def)
  have "\<forall>fuel \<ge> Suc (max k l). parse_compose_loop fuel acc p = Inr (fs, q)"
    by (rule all_ge_Suc) (use k l comma sk in \<open>auto simp: eat_def\<close>)
  then show ?thesis by (auto simp: ev_compose_loop_def)
qed

lemma rest_nesting_swap: "p\<lparr>nesting := n, rest := r\<rparr> = p\<lparr>rest := r, nesting := n\<rparr>"
  by (cases p) simp

lemma ev_op_compose:
  assumes loop: "ev_compose_loop [] (p\<lparr>rest := COLON # r, nesting := Suc (nesting p)\<rparr>) fs
        (p\<lparr>rest := r', nesting := Suc (nesting p)\<rparr>)"
    and start: "rest p = lit '':['' @ COLON # r" and n: "nesting p < max_nesting p"
  shows "ev_op p (Compose fs) (p\<lparr>rest := r'\<rparr>)"
proof -
  let ?p1 = "p\<lparr>rest := COLON # r, nesting := Suc (nesting p)\<rparr>"
  obtain k where k: "\<And>fuel. k \<le> fuel \<Longrightarrow>
      parse_compose_loop fuel [] ?p1 = Inr (fs, p\<lparr>rest := r', nesting := Suc (nesting p)\<rparr>)"
    using loop by (auto simp: ev_compose_loop_def)
  have sk: "skip_space ?p1 = (False, ?p1)"
    by (intro skip_space_none) (simp add: delimited_def)
  have comp: "parse_compose fuel (p\<lparr>rest := COLON # r\<rparr>) = Inr (Compose fs, p\<lparr>rest := r'\<rparr>)"
    if "Suc k \<le> fuel" for fuel
    using that k n sk by (cases fuel) auto
  have "\<forall>fuel \<ge> Suc (Suc k). parse_op fuel p = Inr (Compose fs, p\<lparr>rest := r'\<rparr>)"
    by (rule all_ge_Suc) (use comp start in \<open>auto simp: eat_def\<close>)
  then show ?thesis by (auto simp: ev_op_def)
qed

section \<open>Printed filters\<close>

text \<open>The shape of the filters the parser builds: no empty list, no chain directly in a chain, no
  chain of one.\<close>

fun is_chain :: "Filter \<Rightarrow> bool" where
  "is_chain (Chain _) = True"
| "is_chain _ = False"

fun printable :: "Filter \<Rightarrow> bool" where
  "printable (Subdir path) = wf_path path"
| "printable (Prefix path) = wf_path path"
| "printable (Exclude selectors) = (selectors \<noteq> [] \<and> list_all wf_selector selectors)"
| "printable (Compose members) = (members \<noteq> [] \<and> list_all printable members)"
| "printable (Chain ops) = (2 \<le> length ops \<and> list_all printable ops \<and> list_all (\<lambda>f. \<not> is_chain f) ops)"
| "printable Nop = True"
| "printable Empty = True"

definition closing :: "rstr \<Rightarrow> bool" where
  "closing r \<longleftrightarrow> (case r of [] \<Rightarrow> True | c # _ \<Rightarrow> c \<in> {COMMA, RBRACKET})"

lemma closing_delimited: "closing r \<Longrightarrow> delimited r"
  by (auto simp: closing_def delimited_def split: list.splits)

lemma print_filter_colon: "printable f \<Longrightarrow> \<exists>s. print_filter f = COLON # s"
proof (induction f)
  case (Chain ops)
  then obtain f fs where "ops = f # fs" "printable f" by (cases ops) auto
  moreover from this obtain s where "print_filter f = COLON # s" using Chain.IH [of f] by auto
  ultimately show ?case by simp
qed auto

lemma parse_exclude_loop_print:
  assumes "sels \<noteq> []" and "list_all wf_selector sels" and "length sels < fuel"
  shows "parse_exclude_loop fuel acc (p\<lparr>rest := join_with [COMMA] (map print_selector sels) @ RBRACKET # r\<rparr>)
    = Inr (Exclude (acc @ sels), p\<lparr>rest := r\<rparr>)"
  using assms
proof (induction sels arbitrary: acc fuel)
  case (Cons sel sels)
  obtain n where fuel: "fuel = Suc n" using Cons.prems(3) by (cases fuel) auto
  define path where "path = (case sel of Sel_Entry q \<Rightarrow> q | Sel_Tree q \<Rightarrow> q)"
  define tree where "tree = (case sel of Sel_Entry q \<Rightarrow> False | Sel_Tree q \<Rightarrow> True)"
  define tail where "tail = (if tree then [SLASH] else [])"
  have sel: "sel = (if tree then Sel_Tree path else Sel_Entry path)" "wf_path path"
    "print_selector sel = lit ''::'' @ print_path path @ tail"
    using Cons.prems(2) by (cases sel; simp add: path_def tree_def tail_def)+
  define q where "q = (if sels = [] then [] else COMMA # join_with [COMMA] (map print_selector sels))
    @ RBRACKET # r"
  have join: "join_with [COMMA] (map print_selector (sel # sels)) @ RBRACKET # r
      = print_selector sel @ q"
    by (cases sels) (simp_all add: q_def)
  have del: "delimited q" by (auto simp: q_def delimited_def split: list.splits)
  have path: "parse_path SelectorPath (p\<lparr>rest := print_path path @ tail @ q\<rparr>)
      = Inr ((path, tree), p\<lparr>rest := q\<rparr>)"
    using sel(2) del by (intro parse_path_print) (auto simp: tail_def)
  have skip: "skip_space (p\<lparr>rest := q\<rparr>) = (False, p\<lparr>rest := q\<rparr>)"
    using del by (intro skip_space_none) simp
  show ?case
  proof (cases sels)
    case Nil
    then show ?thesis
      using path skip sel unfolding fuel join by (simp add: eat_def q_def)
  next
    case (Cons sel' sels')
    define q' where "q' = join_with [COMMA] (map print_selector sels) @ RBRACKET # r"
    have q: "q = COMMA # q'" using Cons by (simp add: q_def q'_def)
    have "\<exists>s. q' = COLON # s"
      using Cons by (cases sel'; cases sels') (auto simp: q'_def)
    then have skip': "skip_space (p\<lparr>rest := q'\<rparr>) = (False, p\<lparr>rest := q'\<rparr>)"
      by (intro skip_space_none) (auto simp: delimited_def)
    have "parse_exclude_loop n (acc @ [sel]) (p\<lparr>rest := q'\<rparr>)
        = Inr (Exclude ((acc @ [sel]) @ sels), p\<lparr>rest := r\<rparr>)"
      unfolding q'_def using Cons Cons.prems fuel by (intro Cons.IH) auto
    then show ?thesis
      using path skip skip' sel unfolding fuel join q by (simp add: eat_def)
  qed
qed simp

lemma chain_loop_print:
  assumes "ops \<noteq> []" and "closing r"
    and op: "\<And>f r'. f \<in> set ops \<Longrightarrow> delimited r' \<Longrightarrow>
      ev_op (p\<lparr>rest := print_filter f @ r'\<rparr>) f (p\<lparr>rest := r'\<rparr>)"
    and colon: "\<And>f. f \<in> set ops \<Longrightarrow> \<exists>s. print_filter f = COLON # s"
  shows "ev_chain_loop acc (p\<lparr>rest := concat (map print_filter ops) @ r\<rparr>) (acc @ ops) (p\<lparr>rest := r\<rparr>)"
  using assms
proof (induction ops arbitrary: acc)
  case (Cons f ops)
  obtain s where s: "print_filter f = COLON # s" using Cons.prems(4) by auto
  show ?case
  proof (cases ops)
    case Nil
    have "ev_op (p\<lparr>rest := print_filter f @ r\<rparr>) f (p\<lparr>rest := r\<rparr>)"
      using Cons.prems(2,3) by (simp add: closing_delimited)
    then show ?thesis
      using Nil s Cons.prems(2) ev_chain_loop_last [of _ f "p\<lparr>rest := r\<rparr>" acc]
      by (auto simp: peek_def closing_def delimited_def split: list.splits)
  next
    case (Cons g ops')
    define q where "q = concat (map print_filter ops) @ r"
    obtain s' where s': "print_filter g = COLON # s'"
      using Cons Cons.prems(4) by fastforce
    then have q: "delimited q" "peek (p\<lparr>rest := q\<rparr>) = Some COLON"
      using Cons by (auto simp: q_def delimited_def peek_def)
    have "ev_chain_loop (acc @ [f]) (p\<lparr>rest := q\<rparr>) ((acc @ [f]) @ ops) (p\<lparr>rest := r\<rparr>)"
      unfolding q_def using Cons Cons.prems by (intro Cons.IH) auto
    moreover have "ev_op (p\<lparr>rest := print_filter f @ q\<rparr>) f (p\<lparr>rest := q\<rparr>)"
      using Cons.prems(3) q(1) by simp
    ultimately show ?thesis
      using ev_chain_loop_next [of "p\<lparr>rest := print_filter f @ q\<rparr>" f "p\<lparr>rest := q\<rparr>" acc] q(2) s
      by (simp add: peek_def q_def)
  qed
qed simp

lemma compose_loop_print:
  assumes "ms \<noteq> []"
    and chain: "\<And>f r'. f \<in> set ms \<Longrightarrow> closing r' \<Longrightarrow>
      ev_chain (p\<lparr>rest := print_filter f @ r'\<rparr>) f (p\<lparr>rest := r'\<rparr>)"
    and colon: "\<And>f. f \<in> set ms \<Longrightarrow> \<exists>s. print_filter f = COLON # s"
  shows "ev_compose_loop acc (p\<lparr>rest := join_with [COMMA] (map print_filter ms) @ RBRACKET # r\<rparr>)
    (acc @ ms) (p\<lparr>rest := r\<rparr>)"
  using assms
proof (induction ms arbitrary: acc)
  case (Cons f ms)
  show ?case
  proof (cases ms)
    case Nil
    have "ev_chain (p\<lparr>rest := print_filter f @ RBRACKET # r\<rparr>) f (p\<lparr>rest := RBRACKET # r\<rparr>)"
      using Cons.prems(2) by (simp add: closing_def)
    from ev_compose_loop_last [OF this, of r acc] show ?thesis using Nil by simp
  next
    case (Cons g ms')
    define q where "q = join_with [COMMA] (map print_filter ms) @ RBRACKET # r"
    obtain s' where s': "q = COLON # s'"
      using Cons Cons.prems(3) [of g] by (cases ms') (auto simp: q_def)
    have "ev_chain (p\<lparr>rest := print_filter f @ COMMA # q\<rparr>) f (p\<lparr>rest := COMMA # q\<rparr>)"
      using Cons.prems(2) by (simp add: closing_def)
    moreover have "ev_compose_loop (acc @ [f]) (p\<lparr>rest := q\<rparr>) ((acc @ [f]) @ ms) (p\<lparr>rest := r\<rparr>)"
      unfolding q_def using Cons Cons.prems by (intro Cons.IH) auto
    ultimately show ?thesis
      using ev_compose_loop_next [of "p\<lparr>rest := print_filter f @ COMMA # q\<rparr>" f
          "p\<lparr>rest := COMMA # q\<rparr>" s' acc "acc @ f # ms" "p\<lparr>rest := r\<rparr>"] s' Cons
      by (simp add: q_def)
  qed
qed simp

lemma ev_opI: "(\<And>fuel. k \<le> fuel \<Longrightarrow> parse_op (Suc fuel) p = Inr (f, q)) \<Longrightarrow> ev_op p f q"
  unfolding ev_op_def by (rule exI [of _ "Suc k"], rule all_ge_Suc)

lemma ev_op_path:
  assumes "wf_path path" and "delimited r"
  shows "ev_op (p\<lparr>rest := print_filter (Subdir path) @ r\<rparr>) (Subdir path) (p\<lparr>rest := r\<rparr>)"
    and "ev_op (p\<lparr>rest := print_filter (Prefix path) @ r\<rparr>) (Prefix path) (p\<lparr>rest := r\<rparr>)"
proof -
  have "parse_path Operator (p\<lparr>rest := print_path path @ r\<rparr>) = Inr ((path, False), p\<lparr>rest := r\<rparr>)"
    using parse_path_print [OF assms, of False "[]" Operator p] by simp
  then show "ev_op (p\<lparr>rest := print_filter (Subdir path) @ r\<rparr>) (Subdir path) (p\<lparr>rest := r\<rparr>)"
    and "ev_op (p\<lparr>rest := print_filter (Prefix path) @ r\<rparr>) (Prefix path) (p\<lparr>rest := r\<rparr>)"
    by (auto intro!: ev_opI simp: eat_def)
qed

lemma ev_op_exclude:
  assumes "printable (Exclude sels)"
  shows "ev_op (p\<lparr>rest := print_filter (Exclude sels) @ r\<rparr>) (Exclude sels) (p\<lparr>rest := r\<rparr>)"
proof (rule ev_opI)
  fix fuel assume "Suc (length sels) \<le> fuel"
  moreover let ?q = "p\<lparr>rest := join_with [COMMA] (map print_selector sels) @ RBRACKET # r\<rparr>"
  have "\<exists>s. rest ?q = COLON # s"
    using assms by (cases sels; cases "hd sels"; cases "tl sels") auto
  then have "skip_space ?q = (False, ?q)"
    by (intro skip_space_none) (auto simp: delimited_def)
  ultimately show "parse_op (Suc fuel) (p\<lparr>rest := print_filter (Exclude sels) @ r\<rparr>)
      = Inr (Exclude sels, p\<lparr>rest := r\<rparr>)"
    using assms parse_exclude_loop_print [of sels fuel "[]" r p]
    by (simp add: eat_def parse_exclude_def)
qed

lemma ev_op_chain:
  assumes "ev_op (p\<lparr>rest := print_filter f @ r\<rparr>) f (p\<lparr>rest := r\<rparr>)" and "printable f" and "closing r"
  shows "ev_chain (p\<lparr>rest := print_filter f @ r\<rparr>) f (p\<lparr>rest := r\<rparr>)"
proof -
  obtain s where "print_filter f = COLON # s" using print_filter_colon [OF assms(2)] by blast
  then have "ev_chain_loop [] (p\<lparr>rest := print_filter f @ r\<rparr>) ([] @ [f]) (p\<lparr>rest := r\<rparr>)"
    using assms
    by (intro ev_chain_loop_last)
      (auto simp: peek_def closing_def delimited_def split: list.splits)
  from ev_chain_loop_chain [OF this [simplified]] show ?thesis by simp
qed

lemma ev_print:
  "printable f \<Longrightarrow> nesting p + nesting_depth f \<le> max_nesting p \<Longrightarrow>
   (\<not> is_chain f \<longrightarrow> (\<forall>r. delimited r \<longrightarrow> ev_op (p\<lparr>rest := print_filter f @ r\<rparr>) f (p\<lparr>rest := r\<rparr>)))
   \<and> (\<forall>r. closing r \<longrightarrow> ev_chain (p\<lparr>rest := print_filter f @ r\<rparr>) f (p\<lparr>rest := r\<rparr>))"
proof (induction f arbitrary: p)
  case (Subdir path)
  then show ?case
    using ev_op_path(1) [of path _ p] ev_op_chain [of "Subdir path" _ p] closing_delimited by auto
next
  case (Prefix path)
  then show ?case
    using ev_op_path(2) [of path _ p] ev_op_chain [of "Prefix path" _ p] closing_delimited by auto
next
  case (Exclude sels)
  then show ?case
    using ev_op_exclude [of sels _ p] ev_op_chain [of "Exclude sels" _ p] by simp
next
  case (Compose ms)
  have depth: "nesting p < max_nesting p" "\<And>f. f \<in> set ms \<Longrightarrow> Suc (nesting p) + nesting_depth f \<le> max_nesting p"
    using Compose.prems(2) by (auto simp: Suc_add_Max_le)
  have ms: "ms \<noteq> []" "\<And>f. f \<in> set ms \<Longrightarrow> printable f"
    using Compose.prems(1) by (auto simp: list_all_iff)
  have op: "ev_op (p\<lparr>rest := print_filter (Compose ms) @ r\<rparr>) (Compose ms) (p\<lparr>rest := r\<rparr>)" for r
  proof -
    define q where "q = join_with [COMMA] (map print_filter ms) @ RBRACKET # r"
    have "ev_compose_loop [] ((p\<lparr>nesting := Suc (nesting p)\<rparr>)\<lparr>rest := q\<rparr>) ([] @ ms)
        ((p\<lparr>nesting := Suc (nesting p)\<rparr>)\<lparr>rest := r\<rparr>)"
      unfolding q_def
    proof (rule compose_loop_print)
      fix f r' assume f: "f \<in> set ms" and "closing r'"
      then show "ev_chain ((p\<lparr>nesting := Suc (nesting p)\<rparr>)\<lparr>rest := print_filter f @ r'\<rparr>) f
          ((p\<lparr>nesting := Suc (nesting p)\<rparr>)\<lparr>rest := r'\<rparr>)"
        using Compose.IH [OF f, of "p\<lparr>nesting := Suc (nesting p)\<rparr>"] ms depth by simp
    qed (use ms print_filter_colon in auto)
    moreover obtain s where "q = COLON # s"
      using ms print_filter_colon by (cases ms; cases "tl ms") (fastforce simp: q_def)+
    ultimately show ?thesis
      using ev_op_compose [of "p\<lparr>rest := print_filter (Compose ms) @ r\<rparr>" s ms r] depth(1)
      by (simp add: q_def rest_nesting_swap)
  qed
  then show ?case
    using ev_op_chain [of "Compose ms" _ p] Compose.prems(1) by simp
next
  case (Chain ops)
  have depth: "\<And>f. f \<in> set ops \<Longrightarrow> nesting p + nesting_depth f \<le> max_nesting p"
    using Chain.prems(2) by (auto simp: add_Max_le)
  have ops: "2 \<le> length ops" "\<And>f. f \<in> set ops \<Longrightarrow> printable f \<and> \<not> is_chain f"
    using Chain.prems(1) by (auto simp: list_all_iff)
  have "ev_chain (p\<lparr>rest := concat (map print_filter ops) @ r\<rparr>) (Chain ops) (p\<lparr>rest := r\<rparr>)"
    if "closing r" for r
  proof -
    have "ev_chain_loop [] (p\<lparr>rest := concat (map print_filter ops) @ r\<rparr>) ([] @ ops) (p\<lparr>rest := r\<rparr>)"
      by (rule chain_loop_print) (use that ops depth Chain.IH print_filter_colon in auto)
    from ev_chain_loop_chain [OF this] show ?thesis
      using ops(1) by (auto split: list.splits)
  qed
  then show ?case by simp
next
  case Nop
  have "ev_op (p\<lparr>rest := print_filter Nop @ r\<rparr>) Nop (p\<lparr>rest := r\<rparr>)" for r
    by (auto intro!: ev_opI simp: eat_def)
  then show ?case using ev_op_chain [of Nop _ p] by simp
next
  case Empty
  have "ev_op (p\<lparr>rest := print_filter Empty @ r\<rparr>) Empty (p\<lparr>rest := r\<rparr>)" for r
    by (auto intro!: ev_opI simp: eat_def)
  then show ?case using ev_op_chain [of Empty _ p] by simp
qed

lemma parse_print_roundtrip:
  assumes "printable f" and "nesting_depth f \<le> limit"
  shows "parse_with_max (print_filter f) limit = Inr f"
proof -
  let ?p = "\<lparr>rest = [], nesting = 0, max_nesting = limit\<rparr>"
  have "ev_chain (?p\<lparr>rest := print_filter f @ []\<rparr>) f (?p\<lparr>rest := []\<rparr>)"
    using ev_print [OF assms(1), of ?p, THEN conjunct2, rule_format, of "[]"] assms(2)
    by (simp add: closing_def)
  then obtain k where "parse_chain k \<lparr>rest = print_filter f, nesting = 0, max_nesting = limit\<rparr> = Inr (f, ?p)"
    by (auto simp: ev_chain_def)
  moreover have "dropWhile is_space (print_filter f) = print_filter f"
    using print_filter_colon [OF assms(1)] by (auto simp: is_space_def)
  ultimately show ?thesis by (rule parse_with_maxI)
qed

lemma print_filter_inj:
  assumes "printable f" and "printable g" and "print_filter f = print_filter g"
  shows "f = g"
proof -
  let ?n = "max (nesting_depth f) (nesting_depth g)"
  have "Inr f = parse_with_max (print_filter f) ?n"
    using assms(1) by (intro parse_print_roundtrip [symmetric]) simp_all
  also have "\<dots> = parse_with_max (print_filter g) ?n"
    by (simp only: assms(3))
  also have "\<dots> = Inr g"
    using assms(2) by (intro parse_print_roundtrip) simp_all
  finally show ?thesis by simp
qed

end
