(* ===== verification/Filter_Canonical.thy ===== *)
theory Filter_Canonical
  imports Filter_Roundtrip
begin

text \<open>
  Canonicalization of filters (\<open>src/ceres/view/filter/canonical.rs\<close>) and the registration and
  recheck entry points (\<open>mod.rs\<close>). \<open>None\<close> is a failing \<open>assert!\<close> of \<open>ViewPath::new\<close>.
\<close>

section \<open>Chain operations\<close>

datatype ChainOp = OpSubdir "rstr list" | OpPrefix "rstr list" | OpOther Filter

fun chain_op_from :: "Filter \<Rightarrow> ChainOp" where
  "chain_op_from (Subdir path) = OpSubdir (segments path)"
| "chain_op_from (Prefix path) = OpPrefix (segments path)"
| "chain_op_from other = OpOther other"

fun into_filter :: "ChainOp \<Rightarrow> Filter option" where
  "into_filter (OpSubdir segs) = map_option Subdir (ViewPath_new segs)"
| "into_filter (OpPrefix segs) = map_option Prefix (ViewPath_new segs)"
| "into_filter (OpOther f) = Some f"

text \<open>The loop of \<open>push_op\<close> pops the last element of \<open>ops\<close>; here the stack is the reversed
  vector, its head the last element. The Boolean is the function's result; after \<open>False\<close> the
  caller discards the stack.\<close>

definition common_len :: "'a list \<Rightarrow> 'a list \<Rightarrow> nat" where
  "common_len p q = length (takeWhile (\<lambda>(a, b). a = b) (zip p q))"

fun push_loop :: "ChainOp list \<Rightarrow> ChainOp \<Rightarrow> bool \<times> ChainOp list" where
  "push_loop [] current = (True, [current])"
| "push_loop (previous # stack) current =
     (case (previous, current) of
        (OpSubdir a, OpSubdir b) \<Rightarrow> push_loop stack (OpSubdir (a @ b))
      | (OpPrefix a, OpPrefix b) \<Rightarrow> push_loop stack (OpPrefix (b @ a))
      | (OpPrefix p, OpSubdir q) \<Rightarrow>
          let common = common_len p q in
          if common < min (length p) (length q) then (False, stack)
          else let p' = drop common p; q' = drop common q in
            if p' = [] \<and> q' = [] then (True, stack)
            else if p' = [] then push_loop stack (OpSubdir q')
            else push_loop stack (OpPrefix p')
      | (a, b) \<Rightarrow> (True, b # a # stack))"

definition push_op :: "ChainOp list \<Rightarrow> ChainOp \<Rightarrow> bool \<times> ChainOp list" where
  "push_op ops current = (let (ok, stack) = push_loop (rev ops) current in (ok, rev stack))"

fun push_ops :: "ChainOp list \<Rightarrow> Filter list \<Rightarrow> ChainOp list option" where
  "push_ops ops [] = Some ops"
| "push_ops ops (op # nested) =
     (let (ok, ops') = push_op ops (chain_op_from op) in if ok then push_ops ops' nested else None)"

fun into_filters :: "ChainOp list \<Rightarrow> Filter list option" where
  "into_filters [] = Some []"
| "into_filters (op # ops) =
     (case into_filter op of None \<Rightarrow> None
      | Some f \<Rightarrow> map_option ((#) f) (into_filters ops))"

definition finish_chain :: "ChainOp list \<Rightarrow> Filter option" where
  "finish_chain ops = (case ops of [] \<Rightarrow> Some Nop | [op] \<Rightarrow> into_filter op
     | _ \<Rightarrow> map_option Chain (into_filters ops))"

section \<open>Canonicalization\<close>

fun compose_extend :: "Filter \<Rightarrow> Filter list" where
  "compose_extend Empty = []"
| "compose_extend (Compose nested) = nested"
| "compose_extend other = [other]"

definition finish_compose :: "Filter list \<Rightarrow> Filter" where
  "finish_compose members =
     (case sort_key print_filter members of [] \<Rightarrow> Empty | [f] \<Rightarrow> f | ms \<Rightarrow> Compose ms)"

fun canonicalize :: "Filter \<Rightarrow> Filter option"
  and compose_members :: "Filter list \<Rightarrow> Filter list option"
  and canonicalize_chain :: "ChainOp list \<Rightarrow> Filter list \<Rightarrow> Filter option"
where
  "canonicalize (Subdir path) = Some (Subdir path)"
| "canonicalize (Prefix path) = Some (Prefix path)"
| "canonicalize (Exclude selectors) =
     (let s = remdups_adj (sort_key print_selector selectors) in
      Some (if s = [] then Nop else Exclude s))"
| "canonicalize (Compose children) = map_option finish_compose (compose_members children)"
| "canonicalize (Chain children) = canonicalize_chain [] children"
| "canonicalize Nop = Some Nop"
| "canonicalize Empty = Some Empty"
| "compose_members [] = Some []"
| "compose_members (child # children) =
     (case canonicalize child of None \<Rightarrow> None
      | Some f \<Rightarrow> map_option ((@) (compose_extend f)) (compose_members children))"
| "canonicalize_chain ops [] = finish_chain ops"
| "canonicalize_chain ops (child # children) =
     (case canonicalize child of None \<Rightarrow> None
      | Some Empty \<Rightarrow> Some Empty
      | Some Nop \<Rightarrow> canonicalize_chain ops children
      | Some (Chain nested) \<Rightarrow>
          (case push_ops ops nested of None \<Rightarrow> Some Empty
           | Some ops' \<Rightarrow> canonicalize_chain ops' children)
      | Some other \<Rightarrow>
          (let (ok, ops') = push_op ops (chain_op_from other) in
           if ok then canonicalize_chain ops' children else Some Empty))"

section \<open>Registration and recheck (\<open>filter/mod.rs\<close>)\<close>

text \<open>\<open>sha\<close> is SHA-256 followed by hex encoding, from the \<open>sha2\<close> and \<open>hex\<close> crates.\<close>

definition filter_id :: "(rstr \<Rightarrow> rstr) \<Rightarrow> rstr \<Rightarrow> rstr" where
  "filter_id sha canonical = sha (lit ''mega-view-filter/v1'' @ [LF] @ canonical)"

datatype reg_fail = RegErr FilterParseError | RegPanic

definition to_reg_fail :: "parse_fail \<Rightarrow> reg_fail" where
  "to_reg_fail e = (case e of ParseErr err \<Rightarrow> RegErr err | _ \<Rightarrow> RegPanic)"

definition parse_for_registration :: "(rstr \<Rightarrow> rstr) \<Rightarrow> rstr \<Rightarrow> reg_fail + CanonicalFilter" where
  "parse_for_registration sha spec =
     (if byte_len spec > REGISTER_MAX_SPEC_BYTES then Err (RegErr SpecTooLarge)
      else bindR (map_err to_reg_fail (parse_with_max spec REGISTER_MAX_NESTING)) (\<lambda>parsed.
        case canonicalize parsed of None \<Rightarrow> Err RegPanic
        | Some f \<Rightarrow>
          let text = print_filter f in
          Ok \<lparr>cf_filter = f, canonical_text = text, cf_filter_id = filter_id sha text\<rparr>))"

datatype recheck_fail = DefinitionCorrupt RecheckFailure | RecheckPanic

definition recheck_definition ::
    "(rstr \<Rightarrow> rstr) \<Rightarrow> rstr \<Rightarrow> rstr \<Rightarrow> recheck_fail + CanonicalFilter" where
  "recheck_definition sha canonical_spec expected_filter_id =
     (case parse canonical_spec of
        Inl (ParseErr _) \<Rightarrow> Err (DefinitionCorrupt RoundTrip)
      | Inl _ \<Rightarrow> Err RecheckPanic
      | Inr parsed \<Rightarrow>
        (case canonicalize parsed of None \<Rightarrow> Err RecheckPanic
         | Some f \<Rightarrow>
          let text = print_filter f in
          if text \<noteq> canonical_spec then Err (DefinitionCorrupt RoundTrip)
          else let actual_id = filter_id sha canonical_spec in
            if actual_id \<noteq> expected_filter_id then Err (DefinitionCorrupt FilterIdMismatch)
            else Ok \<lparr>cf_filter = f, canonical_text = text, cf_filter_id = actual_id\<rparr>))"


section \<open>Canonical form\<close>

fun is_compose :: "Filter \<Rightarrow> bool" where
  "is_compose (Compose _) = True"
| "is_compose _ = False"

fun mergeable :: "Filter \<Rightarrow> Filter \<Rightarrow> bool" where
  "mergeable (Subdir _) (Subdir _) = True"
| "mergeable (Prefix _) (Prefix _) = True"
| "mergeable (Prefix _) (Subdir _) = True"
| "mergeable _ _ = False"

definition chain_member :: "Filter \<Rightarrow> bool" where
  "chain_member f \<longleftrightarrow> \<not> is_chain f \<and> f \<noteq> Nop \<and> f \<noteq> Empty"

definition compose_member :: "Filter \<Rightarrow> bool" where
  "compose_member f \<longleftrightarrow> \<not> is_compose f \<and> f \<noteq> Empty"

fun canonical :: "Filter \<Rightarrow> bool" where
  "canonical (Subdir path) = wf_path path"
| "canonical (Prefix path) = wf_path path"
| "canonical (Exclude sels) = (sels \<noteq> [] \<and> list_all wf_selector sels
     \<and> sorted (map print_selector sels) \<and> distinct_adj sels)"
| "canonical (Compose ms) = (2 \<le> length ms \<and> list_all canonical ms \<and> list_all compose_member ms
     \<and> sorted (map print_filter ms))"
| "canonical (Chain ops) = (2 \<le> length ops \<and> list_all canonical ops \<and> list_all chain_member ops
     \<and> successively (\<lambda>f g. \<not> mergeable f g) ops)"
| "canonical Nop = True"
| "canonical Empty = True"

lemma canonical_printable: "canonical f \<Longrightarrow> printable f"
proof (induction f)
  case (Compose ms)
  then show ?case by (cases ms) (auto simp: list_all_iff)
qed (auto simp: list_all_iff chain_member_def)

lemma canonical_wf: "canonical f \<Longrightarrow> wf_filter f"
  by (induction f) (auto simp: list_all_iff)

text \<open>Canonical filters whose nesting is at most \<open>d\<close>.\<close>

definition bounded :: "nat \<Rightarrow> Filter \<Rightarrow> bool" where
  "bounded d f \<longleftrightarrow> canonical f \<and> nesting_depth f \<le> d"

lemma bounded_simps [simp]:
  "bounded d (Subdir path) \<longleftrightarrow> wf_path path"
  "bounded d (Prefix path) \<longleftrightarrow> wf_path path"
  "bounded d (Exclude sels) \<longleftrightarrow> canonical (Exclude sels)"
  "bounded d Nop" "bounded d Empty"
  "bounded d (Chain ops) \<longleftrightarrow> 2 \<le> length ops \<and> list_all (bounded d) ops
     \<and> list_all chain_member ops \<and> successively (\<lambda>f g. \<not> mergeable f g) ops"
  "bounded d (Compose ms) \<longleftrightarrow> 0 < d \<and> 2 \<le> length ms \<and> list_all (bounded (d - 1)) ms
     \<and> list_all compose_member ms \<and> sorted (map print_filter ms)"
  using add_Max_le [of "nesting_depth ` set ops" 0 d] Suc_add_Max_le [of "nesting_depth ` set ms" 0 d]
  by (cases d; auto simp: bounded_def list_all_iff)+

text \<open>The operations on the stack, and the stack as the code keeps it.\<close>

fun op_ok :: "nat \<Rightarrow> ChainOp \<Rightarrow> bool" where
  "op_ok d (OpSubdir segs) = (segs \<noteq> [] \<and> list_all valid_path_segment segs)"
| "op_ok d (OpPrefix segs) = (segs \<noteq> [] \<and> list_all valid_path_segment segs)"
| "op_ok d (OpOther f) = (bounded d f \<and> chain_member f \<and> (\<forall>p. f \<noteq> Subdir p \<and> f \<noteq> Prefix p))"

fun op_mergeable :: "ChainOp \<Rightarrow> ChainOp \<Rightarrow> bool" where
  "op_mergeable (OpSubdir _) (OpSubdir _) = True"
| "op_mergeable (OpPrefix _) (OpPrefix _) = True"
| "op_mergeable (OpPrefix _) (OpSubdir _) = True"
| "op_mergeable _ _ = False"

definition ops_ok :: "nat \<Rightarrow> ChainOp list \<Rightarrow> bool" where
  "ops_ok d ops \<longleftrightarrow> list_all (op_ok d) ops \<and> successively (\<lambda>a b. \<not> op_mergeable a b) ops"

lemma ops_ok_Nil [simp]: "ops_ok d []"
  by (simp add: ops_ok_def)

lemma push_loop_ok:
  "list_all (op_ok d) stack \<Longrightarrow> successively (\<lambda>a b. \<not> op_mergeable b a) stack \<Longrightarrow> op_ok d current
   \<Longrightarrow> push_loop stack current = (True, stack')
   \<Longrightarrow> list_all (op_ok d) stack' \<and> successively (\<lambda>a b. \<not> op_mergeable b a) stack'"
proof (induction stack arbitrary: current stack')
  case (Cons previous stack)
  have tl: "list_all (op_ok d) stack" "successively (\<lambda>a b. \<not> op_mergeable b a) stack"
    using Cons.prems(1,2) by (cases stack; auto)+
  note IH = Cons.IH [OF tl]
  show ?case
  proof (cases previous; cases current)
    fix a b assume "previous = OpSubdir a" "current = OpSubdir b"
    then show ?thesis using IH [of "OpSubdir (a @ b)" stack'] Cons.prems by simp
  next
    fix a b assume "previous = OpPrefix a" "current = OpPrefix b"
    then show ?thesis using IH [of "OpPrefix (b @ a)" stack'] Cons.prems by simp
  next
    fix p q assume pq: "previous = OpPrefix p" "current = OpSubdir q"
    define k where "k = common_len p q"
    have "list_all valid_path_segment (drop k p)" "list_all valid_path_segment (drop k q)"
      using Cons.prems(1,3) pq by (auto simp: list_all_iff dest: in_set_dropD)
    then show ?thesis
      using IH [of "OpPrefix (drop k p)" stack'] IH [of "OpSubdir (drop k q)" stack'] Cons.prems pq tl
      by (auto simp: Let_def simp flip: k_def split: if_splits)
  qed (use Cons.prems in auto)
qed auto

lemma push_op_ok:
  assumes "ops_ok d ops" and "op_ok d current" and "push_op ops current = (True, ops')"
  shows "ops_ok d ops'"
proof -
  obtain stack' where s: "push_loop (rev ops) current = (True, stack')" "ops' = rev stack'"
    using assms(3) by (auto simp: push_op_def Let_def split: prod.splits)
  have "list_all (op_ok d) (rev ops)" "successively (\<lambda>a b. \<not> op_mergeable b a) (rev ops)"
    using assms(1) by (auto simp: ops_ok_def)
  from push_loop_ok [OF this assms(2) s(1)] show ?thesis
    by (simp add: ops_ok_def s(2))
qed

lemma chain_op_from_ok: "bounded d f \<Longrightarrow> chain_member f \<Longrightarrow> op_ok d (chain_op_from f)"
  by (cases f) (auto simp: wf_path_def)

lemma push_ops_ok:
  "ops_ok d ops \<Longrightarrow> list_all (bounded d) fs \<Longrightarrow> list_all chain_member fs \<Longrightarrow> push_ops ops fs = Some ops'
   \<Longrightarrow> ops_ok d ops'"
proof (induction fs arbitrary: ops)
  case (Cons f fs)
  obtain ops1 where "push_op ops (chain_op_from f) = (True, ops1)" "push_ops ops1 fs = Some ops'"
    using Cons.prems(4) by (auto split: prod.splits if_splits)
  moreover have "op_ok d (chain_op_from f)" using Cons.prems by (auto intro: chain_op_from_ok)
  ultimately show ?case using Cons.IH [of ops1] push_op_ok [of d ops _ ops1] Cons.prems by simp
qed simp

lemma into_filter_ok:
  "op_ok d op \<Longrightarrow> \<exists>f. into_filter op = Some f \<and> bounded d f \<and> chain_member f \<and> chain_op_from f = op"
proof (cases op)
  case (OpOther f)
  moreover assume "op_ok d op"
  ultimately show ?thesis by (cases f) auto
qed (auto simp: ViewPath_new_def wf_path_def chain_member_def)

lemma into_filters_ok:
  "list_all (op_ok d) ops \<Longrightarrow>
   \<exists>fs. into_filters ops = Some fs \<and> list_all (bounded d) fs \<and> list_all chain_member fs
     \<and> map chain_op_from fs = ops"
proof (induction ops)
  case (Cons op ops)
  then show ?case using into_filter_ok [of d op] by fastforce
qed simp

lemma mergeable_op: "mergeable f g \<longleftrightarrow> op_mergeable (chain_op_from f) (chain_op_from g)"
  by (cases f; cases g) auto

lemma finish_chain_ok:
  assumes ok: "ops_ok d ops"
  shows "\<exists>g. finish_chain ops = Some g \<and> bounded d g"
proof -
  obtain fs where fs: "into_filters ops = Some fs" "list_all (bounded d) fs" "list_all chain_member fs"
      "map chain_op_from fs = ops"
    using assms into_filters_ok by (auto simp: ops_ok_def)
  then have s: "successively (\<lambda>f g. \<not> mergeable f g) fs" and len: "length fs = length ops"
    using assms by (auto simp: ops_ok_def mergeable_op successively_map)
  show ?thesis
  proof (cases "2 \<le> length ops")
    case True
    then have "finish_chain ops = Some (Chain fs)"
      using fs(1) by (auto simp: finish_chain_def split: list.splits)
    moreover have "bounded d (Chain fs)" using True fs(2,3) s len by simp
    ultimately show ?thesis by blast
  next
    case False
    then consider "ops = []" | op where "ops = [op]" by (cases ops; cases "tl ops") auto
    then show ?thesis
    proof cases
      case (2 op)
      then show ?thesis using into_filter_ok [of d op] ok by (auto simp: finish_chain_def ops_ok_def)
    qed (simp add: finish_chain_def)
  qed
qed

lemma compose_extend_ok:
  "bounded d f \<Longrightarrow> list_all (bounded d) (compose_extend f) \<and> list_all compose_member (compose_extend f)"
proof (cases f)
  case (Compose ms)
  moreover assume "bounded d f"
  moreover have "bounded d g" if "bounded (d - 1) g" for g using that by (auto simp: bounded_def)
  ultimately show ?thesis by (auto simp: list_all_iff)
qed (auto simp: compose_member_def)

lemma compose_members_ok:
  "(\<And>c. c \<in> set cs \<Longrightarrow> \<exists>f. canonicalize c = Some f \<and> bounded d f) \<Longrightarrow>
   \<exists>ms. compose_members cs = Some ms \<and> list_all (bounded d) ms \<and> list_all compose_member ms"
proof (induction cs)
  case (Cons c cs)
  obtain f ms where "canonicalize c = Some f" "bounded d f"
      "compose_members cs = Some ms" "list_all (bounded d) ms" "list_all compose_member ms"
    using Cons by (meson list.set_intros)
  then show ?case using compose_extend_ok [of d f] by simp
qed simp

lemma list_all_sort_key [simp]: "list_all P (sort_key k xs) \<longleftrightarrow> list_all P xs"
  by (simp add: list_all_iff)

lemma finish_compose_ok:
  assumes "list_all (bounded d) ms" and "list_all compose_member ms"
  shows "bounded (Suc d) (finish_compose ms)"
proof -
  define s where "s = sort_key print_filter ms"
  have s: "list_all (bounded d) s" "list_all compose_member s" "sorted (map print_filter s)"
    using assms by (simp_all add: s_def)
  have mono: "bounded (Suc d) f" if "bounded d f" for f using that by (simp add: bounded_def)
  show ?thesis
    unfolding finish_compose_def s_def [symmetric] using s mono by (auto split: list.splits)
qed

lemma canonicalize_chain_ok:
  "(\<And>c. c \<in> set cs \<Longrightarrow> \<exists>f. canonicalize c = Some f \<and> bounded d f) \<Longrightarrow> ops_ok d ops \<Longrightarrow>
   \<exists>g. canonicalize_chain ops cs = Some g \<and> bounded d g"
proof (induction cs arbitrary: ops)
  case Nil
  then show ?case by (simp add: finish_chain_ok)
next
  case (Cons c cs)
  obtain f where f: "canonicalize c = Some f" "bounded d f"
    using Cons.prems(1) by (meson list.set_intros(1))
  have IH: "\<exists>g. canonicalize_chain ops' cs = Some g \<and> bounded d g" if "ops_ok d ops'" for ops'
    using Cons.IH [OF _ that] Cons.prems(1) by (meson list.set_intros(2))
  have push: "\<exists>g. (let (ok, ops') = push_op ops (chain_op_from f) in
      if ok then canonicalize_chain ops' cs else Some Empty) = Some g \<and> bounded d g"
    if "chain_member f"
  proof (cases "push_op ops (chain_op_from f)")
    case (Pair ok ops')
    then show ?thesis
      using IH [of ops'] push_op_ok [OF Cons.prems(2) chain_op_from_ok [OF f(2) that]]
      by (cases ok) auto
  qed
  show ?case
  proof (cases f)
    case (Chain nested)
    have "ops_ok d ops'" if "push_ops ops nested = Some ops'" for ops'
      using push_ops_ok [OF Cons.prems(2) _ _ that] f(2) Chain by simp
    then show ?thesis using Chain f IH by (auto split: option.splits)
  next
    case Nop
    then show ?thesis using f IH Cons.prems(2) by simp
  qed (use f push in \<open>auto simp: chain_member_def\<close>)
qed

lemma sorted_map_remdups_adj: "sorted (map k xs) \<Longrightarrow> sorted (map k (remdups_adj xs))"
  by (induction xs rule: remdups_adj.induct) auto

lemma canonicalize_exclude:
  assumes "list_all wf_selector sels"
  shows "\<exists>g. canonicalize (Exclude sels) = Some g \<and> bounded d g"
proof -
  define s where "s = remdups_adj (sort_key print_selector sels)"
  have "sorted (map print_selector s)"
    unfolding s_def by (rule sorted_map_remdups_adj) simp
  moreover have "list_all wf_selector s" "distinct_adj s"
    using assms by (auto simp: s_def list_all_iff distinct_adj_remdups_adj)
  ultimately show ?thesis by (simp flip: s_def)
qed

lemma canonicalize_ok:
  "wf_filter f \<Longrightarrow> nesting_depth f \<le> d \<Longrightarrow> \<exists>g. canonicalize f = Some g \<and> bounded d g"
proof (induction f arbitrary: d)
  case (Exclude sels)
  then show ?case using canonicalize_exclude [of sels d] by simp
next
  case (Compose cs)
  then obtain d' where d: "d = Suc d'" and le: "\<forall>c\<in>set cs. nesting_depth c \<le> d'"
    using Suc_add_Max_le [of "nesting_depth ` set cs" 0 d] by (cases d) auto
  have "\<exists>ms. compose_members cs = Some ms \<and> list_all (bounded d') ms \<and> list_all compose_member ms"
    using Compose le by (intro compose_members_ok) (auto simp: list_all_iff)
  then show ?case using finish_compose_ok [of d'] d by auto
next
  case (Chain cs)
  then have le: "\<forall>c\<in>set cs. nesting_depth c \<le> d"
    using add_Max_le [of "nesting_depth ` set cs" 0 d] by auto
  have "\<exists>g. canonicalize_chain [] cs = Some g \<and> bounded d g"
    using Chain le by (intro canonicalize_chain_ok) (auto simp: list_all_iff)
  then show ?case by simp
qed simp_all

section \<open>Canonical filters are fixed points\<close>

lemma push_op_append:
  "successively (\<lambda>a b. \<not> op_mergeable a b) (ops @ [op]) \<Longrightarrow> push_op ops op = (True, ops @ [op])"
proof (cases ops rule: rev_cases)
  case (snoc ops' o')
  assume "successively (\<lambda>a b. \<not> op_mergeable a b) (ops @ [op])"
  then have "\<not> op_mergeable o' op" using snoc by (simp add: successively_append_iff)
  then show ?thesis using snoc by (cases o'; cases op) (auto simp: push_op_def)
qed (simp add: push_op_def)

lemma canonicalize_chain_fixed:
  "(\<And>c. c \<in> set cs \<Longrightarrow> canonicalize c = Some c) \<Longrightarrow> list_all chain_member cs \<Longrightarrow>
   successively (\<lambda>a b. \<not> op_mergeable a b) (ops @ map chain_op_from cs) \<Longrightarrow>
   canonicalize_chain ops cs = finish_chain (ops @ map chain_op_from cs)"
proof (induction cs arbitrary: ops)
  case (Cons c cs)
  have "successively (\<lambda>a b. \<not> op_mergeable a b) ((ops @ [chain_op_from c]) @ map chain_op_from cs)"
    using Cons.prems(3) by simp
  then have "push_op ops (chain_op_from c) = (True, ops @ [chain_op_from c])"
    by (intro push_op_append) (simp only: successively_append_iff)
  moreover have "canonicalize_chain (ops @ [chain_op_from c]) cs
      = finish_chain ((ops @ [chain_op_from c]) @ map chain_op_from cs)"
    using Cons.prems by (intro Cons.IH) auto
  moreover have "canonicalize c = Some c" "chain_member c" using Cons.prems by auto
  ultimately show ?case by (cases c) (auto simp: chain_member_def)
qed simp

lemma into_filter_from: "canonical f \<Longrightarrow> into_filter (chain_op_from f) = Some f"
  by (cases f) (auto simp: ViewPath_new_Some)

lemma into_filters_from: "list_all canonical fs \<Longrightarrow> into_filters (map chain_op_from fs) = Some fs"
  by (induction fs) (auto simp: into_filter_from)

lemma compose_members_fixed:
  "(\<And>c. c \<in> set cs \<Longrightarrow> canonicalize c = Some c) \<Longrightarrow> list_all compose_member cs \<Longrightarrow>
   compose_members cs = Some cs"
proof (induction cs)
  case (Cons c cs)
  then have "compose_members cs = Some cs" "canonicalize c = Some c" "compose_member c" by auto
  then show ?case by (cases c) (auto simp: compose_member_def)
qed simp

lemma list_cases_2: "2 \<le> length xs \<Longrightarrow> \<exists>x y ys. xs = x # y # ys"
  by (cases xs; cases "tl xs") auto

lemma canonicalize_fixed: "canonical f \<Longrightarrow> canonicalize f = Some f"
proof (induction f)
  case (Exclude sels)
  then show ?case by (simp add: sort_key_id_if_sorted distinct_adj_altdef [THEN iffD1])
next
  case (Compose ms)
  then have "compose_members ms = Some ms"
    by (intro compose_members_fixed) (auto simp: list_all_iff)
  with Compose show ?case
    using list_cases_2 [of ms] by (auto simp: finish_compose_def sort_key_id_if_sorted)
next
  case (Chain ops)
  then have "canonicalize_chain [] ops = finish_chain (map chain_op_from ops)"
    using canonicalize_chain_fixed [of ops "[]"]
    by (auto simp: list_all_iff successively_map mergeable_op)
  with Chain show ?case
    using list_cases_2 [of ops] into_filters_from [of ops] by (auto simp: finish_chain_def)
qed simp_all

section \<open>Registration and recheck agree\<close>

text \<open>What a successful registration or recheck returns.\<close>

definition canonical_record :: "(rstr \<Rightarrow> rstr) \<Rightarrow> Filter \<Rightarrow> CanonicalFilter" where
  "canonical_record sha f =
     \<lparr>cf_filter = f, canonical_text = print_filter f, cf_filter_id = filter_id sha (print_filter f)\<rparr>"

lemma parse_for_registration_Inr:
  assumes "parse_for_registration sha spec = Inr c"
  shows "\<exists>f. c = canonical_record sha f \<and> bounded REGISTER_MAX_NESTING f"
proof -
  obtain parsed where parsed: "parse_with_max spec REGISTER_MAX_NESTING = Inr parsed"
    and c: "(case canonicalize parsed of None \<Rightarrow> Inl RegPanic
        | Some f \<Rightarrow> Inr (canonical_record sha f)) = Inr c"
    using assms
    by (auto simp: parse_for_registration_def bindR_eq_Inr map_err_eq_Inr canonical_record_def Let_def
        split: if_splits option.splits)
  have "wf_filter parsed" "nesting_depth parsed \<le> REGISTER_MAX_NESTING"
    using parse_with_max_ok [of REGISTER_MAX_NESTING spec] parsed by simp_all
  from canonicalize_ok [OF this] c show ?thesis by auto
qed

lemma parse_for_registration_total: "parse_for_registration sha spec \<noteq> Inl RegPanic"
proof
  assume panic: "parse_for_registration sha spec = Inl RegPanic"
  have p: "case parse_with_max spec REGISTER_MAX_NESTING of
     Inl e \<Rightarrow> e \<noteq> PathAssert \<and> e \<noteq> OutOfFuel
   | Inr f \<Rightarrow> wf_filter f \<and> nesting_depth f \<le> REGISTER_MAX_NESTING"
    by (rule parse_with_max_ok)
  show False
  proof (cases "parse_with_max spec REGISTER_MAX_NESTING")
    case (Inl e)
    with panic p show False
      by (cases e) (auto simp: parse_for_registration_def to_reg_fail_def split: if_splits)
  next
    case (Inr parsed)
    with p obtain g where "canonicalize parsed = Some g"
      using canonicalize_ok [of parsed REGISTER_MAX_NESTING] by auto
    with panic Inr show False
      by (auto simp: parse_for_registration_def Let_def split: if_splits)
  qed
qed

lemma recheck_canonical:
  assumes "bounded PARSE_MAX_NESTING f"
  shows "recheck_definition sha (print_filter f) (filter_id sha (print_filter f)) = Inr (canonical_record sha f)"
proof -
  have "parse (print_filter f) = Inr f"
    using assms unfolding parse_def
    by (intro parse_print_roundtrip) (simp_all add: bounded_def canonical_printable)
  moreover have "canonicalize f = Some f"
    using assms by (simp add: bounded_def canonicalize_fixed)
  ultimately show ?thesis
    by (simp add: recheck_definition_def canonical_record_def Let_def)
qed

lemma bounded_mono: "bounded d f \<Longrightarrow> d \<le> d' \<Longrightarrow> bounded d' f"
  by (auto simp: bounded_def)

lemma canonical_record_fields [simp]:
  "cf_filter (canonical_record sha f) = f"
  "canonical_text (canonical_record sha f) = print_filter f"
  "cf_filter_id (canonical_record sha f) = filter_id sha (print_filter f)"
  by (simp_all add: canonical_record_def)

lemma recheck_registered:
  assumes "parse_for_registration sha spec = Inr c"
  shows "recheck_definition sha (canonical_text c) (cf_filter_id c) = Inr c"
proof -
  obtain f where "c = canonical_record sha f" "bounded REGISTER_MAX_NESTING f"
    using parse_for_registration_Inr [OF assms] by blast
  moreover from this have "bounded PARSE_MAX_NESTING f"
    by (auto intro: bounded_mono simp: REGISTER_MAX_NESTING_def PARSE_MAX_NESTING_def)
  ultimately show ?thesis by (simp add: recheck_canonical)
qed

lemma recheck_sound:
  assumes "recheck_definition sha stored i = Inr c"
  shows "\<exists>f. c = canonical_record sha f \<and> canonical f \<and> stored = print_filter f
    \<and> i = filter_id sha stored"
proof -
  obtain parsed f where p: "parse stored = Inr parsed" and f: "canonicalize parsed = Some f"
    and eq: "print_filter f = stored" "filter_id sha stored = i" "c = canonical_record sha f"
    using assms
    by (auto simp: recheck_definition_def Let_def canonical_record_def
        split: sum.splits option.splits if_splits parse_fail.splits)
  have "wf_filter parsed" "nesting_depth parsed \<le> PARSE_MAX_NESTING"
    using parse_with_max_ok [of PARSE_MAX_NESTING stored] p by (simp_all add: parse_def)
  from canonicalize_ok [OF this] f eq show ?thesis by (auto simp: bounded_def)
qed

lemma recheck_total: "recheck_definition sha stored i \<noteq> Inl RecheckPanic"
proof
  assume panic: "recheck_definition sha stored i = Inl RecheckPanic"
  have p: "case parse stored of Inl e \<Rightarrow> e \<noteq> PathAssert \<and> e \<noteq> OutOfFuel
   | Inr f \<Rightarrow> wf_filter f \<and> nesting_depth f \<le> PARSE_MAX_NESTING"
    unfolding parse_def by (rule parse_with_max_ok)
  show False
  proof (cases "parse stored")
    case (Inl e)
    with panic p show False by (cases e) (auto simp: recheck_definition_def)
  next
    case (Inr parsed)
    with p obtain g where "canonicalize parsed = Some g"
      using canonicalize_ok [of parsed PARSE_MAX_NESTING] by auto
    with panic Inr show False by (auto simp: recheck_definition_def Let_def split: if_splits)
  qed
qed

end
