(* ===== verification/Filter_Properties.thy ===== *)
theory Filter_Properties
  imports Filter_Canonical
begin

text \<open>
  The properties of the filter language: parser, printer, canonicalizer, registration and recheck.
\<close>

text \<open>C11: whatever registration accepts and stores, the recheck of the stored definition accepts:
  it reparses the canonical text, finds it canonical and finds the same filter id, and returns
  the very definition registration returned.\<close>

theorem registration_recheck_roundtrip:
  assumes "parse_for_registration sha spec = Inr c"
  shows "recheck_definition sha (canonical_text c) (cf_filter_id c) = Inr c"
  using assms by (rule recheck_registered)

theorem registration_recheck_roundtrip_witness:
  "\<exists>c. parse_for_registration id (lit '':/b/c:prefix=x'') = Inr c
     \<and> recheck_definition id (canonical_text c) (cf_filter_id c) = Inr c"
proof -
  have "isl (parse_for_registration id (lit '':/b/c:prefix=x'')) = False" by code_simp
  then obtain c where "parse_for_registration id (lit '':/b/c:prefix=x'') = Inr c"
    by (cases "parse_for_registration id (lit '':/b/c:prefix=x'')") auto
  with registration_recheck_roundtrip [OF this] show ?thesis by blast
qed

text \<open>C20: registration never panics and never runs out of fuel: it returns a filter-language
  error, or a definition whose filter is in canonical form, within the registration nesting
  limit, with the canonical text and the filter id computed from it, of a spec within the size
  limit.\<close>

theorem registration_total:
  "case parse_for_registration sha spec of
     Inl e \<Rightarrow> (\<exists>err. e = RegErr err)
   | Inr c \<Rightarrow> canonical (cf_filter c) \<and> nesting_depth (cf_filter c) \<le> REGISTER_MAX_NESTING
       \<and> canonical_text c = print_filter (cf_filter c)
       \<and> cf_filter_id c = filter_id sha (canonical_text c) \<and> byte_len spec \<le> REGISTER_MAX_SPEC_BYTES"
proof (cases "parse_for_registration sha spec")
  case (Inl e)
  then show ?thesis using parse_for_registration_total [of sha spec] by (cases e) auto
next
  case (Inr c)
  then have "byte_len spec \<le> REGISTER_MAX_SPEC_BYTES"
    by (auto simp: parse_for_registration_def split: if_splits)
  with Inr show ?thesis using parse_for_registration_Inr [OF Inr] by (auto simp: bounded_def)
qed

text \<open>C12: canonicalizing a filter with valid paths never fails the path assertion, returns a
  filter in canonical form that is not nested more deeply, and is idempotent.\<close>

theorem canonicalize_normal_form:
  assumes "wf_filter f"
  shows "\<exists>g. canonicalize f = Some g \<and> canonical g \<and> nesting_depth g \<le> nesting_depth f
           \<and> canonicalize g = Some g"
  using canonicalize_ok [OF assms order_refl] by (auto simp: bounded_def canonicalize_fixed)

theorem canonicalize_normal_form_witness:
  "wf_filter (Chain [Prefix (ViewPath [lit ''a'']), Subdir (ViewPath [lit ''a'', lit ''b'']), Nop])
   \<and> (\<exists>g. canonicalize (Chain [Prefix (ViewPath [lit ''a'']), Subdir (ViewPath [lit ''a'', lit ''b'']), Nop]) = Some g
        \<and> canonical g)"
proof -
  have wf: "wf_filter (Chain [Prefix (ViewPath [lit ''a'']), Subdir (ViewPath [lit ''a'', lit ''b'']), Nop])"
    by code_simp
  from canonicalize_normal_form [OF this] wf show ?thesis by blast
qed





text \<open>C18: the parser is total: on every text and every nesting limit it returns, either a
  filter-language error (never a failed path assertion, never lack of fuel) or a filter whose
  paths are all valid and whose nesting is within the limit.\<close>

theorem parser_total:
  "case parse_with_max spec limit of
     Inl e \<Rightarrow> (\<exists>err. e = ParseErr err)
   | Inr f \<Rightarrow> wf_filter f \<and> nesting_depth f \<le> limit"
  using parse_with_max_ok [of limit spec]
  by (cases "parse_with_max spec limit"; cases "projl (parse_with_max spec limit)") auto

text \<open>C19: parsing is a left inverse of printing on canonical filters within the nesting limit, and
  the printed text of such a filter determines the filter.\<close>

theorem parse_print_canonical:
  assumes "canonical f" and "nesting_depth f \<le> PARSE_MAX_NESTING"
  shows "parse (print_filter f) = Inr f \<and> (\<forall>g. canonical g \<and> print_filter g = print_filter f \<longrightarrow> g = f)"
  using assms parse_print_roundtrip [of f] print_filter_inj [of _ f] canonical_printable
  by (auto simp: parse_def)

theorem parse_print_canonical_witness:
  "parse (print_filter (Chain [Subdir (ViewPath [lit ''a'']), Prefix (ViewPath [lit ''b c''])]))
     = Inr (Chain [Subdir (ViewPath [lit ''a'']), Prefix (ViewPath [lit ''b c''])])"
proof -
  have "canonical (Chain [Subdir (ViewPath [lit ''a'']), Prefix (ViewPath [lit ''b c''])])"
    by code_simp
  from parse_print_canonical [OF this] show ?thesis by (simp add: PARSE_MAX_NESTING_def)
qed

end
