(* ===== verification/Filter_Paths.thy ===== *)
theory Filter_Paths
  imports Filter_Canonical
begin

text \<open>
  Inversion of filters and the source and destination paths they reach
  (\<open>src/ceres/view/filter/semantics.rs\<close>). A path is the list of its segments; the root is \<open>[]\<close>.
  The reference is \<open>pull_set\<close>, the preimage of a set of output paths computed without any
  normalization; a set of paths stands for the paths at or below one of its members.
\<close>

type_synonym path = "rstr list"

section \<open>Inversion\<close>

fun invert :: "Filter \<Rightarrow> Filter option"
  and invert_all :: "Filter list \<Rightarrow> Filter list option"
where
  "invert (Subdir path) = canonicalize (Prefix path)"
| "invert (Prefix path) = canonicalize (Subdir path)"
| "invert (Exclude selectors) = canonicalize (Exclude selectors)"
| "invert (Compose members) =
     (case invert_all members of None \<Rightarrow> None | Some fs \<Rightarrow> canonicalize (Compose fs))"
| "invert (Chain ops) =
     (case invert_all ops of None \<Rightarrow> None | Some fs \<Rightarrow> canonicalize (Chain (rev fs)))"
| "invert Nop = canonicalize Nop"
| "invert Empty = canonicalize Empty"
| "invert_all [] = Some []"
| "invert_all (f # fs) =
     (case invert f of None \<Rightarrow> None | Some g \<Rightarrow> map_option ((#) g) (invert_all fs))"

section \<open>Paths\<close>

definition is_prefix :: "path \<Rightarrow> path \<Rightarrow> bool" where
  "is_prefix ancestor descendant \<longleftrightarrow> length ancestor \<le> length descendant
     \<and> list_all (\<lambda>(left, right). left = right) (zip ancestor descendant)"

definition display_path :: "path \<Rightarrow> rstr" where
  "display_path path = (if path = [] then lit ''/'' else SLASH # join_with [SLASH] path)"

definition path_segments :: "rstr \<Rightarrow> path" where
  "path_segments path =
     (case strip_prefix [SLASH] path of None \<Rightarrow> []
      | Some path' \<Rightarrow> if path' = [] then [] else split_on SLASH path')"

definition pull_prefix :: "path \<Rightarrow> path \<Rightarrow> path option" where
  "pull_prefix pre output =
     (if is_prefix pre output then Some (drop (length pre) output)
      else if is_prefix output pre then Some []
      else None)"

definition join_path :: "path \<Rightarrow> path \<Rightarrow> path" where
  "join_path pre post = pre @ post"

fun normalize_loop :: "path list \<Rightarrow> path list \<Rightarrow> path list" where
  "normalize_loop minimal [] = minimal"
| "normalize_loop minimal (path # paths) =
     (if list_ex (\<lambda>ancestor. is_prefix ancestor path) minimal then normalize_loop minimal paths
      else normalize_loop (minimal @ [path]) paths)"

definition normalized_paths :: "path list \<Rightarrow> path list" where
  "normalized_paths paths = normalize_loop [] (remdups_adj (sort paths))"

section \<open>Pulling output paths back\<close>

fun pull :: "Filter \<Rightarrow> path list \<Rightarrow> path list"
  and pull_members :: "Filter list \<Rightarrow> path list \<Rightarrow> path list \<Rightarrow> path list"
  and pull_ops :: "Filter list \<Rightarrow> path list \<Rightarrow> path list"
where
  "pull (Subdir path) paths = normalized_paths (map (join_path (segments path)) paths)"
| "pull (Prefix path) paths = normalized_paths (List.map_filter (pull_prefix (segments path)) paths)"
| "pull (Exclude _) paths = normalized_paths paths"
| "pull Nop paths = normalized_paths paths"
| "pull Empty paths = normalized_paths []"
| "pull (Compose members) paths = normalized_paths (pull_members members paths [])"
| "pull (Chain ops) paths = normalized_paths (pull_ops ops paths)"
| "pull_members [] paths output = output"
| "pull_members (member # members) paths output =
     pull_members members paths (normalized_paths (output @ pull member paths))"
| "pull_ops [] paths = paths"
| "pull_ops (op # ops) paths = normalized_paths (pull op (pull_ops ops paths))"

definition src_paths :: "Filter \<Rightarrow> rstr list" where
  "src_paths f = sort (map display_path (normalized_paths (pull f [[]])))"

definition dst_paths :: "Filter \<Rightarrow> rstr list option" where
  "dst_paths f = map_option src_paths (invert f)"

datatype SrcPathLimitExceeded = SrcPathLimitExceeded

definition within_limit :: "nat \<Rightarrow> path list \<Rightarrow> SrcPathLimitExceeded + path list" where
  "within_limit max_paths paths =
     (if length paths > max_paths then Err SrcPathLimitExceeded else Ok paths)"

fun pull_limited :: "nat \<Rightarrow> Filter \<Rightarrow> path list \<Rightarrow> SrcPathLimitExceeded + path list"
  and pull_limited_members ::
    "nat \<Rightarrow> Filter list \<Rightarrow> path list \<Rightarrow> path list \<Rightarrow> SrcPathLimitExceeded + path list"
  and pull_limited_ops :: "nat \<Rightarrow> Filter list \<Rightarrow> path list \<Rightarrow> SrcPathLimitExceeded + path list"
where
  "pull_limited k (Subdir path) paths =
     within_limit k (normalized_paths (map (join_path (segments path)) paths))"
| "pull_limited k (Prefix path) paths =
     within_limit k (normalized_paths (List.map_filter (pull_prefix (segments path)) paths))"
| "pull_limited k (Exclude _) paths = within_limit k (normalized_paths paths)"
| "pull_limited k Nop paths = within_limit k (normalized_paths paths)"
| "pull_limited k Empty paths = within_limit k (normalized_paths [])"
| "pull_limited k (Compose members) paths =
     bindR (pull_limited_members k members paths []) (\<lambda>output. within_limit k (normalized_paths output))"
| "pull_limited k (Chain ops) paths =
     bindR (pull_limited_ops k ops paths) (\<lambda>output. within_limit k (normalized_paths output))"
| "pull_limited_members k [] paths output = Ok output"
| "pull_limited_members k (member # members) paths output =
     bindR (pull_limited k member paths) (\<lambda>pulled.
     bindR (within_limit k (normalized_paths (output @ pulled))) (\<lambda>output'.
       pull_limited_members k members paths output'))"
| "pull_limited_ops k [] paths = Ok paths"
| "pull_limited_ops k (op # ops) paths =
     bindR (pull_limited_ops k ops paths) (\<lambda>output.
     bindR (pull_limited k op output) (\<lambda>pulled. within_limit k (normalized_paths pulled)))"

definition src_paths_limited :: "Filter \<Rightarrow> nat \<Rightarrow> SrcPathLimitExceeded + rstr list" where
  "src_paths_limited f max_paths =
     bindR (pull_limited max_paths f [[]]) (\<lambda>paths.
     bindR (within_limit max_paths (normalized_paths paths)) (\<lambda>paths'.
       Ok (sort (map display_path paths'))))"

fun member_source_paths :: "nat \<Rightarrow> Filter list \<Rightarrow> SrcPathLimitExceeded + path list" where
  "member_source_paths max_paths [] = Ok []"
| "member_source_paths max_paths (member # members) =
     bindR (src_paths_limited member max_paths) (\<lambda>paths.
     bindR (member_source_paths max_paths members) (\<lambda>others.
       Ok (map path_segments paths @ others)))"

fun collect_compose_source_paths_limited :: "nat \<Rightarrow> Filter \<Rightarrow> SrcPathLimitExceeded + path list list"
  and collect_all :: "nat \<Rightarrow> Filter list \<Rightarrow> SrcPathLimitExceeded + path list list"
where
  "collect_compose_source_paths_limited k (Compose members) =
     bindR (member_source_paths k members) (\<lambda>paths.
     bindR (collect_all k members) (\<lambda>groups. Ok (paths # groups)))"
| "collect_compose_source_paths_limited k (Chain ops) = collect_all k ops"
| "collect_compose_source_paths_limited k (Subdir _) = Ok []"
| "collect_compose_source_paths_limited k (Prefix _) = Ok []"
| "collect_compose_source_paths_limited k (Exclude _) = Ok []"
| "collect_compose_source_paths_limited k Nop = Ok []"
| "collect_compose_source_paths_limited k Empty = Ok []"
| "collect_all k [] = Ok []"
| "collect_all k (f # fs) =
     bindR (collect_compose_source_paths_limited k f) (\<lambda>groups.
     bindR (collect_all k fs) (\<lambda>others. Ok (groups @ others)))"

definition all_compose_source_paths_limited :: "Filter \<Rightarrow> nat \<Rightarrow> SrcPathLimitExceeded + path list list" where
  "all_compose_source_paths_limited f max_paths = collect_compose_source_paths_limited max_paths f"


section \<open>Prefix order and normalization\<close>

lemma is_prefix_iff: "is_prefix a d \<longleftrightarrow> prefix a d"
proof (induction a arbitrary: d)
  case (Cons x a)
  then show ?case by (cases d) (auto simp: is_prefix_def)
qed (simp add: is_prefix_def)

definition up_closure :: "path set \<Rightarrow> path set" where
  "up_closure S = {p. \<exists>q \<in> S. prefix q p}"

definition minimal_paths :: "path set \<Rightarrow> path set" where
  "minimal_paths S = {p \<in> S. \<forall>q \<in> S. prefix q p \<longrightarrow> q = p}"

lemma normalize_loop_spec:
  "sorted (minimal @ paths) \<Longrightarrow> distinct (minimal @ paths) \<Longrightarrow>
   set minimal = minimal_paths (set minimal) \<Longrightarrow>
   sorted (normalize_loop minimal paths) \<and> distinct (normalize_loop minimal paths)
   \<and> set (normalize_loop minimal paths) = minimal_paths (set minimal \<union> set paths)"
proof (induction paths arbitrary: minimal)
  case (Cons p paths)
  have greater: "\<not> prefix p m" if "m \<in> set minimal" for m
    using Cons.prems(1,2) that prefix_imp_le [of p m] by (fastforce simp: sorted_append)
  show ?case
  proof (cases "\<exists>a \<in> set minimal. prefix a p")
    case True
    then have "minimal_paths (set minimal \<union> set (p # paths)) = minimal_paths (set minimal \<union> set paths)"
      using Cons.prems(2) by (auto simp: minimal_paths_def intro: prefix_order.trans)
    then show ?thesis
      using Cons.IH [of minimal] Cons.prems True
      by (auto simp: list_ex_iff is_prefix_iff sorted_append)
  next
    case False
    have "set (minimal @ [p]) = minimal_paths (set (minimal @ [p]))"
      using Cons.prems(3) False greater by (auto simp: minimal_paths_def)
    then show ?thesis
      using Cons.IH [of "minimal @ [p]"] Cons.prems(1,2) False
      by (auto simp: list_ex_iff is_prefix_iff sorted_append)
  qed
qed auto

lemma distinct_remdups_adj_sorted: "sorted xs \<Longrightarrow> distinct (remdups_adj (xs :: 'a :: linorder list))"
  by (induction xs rule: remdups_adj.induct) auto

lemma distinct_remdups_adj_sort: "distinct (remdups_adj (sort (xs :: 'a :: linorder list)))"
  by (simp add: distinct_remdups_adj_sorted)

lemma normalized_paths_spec:
  "sorted (normalized_paths ps) \<and> distinct (normalized_paths ps)
   \<and> set (normalized_paths ps) = minimal_paths (set ps)"
  using normalize_loop_spec [of "[]" "remdups_adj (sort ps)"] distinct_remdups_adj_sort [of ps]
  by (simp add: normalized_paths_def minimal_paths_def)

lemmas set_normalized_paths [simp] = normalized_paths_spec [THEN conjunct2, THEN conjunct2]

lemma minimal_below: "finite S \<Longrightarrow> p \<in> S \<Longrightarrow> \<exists>m \<in> minimal_paths S. prefix m p"
proof (induction "length p" arbitrary: p rule: less_induct)
  case less
  show ?case
  proof (cases "p \<in> minimal_paths S")
    case False
    then obtain q where "q \<in> S" "prefix q p" "q \<noteq> p" using less.prems by (auto simp: minimal_paths_def)
    then show ?thesis using less.hyps [of q] less.prems(1)
      by (metis prefix_length_less strict_prefixI prefix_order.trans)
  qed auto
qed

lemma up_closure_minimal [simp]: "finite S \<Longrightarrow> up_closure (minimal_paths S) = up_closure S"
proof
  assume fin: "finite S"
  show "up_closure (minimal_paths S) \<subseteq> up_closure S" by (auto simp: up_closure_def minimal_paths_def)
  show "up_closure S \<subseteq> up_closure (minimal_paths S)"
    using minimal_below [OF fin] unfolding up_closure_def by (blast intro: prefix_order.trans)
qed

lemma minimal_up_closure: "minimal_paths (up_closure S) = minimal_paths S"
proof -
  have "p \<in> minimal_paths S" if "p \<in> minimal_paths (up_closure S)" for p
    using that by (fastforce simp: minimal_paths_def up_closure_def)
  moreover have "p \<in> minimal_paths (up_closure S)" if "p \<in> minimal_paths S" for p
    using that unfolding minimal_paths_def up_closure_def
    by (auto dest: prefix_order.trans)
  ultimately show ?thesis by blast
qed

lemma up_closure_normalized [simp]: "up_closure (set (normalized_paths ps)) = up_closure (set ps)"
  by (simp add: up_closure_minimal)

text \<open>Normalized lists are equal exactly when they denote the same set of paths.\<close>

lemma normalized_paths_eqI:
  assumes "up_closure (set ps) = up_closure (set qs)"
  shows "normalized_paths ps = normalized_paths qs"
proof (rule sorted_distinct_set_unique)
  have "minimal_paths (set ps) = minimal_paths (set qs)"
    using assms minimal_up_closure by metis
  then show "set (normalized_paths ps) = set (normalized_paths qs)" by simp
qed (use normalized_paths_spec in blast)+

lemma normalized_paths_idem [simp]: "normalized_paths (normalized_paths ps) = normalized_paths ps"
  by (rule normalized_paths_eqI) simp

section \<open>Pulling is the preimage\<close>

fun pull_set :: "Filter \<Rightarrow> path set \<Rightarrow> path set" where
  "pull_set (Subdir path) S = (@) (segments path) ` S"
| "pull_set (Prefix path) S =
     {r. \<exists>q \<in> S. prefix (segments path) q \<and> r = drop (length (segments path)) q
        \<or> prefix q (segments path) \<and> r = []}"
| "pull_set (Exclude _) S = S"
| "pull_set Nop S = S"
| "pull_set Empty S = {}"
| "pull_set (Compose members) S = (\<Union>f \<in> set members. pull_set f S)"
| "pull_set (Chain ops) S = foldr pull_set ops S"

lemma up_closure_mono: "S \<subseteq> T \<Longrightarrow> up_closure S \<subseteq> up_closure T"
  by (auto simp: up_closure_def)

lemma up_closure_Un: "up_closure (S \<union> T) = up_closure S \<union> up_closure T"
  by (auto simp: up_closure_def)

lemma up_closure_UN: "up_closure (\<Union>x \<in> A. F x) = (\<Union>x \<in> A. up_closure (F x))"
  by (auto simp: up_closure_def)

lemma up_closureD: "up_closure S \<subseteq> up_closure T \<Longrightarrow> p \<in> S \<Longrightarrow> \<exists>q \<in> T. prefix q p"
  by (auto simp: up_closure_def)

lemma pull_set_prefix_mono:
  assumes sub: "up_closure S \<subseteq> up_closure T"
  shows "up_closure (pull_set (Prefix path) S) \<subseteq> up_closure (pull_set (Prefix path) T)"
proof
  fix x assume "x \<in> up_closure (pull_set (Prefix path) S)"
  then obtain q where q: "q \<in> S" and cases: "prefix (segments path) q \<and> prefix (drop (length (segments path)) q) x
      \<or> prefix q (segments path)"
    by (auto simp: up_closure_def)
  obtain r where r: "r \<in> T" "prefix r q" using up_closureD [OF sub q] by blast
  show "x \<in> up_closure (pull_set (Prefix path) T)"
  proof (cases "prefix r (segments path)")
    case True
    with r have "[] \<in> pull_set (Prefix path) T" by auto
    then show ?thesis unfolding up_closure_def using Nil_prefix by blast
  next
    case False
    then have pq: "prefix (segments path) q" and x: "prefix (drop (length (segments path)) q) x"
      using cases r by (auto intro: prefix_order.trans)
    have "prefix (segments path) r" using False pq r(2) prefix_same_cases by blast
    moreover have "prefix (drop (length (segments path)) r) x"
      using r(2) x \<open>prefix (segments path) r\<close> by (auto simp: prefix_def)
    ultimately have "drop (length (segments path)) r \<in> pull_set (Prefix path) T"
      "prefix (drop (length (segments path)) r) x" using r(1) by auto
    then show ?thesis unfolding up_closure_def by blast
  qed
qed

lemma pull_set_mono:
  "up_closure S \<subseteq> up_closure T \<Longrightarrow> up_closure (pull_set f S) \<subseteq> up_closure (pull_set f T)"
proof (induction f arbitrary: S T)
  case (Subdir path)
  show ?case
  proof
    fix x assume "x \<in> up_closure (pull_set (Subdir path) S)"
    then obtain q where "q \<in> S" "prefix (segments path @ q) x" by (auto simp: up_closure_def)
    then show "x \<in> up_closure (pull_set (Subdir path) T)"
      using up_closureD [OF Subdir.prems] by (fastforce simp: up_closure_def prefix_def)
  qed
next
  case (Prefix path)
  then show ?case by (rule pull_set_prefix_mono)
next
  case (Compose ms)
  then show ?case by (auto simp: up_closure_UN) blast
next
  case (Chain ops)
  have "up_closure (foldr pull_set ops S) \<subseteq> up_closure (foldr pull_set ops T)"
    using Chain.IH by (induction ops) (use Chain.prems in auto)
  then show ?case by simp
qed auto

lemma pull_set_cong:
  "up_closure S = up_closure T \<Longrightarrow> up_closure (pull_set f S) = up_closure (pull_set f T)"
  by (simp add: pull_set_mono subset_antisym)

lemma pull_prefix_Some:
  "pull_prefix pre q = Some r \<longleftrightarrow> prefix pre q \<and> r = drop (length pre) q \<or> prefix q pre \<and> r = []"
proof -
  have "drop (length pre) q = []" if "prefix q pre" using that prefix_length_le by auto
  then show ?thesis by (auto simp: pull_prefix_def is_prefix_iff)
qed

lemma set_map_filter_pull_prefix:
  "set (List.map_filter (pull_prefix (segments path)) ps) = pull_set (Prefix path) (set ps)"
proof -
  have "set (List.map_filter (pull_prefix (segments path)) ps)
      = {r. \<exists>q \<in> set ps. pull_prefix (segments path) q = Some r}"
    by (force simp: map_filter_def)
  then show ?thesis by (simp only: pull_prefix_Some pull_set.simps)
qed

lemma pull_members_up:
  "(\<And>f ps. f \<in> set ms \<Longrightarrow> up_closure (set (pull f ps)) = up_closure (pull_set f (set ps))) \<Longrightarrow>
   up_closure (set (pull_members ms ps out)) = up_closure (set out) \<union> (\<Union>f \<in> set ms. up_closure (pull_set f (set ps)))"
proof (induction ms arbitrary: out)
  case (Cons f ms)
  have "up_closure (set (pull f ps)) = up_closure (pull_set f (set ps))"
    using Cons.prems by simp
  then show ?case using Cons.IH Cons.prems by (auto simp: up_closure_Un simp del: set_normalized_paths)
qed simp

lemma pull_ops_up:
  "(\<And>f ps. f \<in> set ops \<Longrightarrow> up_closure (set (pull f ps)) = up_closure (pull_set f (set ps))) \<Longrightarrow>
   up_closure (set (pull_ops ops ps)) = up_closure (foldr pull_set ops (set ps))"
proof (induction ops)
  case (Cons f ops)
  have "up_closure (set (pull_ops ops ps)) = up_closure (foldr pull_set ops (set ps))"
    using Cons by simp
  from pull_set_cong [OF this] show ?case
    using Cons.prems [of f "pull_ops ops ps"] by (simp del: set_normalized_paths)
qed simp

lemma pull_up: "up_closure (set (pull f ps)) = up_closure (pull_set f (set ps))"
proof (induction f arbitrary: ps)
  case (Subdir path)
  then show ?case by (simp add: join_path_def image_image del: set_normalized_paths)
next
  case (Prefix path)
  then show ?case
    by (simp add: set_map_filter_pull_prefix del: set_normalized_paths pull_set.simps)
next
  case (Compose ms)
  then show ?case
    using pull_members_up [of ms ps "[]"] by (simp add: up_closure_UN up_closure_def [of "{}"] del: set_normalized_paths)
next
  case (Chain ops)
  then show ?case using pull_ops_up [of ops ps] by (simp del: set_normalized_paths)
qed (simp_all del: set_normalized_paths)

text \<open>All the intermediate normalizations cancel out: the result is the normalized preimage.\<close>

lemma pull_normalized [simp]: "normalized_paths (pull f ps) = pull f ps"
  by (cases f) simp_all

lemma set_pull: "set (pull f ps) = minimal_paths (pull_set f (set ps))"
proof -
  have "set (pull f ps) = minimal_paths (set (pull f ps))"
    using set_normalized_paths [of "pull f ps"] by simp
  also have "\<dots> = minimal_paths (pull_set f (set ps))"
    using pull_up [of f ps] minimal_up_closure by metis
  finally show ?thesis .
qed

section \<open>The limited computation\<close>

lemma within_limit_Inr [simp]: "within_limit k ps = Inr qs \<longleftrightarrow> qs = ps \<and> length ps \<le> k"
  by (auto simp: within_limit_def)

lemma pull_limited_sound:
  "pull_limited k f ps = Inr qs \<Longrightarrow> qs = pull f ps \<and> length qs \<le> k"
  "pull_limited_members k fs ps out = Inr qs \<Longrightarrow> qs = pull_members fs ps out"
  "pull_limited_ops k fs ps = Inr qs \<Longrightarrow> qs = pull_ops fs ps"
  by (induction k f ps and k fs ps out and k fs ps arbitrary: qs and qs and qs
      rule: pull_limited_pull_limited_members_pull_limited_ops.induct)
    (auto simp: bindR_eq_Inr, metis pull_normalized)

lemma src_paths_limited_sound:
  assumes "src_paths_limited f k = Inr ps"
  shows "ps = src_paths f \<and> length ps \<le> k"
  using assms pull_limited_sound(1) [of k f "[[]]"]
  by (auto simp: src_paths_limited_def src_paths_def bindR_eq_Inr)

lemma src_paths_eq: "src_paths f = sort (map display_path (pull f [[]]))"
  by (simp add: src_paths_def)

section \<open>Displayed paths\<close>

definition plain_segment :: "rstr \<Rightarrow> bool" where
  "plain_segment s \<longleftrightarrow> s \<noteq> [] \<and> SLASH \<notin> set s"

lemma valid_plain_segment: "list_all valid_path_segment p \<Longrightarrow> list_all plain_segment p"
  by (auto simp: list_all_iff valid_path_segment_def plain_segment_def)

lemma plain_join:
  assumes "list_all plain_segment p" and "p \<noteq> []"
  shows "split_on SLASH (join_with [SLASH] p) = p" and "join_with [SLASH] p \<noteq> []"
    and "last (join_with [SLASH] p) \<noteq> SLASH" and "hd (join_with [SLASH] p) \<noteq> SLASH"
proof -
  have seg: "s \<noteq> [] \<and> SLASH \<notin> set s" if "s \<in> set p" for s
    using assms(1) that by (auto simp: list_all_iff plain_segment_def)
  show "split_on SLASH (join_with [SLASH] p) = p"
    using seg assms(2) by (intro split_on_join_with) auto
  show "join_with [SLASH] p \<noteq> []" using seg assms(2) by (subst join_with_eq_Nil) auto
  have "last (join_with [SLASH] p) = last (last p)"
    using seg assms(2) by (intro last_join_with) auto
  then show "last (join_with [SLASH] p) \<noteq> SLASH"
    using seg [of "last p"] assms(2) by (metis last_in_set)
  have "hd (join_with [SLASH] p) = hd (hd p)"
    using hd_join_with [of "hd p" "[SLASH]" "tl p"] seg [of "hd p"] assms(2) by auto
  then show "hd (join_with [SLASH] p) \<noteq> SLASH"
    using seg [of "hd p"] assms(2) by (metis hd_in_set)
qed

lemma path_segments_display: "list_all plain_segment p \<Longrightarrow> path_segments (display_path p) = p"
  by (cases "p = []") (simp_all add: path_segments_def display_path_def plain_join)

lemma display_path_inj:
  "list_all plain_segment p \<Longrightarrow> list_all plain_segment q \<Longrightarrow> display_path p = display_path q \<Longrightarrow> p = q"
  by (metis path_segments_display)

lemma foldr_pull_set_all:
  "(\<And>f T. f \<in> set ops \<Longrightarrow> Ball T P \<Longrightarrow> Ball (pull_set f T) P) \<Longrightarrow> Ball S P \<Longrightarrow> Ball (foldr pull_set ops S) P"
  by (induction ops) auto

lemma pull_set_valid:
  "wf_filter f \<Longrightarrow> Ball S (list_all valid_path_segment) \<Longrightarrow> Ball (pull_set f S) (list_all valid_path_segment)"
proof (induction f arbitrary: S)
  case (Subdir path)
  then show ?case by (auto simp: wf_path_def)
next
  case (Prefix path)
  then show ?case by (auto simp: list_all_iff dest!: in_set_dropD)
next
  case (Compose ms)
  then show ?case by (auto simp: list_all_iff)
next
  case (Chain ops)
  then have "Ball (foldr pull_set ops S) (list_all valid_path_segment)"
    by (intro foldr_pull_set_all) (auto simp: list_all_iff)
  then show ?case by simp
qed simp_all

section \<open>Inversion on canonical filters\<close>

fun inverse :: "Filter \<Rightarrow> Filter" where
  "inverse (Subdir path) = Prefix path"
| "inverse (Prefix path) = Subdir path"
| "inverse (Exclude sels) = Exclude sels"
| "inverse (Compose ms) = Compose (sort_key print_filter (map inverse ms))"
| "inverse (Chain ops) = Chain (rev (map inverse ops))"
| "inverse Nop = Nop"
| "inverse Empty = Empty"

lemma inverse_member [simp]:
  "chain_member (inverse f) \<longleftrightarrow> chain_member f" "compose_member (inverse f) \<longleftrightarrow> compose_member f"
  by (cases f; simp add: chain_member_def compose_member_def)+

lemma mergeable_inverse: "mergeable (inverse g) (inverse f) \<longleftrightarrow> mergeable f g"
  by (cases f; cases g) simp_all

lemma inverse_canonical: "canonical f \<Longrightarrow> canonical (inverse f)"
proof (induction f)
  case (Compose ms)
  then show ?case by (auto simp: list_all_iff)
next
  case (Chain ops)
  then show ?case
    by (auto simp: list_all_iff successively_map mergeable_inverse)
qed auto

lemma compose_sort_fixed:
  assumes "2 \<le> length ms" and "list_all canonical ms" and "list_all compose_member ms"
  shows "canonicalize (Compose ms) = Some (Compose (sort_key print_filter ms))"
proof -
  have "compose_members ms = Some ms"
    using assms by (intro compose_members_fixed) (auto simp: list_all_iff canonicalize_fixed)
  moreover obtain x y zs where "sort_key print_filter ms = x # y # zs"
    using assms(1) list_cases_2 [of "sort_key print_filter ms"] by auto
  ultimately show ?thesis by (simp add: finish_compose_def)
qed

lemma invert_all_map:
  "(\<And>f. f \<in> set fs \<Longrightarrow> invert f = Some (inverse f)) \<Longrightarrow> invert_all fs = Some (map inverse fs)"
  by (induction fs) auto

lemma invert_canonical: "canonical f \<Longrightarrow> invert f = Some (inverse f)"
proof (induction f)
  case (Compose ms)
  then have "invert_all ms = Some (map inverse ms)" by (intro invert_all_map) (auto simp: list_all_iff)
  moreover have "canonicalize (Compose (map inverse ms)) = Some (inverse (Compose ms))"
    using Compose.prems compose_sort_fixed [of "map inverse ms"]
    by (auto simp: list_all_iff inverse_canonical)
  ultimately show ?case by simp
next
  case (Chain ops)
  then have "invert_all ops = Some (map inverse ops)" by (intro invert_all_map) (auto simp: list_all_iff)
  moreover have "canonicalize (inverse (Chain ops)) = Some (inverse (Chain ops))"
    using Chain.prems by (intro canonicalize_fixed inverse_canonical)
  ultimately show ?case by simp
qed (use canonicalize_fixed [of "Exclude _"] in \<open>simp_all del: canonicalize.simps(3)\<close>)

lemma sort_key_mset_inj:
  assumes "mset xs = mset ys" and "inj_on k (set ys)" and "sorted (map k ys)"
  shows "sort_key k xs = ys"
proof (rule properties_for_sort_key)
  show "mset ys = mset xs" using assms(1) by simp
  fix y assume y: "y \<in> set ys"
  have "filter (\<lambda>x. k y = k x) zs = replicate (count (mset zs) y) y" if "set zs = set ys" for zs
  proof -
    have "filter (\<lambda>x. k y = k x) zs = filter (\<lambda>x. y = x) zs"
      using assms(2) y that by (intro filter_cong refl) (auto dest: inj_onD)
    also have "\<dots> = replicate (count (mset zs) y) y" by (induction zs) auto
    finally show ?thesis .
  qed
  then show "filter (\<lambda>x. k y = k x) ys = filter (\<lambda>x. k y = k x) xs"
    using assms(1) mset_eq_setD [OF assms(1)] by metis
qed (rule assms(3))

lemma inverse_inverse: "canonical f \<Longrightarrow> inverse (inverse f) = f"
proof (induction f)
  case (Compose ms)
  let ?ys = "sort_key print_filter (map inverse ms)"
  have "map (\<lambda>f. inverse (inverse f)) ms = ms"
    using Compose by (intro map_idI) (auto simp: list_all_iff)
  then have "mset (map inverse ?ys) = mset ms"
    by (metis list.map_comp mset_map mset_sort comp_apply map_cong)
  moreover have "inj_on print_filter (set ms)"
    using Compose.prems canonical_printable print_filter_inj by (auto simp: inj_on_def list_all_iff)
  ultimately show ?case using sort_key_mset_inj [of "map inverse ?ys" ms print_filter] Compose.prems
    by simp
next
  case (Chain ops)
  then show ?case by (auto simp: rev_map list_all_iff intro: map_idI)
qed simp_all

lemma invert_involution:
  "canonical f \<Longrightarrow> \<exists>g. invert f = Some g \<and> canonical g \<and> invert g = Some f"
  using invert_canonical inverse_canonical inverse_inverse by metis

end
