(* ===== verification/Path_Policy.thy ===== *)
theory Path_Policy
  imports Filter_Paths
begin

text \<open>
  The monorepo path policy: \<open>canonicalize_mono_ref_path\<close> (\<open>src/common/utils.rs\<close>), the creation-path
  classifier and the ImportRepo guards (\<open>src/ceres/pack/path_policy.rs\<close>), and the configuration
  check they rely on (\<open>validate_monorepo_path_shape\<close>, \<open>src/config/validate.rs\<close>). Error messages are
  constructors that carry the data the code formats. \<open>import_dir\<close> is the \<open>PathBuf\<close> as text
  (\<open>to_string_lossy\<close>, the identity on the valid UTF-8 the configuration check requires).
\<close>

section \<open>Canonical paths\<close>

datatype MonoRefPathError = PathEmpty | PathTraversal rstr | PathSeparator rstr | PathOnlyDots

definition canonicalize_mono_ref_path :: "rstr \<Rightarrow> MonoRefPathError + rstr" where
  "canonicalize_mono_ref_path path =
     (let s = trim path in
      if s = [] then Err PathEmpty
      else if list_ex (\<lambda>p. p = lit ''..'') (split_on SLASH s) then Err (PathTraversal s)
      else if BACKSLASH \<in> set s then Err (PathSeparator s)
      else let s = trim_end_matches (\<lambda>c. c = SLASH) s in
        if s = [] then Ok (lit ''/'')
        else let parts = filter (\<lambda>p. p \<noteq> [] \<and> p \<noteq> lit ''.'') (split_on SLASH s) in
          if parts = [] then Err PathOnlyDots
          else Ok (SLASH # join_with [SLASH] parts))"

section \<open>The policy\<close>

abbreviation (input) NUL :: rchar where "NUL \<equiv> 0"

definition VIEW_URL_RESERVED_NAMES :: "rstr list" where
  "VIEW_URL_RESERVED_NAMES = [lit ''.view'', lit ''.filter'']"

definition INIT_ROOT_RESERVED_NAMES :: "rstr list" where
  "INIT_ROOT_RESERVED_NAMES =
     [lit ''.mega_cedar.json'', lit ''.cedar'', lit ''.buckroot'', lit ''.buckconfig'']"

record MonoConfig =
  import_dir :: rstr
  root_dirs :: "rstr list"

datatype invalid_reason =
    HasNul | NotCanonical | RootNotCreatable | ReservedFirst | HasBackslash | HasControl
  | MustBeCanonical rstr | NotAbsolute | HasDotDot | ImportDirItself | NotBelowImportDir rstr

datatype PathPolicyError =
    NotAllowed rstr "rstr list" rstr
  | Uninitialized rstr
  | Invalid rstr invalid_reason
  | Conflict rstr rstr

datatype ImportRepoError = PathInvalid rstr invalid_reason

definition is_same_or_under :: "rstr \<Rightarrow> rstr \<Rightarrow> bool" where
  "is_same_or_under path dir \<longleftrightarrow> path = dir
     \<or> (case strip_prefix dir path of None \<Rightarrow> False | Some below \<Rightarrow> starts_with below [SLASH])"

definition in_import_namespace :: "MonoConfig \<Rightarrow> rstr \<Rightarrow> bool" where
  "in_import_namespace config canonical_path = is_same_or_under canonical_path (import_dir config)"

definition is_import_dir_ancestor :: "MonoConfig \<Rightarrow> rstr \<Rightarrow> bool" where
  "is_import_dir_ancestor config canonical_path \<longleftrightarrow> canonical_path = lit ''/''
     \<or> canonical_path \<noteq> import_dir config \<and> is_same_or_under (import_dir config) canonical_path"

definition has_view_reserved_first_component :: "rstr \<Rightarrow> bool" where
  "has_view_reserved_first_component path \<longleftrightarrow>
     hd (split_on SLASH (trim_start_matches (\<lambda>c. c = SLASH) path)) \<in> set VIEW_URL_RESERVED_NAMES"

definition not_allowed :: "MonoConfig \<Rightarrow> rstr \<Rightarrow> PathPolicyError" where
  "not_allowed config path =
     NotAllowed path (sort (map ((#) SLASH) (root_dirs config))) (import_dir config)"

definition classify_creation_path :: "MonoConfig \<Rightarrow> rstr \<Rightarrow> PathPolicyError + unit" where
  "classify_creation_path config canonical_path =
     (if NUL \<in> set canonical_path then Err (Invalid canonical_path HasNul)
      else if canonicalize_mono_ref_path canonical_path \<noteq> Ok canonical_path
        then Err (Invalid canonical_path NotCanonical)
      else if in_import_namespace config canonical_path then Err (not_allowed config canonical_path)
      else if canonical_path = lit ''/'' then Err (Invalid canonical_path RootNotCreatable)
      else if has_view_reserved_first_component canonical_path
        then Err (Invalid canonical_path ReservedFirst)
      else if hd (split_on SLASH (drop 1 canonical_path)) \<notin> set (root_dirs config)
        then Err (not_allowed config canonical_path)
      else Ok ())"

definition strict_creation_path_input :: "rstr \<Rightarrow> PathPolicyError + rstr" where
  "strict_creation_path_input input =
     (if NUL \<in> set input then Err (Invalid input HasNul)
      else if BACKSLASH \<in> set input then Err (Invalid input HasBackslash)
      else if list_ex is_control input then Err (Invalid input HasControl)
      else (case canonicalize_mono_ref_path input of
          Inr canon \<Rightarrow> if canon = input then Ok canon
            else Err (Invalid input (MustBeCanonical canon))
        | Inl _ \<Rightarrow> Err (Invalid input NotAbsolute)))"

definition check_import_repo_leaf :: "MonoConfig \<Rightarrow> rstr \<Rightarrow> ImportRepoError + unit" where
  "check_import_repo_leaf config canonical_path =
     (if NUL \<in> set canonical_path then Err (PathInvalid canonical_path HasNul)
      else if canonicalize_mono_ref_path canonical_path \<noteq> Ok canonical_path
        then Err (PathInvalid canonical_path NotCanonical)
      else if canonical_path = import_dir config then Err (PathInvalid canonical_path ImportDirItself)
      else if \<not> is_same_or_under canonical_path (import_dir config)
        then Err (PathInvalid canonical_path (NotBelowImportDir (import_dir config)))
      else Ok ())"

definition strict_import_repo_leaf_input :: "MonoConfig \<Rightarrow> rstr \<Rightarrow> ImportRepoError + rstr" where
  "strict_import_repo_leaf_input config raw =
     (if NUL \<in> set raw then Err (PathInvalid raw HasNul)
      else if BACKSLASH \<in> set raw then Err (PathInvalid raw HasBackslash)
      else (case canonicalize_mono_ref_path raw of
          Inr canon \<Rightarrow>
            if canon = raw then bindR (check_import_repo_leaf config raw) (\<lambda>_. Ok raw)
            else Err (PathInvalid raw (MustBeCanonical canon))
        | Inl _ \<Rightarrow> Err (PathInvalid raw NotAbsolute)))"

fun operand_components :: "rstr list \<Rightarrow> rstr list \<Rightarrow> rstr list option" where
  "operand_components components [] = Some components"
| "operand_components components (segment # segs) =
     (if segment = [] \<or> segment = lit ''.'' then operand_components components segs
      else if segment = lit ''..'' then None
      else operand_components (components @ [segment]) segs)"

definition operand_path :: "rstr \<Rightarrow> rstr option" where
  "operand_path operand = map_option (\<lambda>components. SLASH # join_with [SLASH] components)
     (operand_components [] (split_on SLASH operand))"

fun check_operands :: "MonoConfig \<Rightarrow> (rstr \<times> bool) list \<Rightarrow> PathPolicyError + unit" where
  "check_operands config [] = Ok ()"
| "check_operands config ((operand, removal) # operands) =
     (case operand_path operand of None \<Rightarrow> Err (Invalid operand HasDotDot)
      | Some path \<Rightarrow>
          if has_view_reserved_first_component path then Err (Invalid path ReservedFirst)
          else if in_import_namespace config path
              \<or> removal \<and> path \<noteq> lit ''/'' \<and> is_import_dir_ancestor config path
            then Err (not_allowed config path)
          else check_operands config operands)"

definition check_write_operands ::
    "MonoConfig \<Rightarrow> rstr list \<Rightarrow> rstr list \<Rightarrow> PathPolicyError + unit" where
  "check_write_operands config written removed =
     check_operands config (map (\<lambda>path. (path, False)) written @ map (\<lambda>path. (path, True)) removed)"

section \<open>The configuration check\<close>

datatype path_shape_error =
    RootNotComponent nat rstr | RootEdgeWhitespace nat rstr | RootReserved nat rstr
  | RootDuplicated nat rstr | ImportDirChars rstr | ImportDirNotCanonical rstr
  | ImportDirReserved rstr | ImportDirNotInRoots rstr

definition eq_ignore_ascii_case :: "rstr \<Rightarrow> rstr \<Rightarrow> bool" where
  "eq_ignore_ascii_case s t \<longleftrightarrow>
     (let lower = map (\<lambda>c. if 65 \<le> c \<and> c \<le> 90 then c + 32 else c) in lower s = lower t)"

fun check_root_dirs :: "nat \<Rightarrow> rstr list \<Rightarrow> rstr list \<Rightarrow> path_shape_error + unit" where
  "check_root_dirs index seen [] = Ok ()"
| "check_root_dirs index seen (name # names) =
     (if SLASH \<in> set name \<or> BACKSLASH \<in> set name \<or> NUL \<in> set name
          \<or> name = lit ''.'' \<or> name = lit ''..''
        then Err (RootNotComponent index name)
      else if trim name \<noteq> name then Err (RootEdgeWhitespace index name)
      else if name \<in> set INIT_ROOT_RESERVED_NAMES \<or> name \<in> set VIEW_URL_RESERVED_NAMES
          \<or> eq_ignore_ascii_case name (lit ''.git'')
        then Err (RootReserved index name)
      else if name \<in> set seen then Err (RootDuplicated index name)
      else check_root_dirs (Suc index) (name # seen) names)"

definition validate_monorepo_path_shape :: "rstr list \<Rightarrow> rstr \<Rightarrow> path_shape_error + unit" where
  "validate_monorepo_path_shape roots dir =
     bindR (check_root_dirs 0 [] roots) (\<lambda>_.
       if BACKSLASH \<in> set dir \<or> NUL \<in> set dir then Err (ImportDirChars dir)
       else if dir = lit ''/'' \<or> canonicalize_mono_ref_path dir \<noteq> Ok dir
         then Err (ImportDirNotCanonical dir)
       else let first = hd (split_on SLASH (drop 1 dir)) in
         if first \<in> set VIEW_URL_RESERVED_NAMES then Err (ImportDirReserved first)
         else if first \<notin> set roots then Err (ImportDirNotInRoots first)
         else Ok ())"


section \<open>Splitting and joining\<close>

lemma split_on_append_delim: "split_on d (s @ d # t) = split_on d s @ split_on d t"
proof (induction s)
  case (Cons c s)
  obtain x xs where "split_on d s = x # xs" by (cases "split_on d s") auto
  with Cons show ?case by auto
qed simp

lemma split_on_trim_end: "set (split_on d (trim_end_matches (\<lambda>c. c = d) s)) \<subseteq> set (split_on d s)"
proof (induction s rule: rev_induct)
  case (snoc c s)
  then show ?case
    using split_on_append_delim [of d s "[]"] by (auto simp: trim_end_matches_def)
qed (simp add: trim_end_matches_def)

lemma length_join_Cons_le: "length (join_with [d] (x # xs)) \<le> Suc (length x + length (join_with [d] xs))"
  by (cases xs) auto

lemma length_join_filter: "length (join_with [d] (filter P xs)) \<le> length (join_with [d] xs)"
proof (induction xs)
  case (Cons x xs)
  show ?case
  proof (cases "xs = []")
    case False
    have "length (join_with [d] (x # filter P xs)) \<le> Suc (length x + length (join_with [d] (filter P xs)))"
      by (rule length_join_Cons_le)
    then show ?thesis using Cons False by (simp add: join_with_Cons)
  qed simp
qed simp

lemma join_with_append:
  "xs \<noteq> [] \<Longrightarrow> ys \<noteq> [] \<Longrightarrow> join_with d (xs @ ys) = join_with d xs @ d @ join_with d ys"
proof (induction xs)
  case (Cons x xs)
  then show ?case by (cases "xs = []") (auto simp: join_with_Cons)
qed simp

lemma trim_end_fixed: "s = [] \<or> \<not> P (last s) \<Longrightarrow> trim_end_matches P s = s"
  unfolding trim_end_matches_def by (cases s rule: rev_cases) auto

section \<open>What canonicalization returns\<close>

definition valid_component :: "rstr \<Rightarrow> bool" where
  "valid_component s \<longleftrightarrow> plain_segment s \<and> s \<noteq> lit ''.'' \<and> s \<noteq> lit ''..'' \<and> BACKSLASH \<notin> set s"

lemma valid_components_plain: "list_all valid_component cs \<Longrightarrow> list_all plain_segment cs"
  by (auto simp: list_all_iff valid_component_def)

lemma split_display_path:
  "list_all plain_segment cs \<Longrightarrow> split_on SLASH (display_path cs) = [] # (if cs = [] then [[]] else cs)"
  by (auto simp: display_path_def lit_def plain_join)

lemma canonicalize_mono_ref_path_Inr:
  assumes "canonicalize_mono_ref_path path = Inr c"
  shows "\<exists>cs. list_all valid_component cs \<and> c = display_path cs"
proof -
  define s where "s = trim path"
  define s' where "s' = trim_end_matches (\<lambda>c. c = SLASH) s"
  define parts where "parts = filter (\<lambda>p. p \<noteq> [] \<and> p \<noteq> lit ''.'') (split_on SLASH s')"
  have dots: "lit ''..'' \<notin> set (split_on SLASH s)" and nobs: "BACKSLASH \<notin> set s"
    and c: "s' = [] \<and> c = lit ''/'' \<or> parts \<noteq> [] \<and> c = SLASH # join_with [SLASH] parts"
    using assms
    by (auto simp: canonicalize_mono_ref_path_def Let_def s_def s'_def parts_def list_ex_iff split: if_splits)
  have sub: "set (split_on SLASH s') \<subseteq> set (split_on SLASH s)"
    unfolding s'_def by (rule split_on_trim_end)
  have "list_all valid_component parts"
    unfolding list_all_iff
  proof
    fix p assume "p \<in> set parts"
    then have p: "p \<in> set (split_on SLASH s)" "p \<noteq> []" "p \<noteq> lit ''.''" using sub by (auto simp: parts_def)
    then have "SLASH \<notin> set p" "BACKSLASH \<notin> set p"
      using split_on_no_delim [of p SLASH s] split_on_chars [of SLASH s] nobs by auto
    with p dots show "valid_component p" by (auto simp: valid_component_def plain_segment_def)
  qed
  moreover have "list_all valid_component []" "lit ''/'' = display_path []" by (simp_all add: display_path_def)
  ultimately show ?thesis using c by (metis display_path_def)
qed

section \<open>The fixed points of canonicalization\<close>

lemma hd_display_path [simp]: "display_path cs \<noteq> []" "hd (display_path cs) = SLASH"
  by (auto simp: display_path_def lit_def)

lemma slash_not_whitespace [simp]: "\<not> is_whitespace SLASH"
  by (simp add: is_whitespace_def)

lemma canonicalize_display:
  assumes valid: "list_all valid_component cs" and trimmed: "trim (display_path cs) = display_path cs"
  shows "canonicalize_mono_ref_path (display_path cs) = Inr (display_path cs)"
proof (cases "cs = []")
  case True
  then show ?thesis using trimmed
    by (simp add: canonicalize_mono_ref_path_def display_path_def trim_end_matches_def lit_def)
next
  case False
  let ?s = "display_path cs"
  have plain: "list_all plain_segment cs" using valid by (rule valid_components_plain)
  have split: "split_on SLASH ?s = [] # cs" using split_display_path [OF plain] False by simp
  have "set ?s \<subseteq> insert SLASH (\<Union> (set ` set cs))"
    using set_join_with [of "[SLASH]" cs] by (auto simp: display_path_def lit_def)
  then have nobs: "BACKSLASH \<notin> set ?s"
    using valid by (auto simp: list_all_iff valid_component_def)
  have "last ?s \<noteq> SLASH" using plain_join [OF plain False] False by (simp add: display_path_def)
  then have t: "trim_end_matches (\<lambda>c. c = SLASH) ?s = ?s" by (intro trim_end_fixed) simp
  have "filter (\<lambda>p. p \<noteq> [] \<and> p \<noteq> lit ''.'') cs = cs"
    using valid by (intro filter_True) (auto simp: list_all_iff valid_component_def plain_segment_def)
  moreover have "\<not> list_ex (\<lambda>p. p = lit ''..'') ([] # cs)"
    using valid by (auto simp: list_all_iff list_ex_iff valid_component_def lit_def)
  moreover have "SLASH # join_with [SLASH] cs = ?s" using False by (simp add: display_path_def)
  ultimately show ?thesis
    using False nobs by (simp add: canonicalize_mono_ref_path_def trimmed t split Let_def)
qed

lemma trim_Cons_slash: "trim (SLASH # s) = trim_end_matches is_whitespace (SLASH # s)"
  by (simp add: trim_def trim_start_matches_def)

lemma trim_end_Cons:
  "trim_end_matches P (x # s) = [] \<and> P x
   \<or> (\<exists>t. trim_end_matches P (x # s) = x # t \<and> (t = s \<or> length t < length s))"
proof (induction s rule: rev_induct)
  case (snoc c s)
  have "trim_end_matches P (x # s @ [c]) = (if P c then trim_end_matches P (x # s) else x # s @ [c])"
    by (simp add: trim_end_matches_def)
  with snoc show ?case by auto
qed (simp add: trim_end_matches_def)

lemma canonicalize_shorter:
  assumes "canonicalize_mono_ref_path (SLASH # s) = Inr c"
  shows "length c \<le> length (trim (SLASH # s))"
proof -
  obtain t where t: "trim (SLASH # s) = SLASH # t"
    using trim_end_Cons [of is_whitespace SLASH s] by (auto simp: trim_Cons_slash)
  define s' where "s' = trim_end_matches (\<lambda>c. c = SLASH) (SLASH # t)"
  define parts where "parts = filter (\<lambda>p. p \<noteq> [] \<and> p \<noteq> lit ''.'') (split_on SLASH s')"
  have c: "s' = [] \<and> c = lit ''/'' \<or> s' \<noteq> [] \<and> c = SLASH # join_with [SLASH] parts"
    using assms unfolding canonicalize_mono_ref_path_def t
    by (auto simp: Let_def s'_def parts_def split: if_splits)
  show ?thesis
  proof (cases "s' = []")
    case True
    with c t show ?thesis by (simp add: lit_def)
  next
    case False
    then obtain u where u: "s' = SLASH # u" "length u \<le> length t"
      using trim_end_Cons [of "\<lambda>c. c = SLASH" SLASH t] by (auto simp: s'_def)
    have "parts = filter (\<lambda>p. p \<noteq> [] \<and> p \<noteq> lit ''.'') (split_on SLASH u)"
      by (simp add: parts_def u)
    then have "length (join_with [SLASH] parts) \<le> length u"
      using length_join_filter [of SLASH _ "split_on SLASH u"] by simp
    with c t u False show ?thesis by simp
  qed
qed

lemma canonicalize_fixed_iff:
  "canonicalize_mono_ref_path c = Inr c \<longleftrightarrow>
   (\<exists>cs. list_all valid_component cs \<and> c = display_path cs \<and> trim c = c)"
proof
  assume fix_c: "canonicalize_mono_ref_path c = Inr c"
  then obtain cs where cs: "list_all valid_component cs" "c = display_path cs"
    using canonicalize_mono_ref_path_Inr by blast
  obtain s where s: "c = SLASH # s" using cs(2) hd_display_path by (metis list.collapse)
  have "trim c = c"
  proof (rule ccontr)
    assume "trim c \<noteq> c"
    then have "length (trim c) < length c" 
      using trim_end_Cons [of is_whitespace SLASH s] by (auto simp: s trim_Cons_slash)
    moreover have "length c \<le> length (trim c)" using canonicalize_shorter fix_c unfolding s by blast
    ultimately show False by simp
  qed
  with cs show "\<exists>cs. list_all valid_component cs \<and> c = display_path cs \<and> trim c = c" by blast
qed (use canonicalize_display in blast)

section \<open>The namespace tests are component-wise\<close>

lemma is_same_or_under_display:
  assumes "list_all plain_segment cs" and "list_all plain_segment ds" and "ds \<noteq> []"
  shows "is_same_or_under (display_path cs) (display_path ds) \<longleftrightarrow> prefix ds cs"
proof
  assume "is_same_or_under (display_path cs) (display_path ds)"
  then consider "display_path cs = display_path ds"
    | r where "display_path cs = display_path ds @ SLASH # r"
    by (auto simp: is_same_or_under_def strip_prefix_Some starts_with_iff split: option.splits)
  then show "prefix ds cs"
  proof cases
    case 1
    then show ?thesis using display_path_inj assms by blast
  next
    case (2 r)
    then have "split_on SLASH (display_path cs) = split_on SLASH (display_path ds) @ split_on SLASH r"
      by (simp add: split_on_append_delim)
    moreover from 2 have "cs \<noteq> []" using assms(3) by (auto simp: display_path_def lit_def)
    ultimately have "cs = ds @ split_on SLASH r" using assms by (simp add: split_display_path)
    then show ?thesis by simp
  qed
next
  assume "prefix ds cs"
  then obtain es where es: "cs = ds @ es" by (auto simp: prefix_def)
  show "is_same_or_under (display_path cs) (display_path ds)"
  proof (cases "es = []")
    case False
    then have "display_path cs = display_path ds @ SLASH # join_with [SLASH] es"
      using es assms(3) by (simp add: display_path_def join_with_append)
    then show ?thesis by (simp add: is_same_or_under_def starts_with_iff)
  qed (simp add: es is_same_or_under_def)
qed

lemma is_same_or_under_root:
  assumes "list_all plain_segment cs"
  shows "is_same_or_under (display_path cs) (lit ''/'') \<longleftrightarrow> cs = []"
proof -
  have "\<not> starts_with (join_with [SLASH] cs) [SLASH]" if "cs \<noteq> []"
    using plain_join [OF assms that] by (simp add: starts_with_single)
  then show ?thesis
    using plain_join(2) [OF assms]
    by (auto simp: is_same_or_under_def display_path_def lit_def starts_with_iff split: if_splits)
qed

lemma reserved_first_display:
  assumes "list_all plain_segment cs"
  shows "has_view_reserved_first_component (display_path cs) \<longleftrightarrow> cs \<noteq> [] \<and> hd cs \<in> set VIEW_URL_RESERVED_NAMES"
proof (cases "cs = []")
  case True
  then show ?thesis
    by (simp add: has_view_reserved_first_component_def display_path_def trim_start_matches_def
        VIEW_URL_RESERVED_NAMES_def lit_def)
next
  case False
  have "dropWhile (\<lambda>c. c = SLASH) (join_with [SLASH] cs) = join_with [SLASH] cs"
    using plain_join [OF assms False] by (intro dropWhile_fixed) auto
  then show ?thesis
    using False plain_join(1) [OF assms False]
    by (simp add: has_view_reserved_first_component_def display_path_def trim_start_matches_def)
qed

lemma first_component_display:
  "list_all plain_segment cs \<Longrightarrow> cs \<noteq> [] \<Longrightarrow> hd (split_on SLASH (drop 1 (display_path cs))) = hd cs"
  by (simp add: display_path_def plain_join)

lemma display_path_root: "list_all plain_segment cs \<Longrightarrow> display_path cs = lit ''/'' \<longleftrightarrow> cs = []"
  by (cases "cs = []") (simp_all add: display_path_def lit_def plain_join(2))

section \<open>The classifier\<close>

definition creatable :: "MonoConfig \<Rightarrow> path \<Rightarrow> path \<Rightarrow> bool" where
  "creatable config ds cs \<longleftrightarrow> list_all valid_component cs \<and> list_all (\<lambda>c. NUL \<notin> set c) cs
     \<and> trim (display_path cs) = display_path cs \<and> cs \<noteq> [] \<and> hd cs \<in> set (root_dirs config)
     \<and> hd cs \<notin> set VIEW_URL_RESERVED_NAMES \<and> \<not> prefix ds cs"

lemma nul_display_path: "NUL \<in> set (display_path cs) \<longleftrightarrow> \<not> list_all (\<lambda>c. NUL \<notin> set c) cs"
proof -
  have "NUL \<in> set (join_with [SLASH] cs) \<longleftrightarrow> (\<exists>c \<in> set cs. NUL \<in> set c)"
    by (induction "[SLASH]" cs rule: join_with.induct) auto
  then show ?thesis by (auto simp: display_path_def lit_def list_all_iff)
qed

lemma classify_creation_path_iff:
  assumes dir: "import_dir config = display_path ds" "list_all plain_segment ds" "ds \<noteq> []"
  shows "classify_creation_path config path = Inr () \<longleftrightarrow> (\<exists>cs. path = display_path cs \<and> creatable config ds cs)"
    (is "?l \<longleftrightarrow> ?r")
proof
  assume ok: ?l
  then have nul: "NUL \<notin> set path" and fixed: "canonicalize_mono_ref_path path = Inr path"
    by (auto simp: classify_creation_path_def split: if_splits)
  then obtain cs where cs: "list_all valid_component cs" "path = display_path cs" "trim path = path"
    using canonicalize_fixed_iff by blast
  note plain = valid_components_plain [OF cs(1)]
  have "cs \<noteq> []" "\<not> prefix ds cs" "hd cs \<in> set (root_dirs config)" "hd cs \<notin> set VIEW_URL_RESERVED_NAMES"
    using ok is_same_or_under_display [OF plain dir(2,3)] reserved_first_display [OF plain]
      first_component_display [OF plain] display_path_root [OF plain]
    by (auto simp: classify_creation_path_def in_import_namespace_def dir(1) cs(2) split: if_splits)
  with cs nul show ?r by (auto simp: creatable_def nul_display_path)
next
  assume ?r
  then obtain cs where cs: "path = display_path cs" "creatable config ds cs" by blast
  then have plain: "list_all plain_segment cs" by (simp add: creatable_def valid_components_plain)
  show ?l
    using cs is_same_or_under_display [OF plain dir(2,3)] reserved_first_display [OF plain]
      first_component_display [OF plain] display_path_root [OF plain]
      canonicalize_display [of cs]
    by (auto simp: classify_creation_path_def in_import_namespace_def dir(1) creatable_def nul_display_path)
qed

lemma check_import_repo_leaf_iff:
  assumes dir: "import_dir config = display_path ds" "list_all plain_segment ds" "ds \<noteq> []"
  shows "check_import_repo_leaf config path = Inr () \<longleftrightarrow>
    (\<exists>cs. path = display_path cs \<and> list_all valid_component cs \<and> NUL \<notin> set path \<and> trim path = path
      \<and> strict_prefix ds cs)"
    (is "?l \<longleftrightarrow> ?r")
proof
  assume ok: ?l
  then have "NUL \<notin> set path" "canonicalize_mono_ref_path path = Inr path"
    by (auto simp: check_import_repo_leaf_def split: if_splits)
  then obtain cs where cs: "list_all valid_component cs" "path = display_path cs" "trim path = path"
    using canonicalize_fixed_iff by blast
  with ok show ?r
    using is_same_or_under_display [OF valid_components_plain [OF cs(1)] dir(2,3)]
    by (auto simp: check_import_repo_leaf_def dir(1) strict_prefix_def split: if_splits)
next
  assume ?r
  then obtain cs where cs: "path = display_path cs" "list_all valid_component cs" "NUL \<notin> set path"
      "trim path = path" "strict_prefix ds cs" by blast
  note plain = valid_components_plain [OF cs(2)]
  have "path \<noteq> display_path ds" using cs(1,5) display_path_inj [OF plain dir(2)] by (auto simp: strict_prefix_def)
  then show ?l
    using cs canonicalize_display [of cs] is_same_or_under_display [OF plain dir(2,3)]
    by (auto simp: check_import_repo_leaf_def dir(1) strict_prefix_def)
qed

section \<open>Write operands\<close>

definition operand_parts :: "rstr \<Rightarrow> rstr list" where
  "operand_parts operand = filter (\<lambda>s. s \<noteq> [] \<and> s \<noteq> lit ''.'') (split_on SLASH operand)"

lemma operand_components_eq:
  "operand_components acc segs =
     (if lit ''..'' \<in> set segs then None
      else Some (acc @ filter (\<lambda>s. s \<noteq> [] \<and> s \<noteq> lit ''.'') segs))"
  by (induction segs arbitrary: acc) (auto simp: lit_def)

lemma operand_parts_plain: "list_all plain_segment (operand_parts operand)"
  using split_on_no_delim [of _ SLASH operand]
  by (auto simp: operand_parts_def plain_segment_def list_all_iff)

lemma operand_path_eq:
  "operand_path operand = (if lit ''..'' \<in> set (split_on SLASH operand) then None
     else Some (display_path (operand_parts operand)))"
  by (simp add: operand_path_def operand_components_eq operand_parts_def display_path_def lit_def)

definition operand_allowed :: "path \<Rightarrow> bool \<Rightarrow> rstr \<Rightarrow> bool" where
  "operand_allowed ds removal operand \<longleftrightarrow>
     (let cs = operand_parts operand in
      lit ''..'' \<notin> set (split_on SLASH operand)
      \<and> (cs \<noteq> [] \<longrightarrow> hd cs \<notin> set VIEW_URL_RESERVED_NAMES)
      \<and> \<not> prefix ds cs \<and> (removal \<and> cs \<noteq> [] \<longrightarrow> \<not> prefix cs ds))"

lemma check_operands_iff:
  assumes dir: "import_dir config = display_path ds" "list_all plain_segment ds" "ds \<noteq> []"
  shows "check_operands config ops = Inr () \<longleftrightarrow> (\<forall>(operand, removal) \<in> set ops. operand_allowed ds removal operand)"
proof (induction ops)
  case (Cons op ops)
  obtain operand removal where op: "op = (operand, removal)" by fastforce
  define cs where "cs = operand_parts operand"
  have plain: "list_all plain_segment cs" by (simp add: cs_def operand_parts_plain)
  have anc: "is_import_dir_ancestor config (display_path cs) \<longleftrightarrow> strict_prefix cs ds" if "cs \<noteq> []"
    using is_same_or_under_display [OF dir(2) plain that] display_path_root [OF plain]
      display_path_inj [OF plain dir(2)] that
    by (auto simp: is_import_dir_ancestor_def dir(1) strict_prefix_def)
  show ?case
    using Cons.IH is_same_or_under_display [OF plain dir(2,3)] reserved_first_display [OF plain]
      display_path_root [OF plain] anc
    by (auto simp: op operand_path_eq operand_allowed_def Let_def in_import_namespace_def dir(1)
        strict_prefix_def simp flip: cs_def)
qed simp

lemma check_write_operands_iff:
  assumes "import_dir config = display_path ds" "list_all plain_segment ds" "ds \<noteq> []"
  shows "check_write_operands config written removed = Inr () \<longleftrightarrow>
    (\<forall>operand \<in> set written. operand_allowed ds False operand)
    \<and> (\<forall>operand \<in> set removed. operand_allowed ds True operand)"
  unfolding check_write_operands_def check_operands_iff [OF assms] by auto

section \<open>The configuration check gives the policy's assumption\<close>

lemma validate_monorepo_path_shape_dir:
  assumes "validate_monorepo_path_shape roots dir = Inr ()"
  shows "\<exists>ds. dir = display_path ds \<and> list_all valid_component ds \<and> ds \<noteq> [] \<and> hd ds \<in> set roots"
proof -
  have ok: "dir \<noteq> lit ''/''" "canonicalize_mono_ref_path dir = Inr dir"
    "hd (split_on SLASH (drop 1 dir)) \<in> set roots"
    using assms by (auto simp: validate_monorepo_path_shape_def bindR_eq_Inr Let_def split: if_splits)
  obtain ds where ds: "dir = display_path ds" "list_all valid_component ds"
    using canonicalize_mono_ref_path_Inr [OF ok(2)] by blast
  have "ds \<noteq> []" using ok(1) ds(1) by (auto simp: display_path_def)
  with ds ok(3) show ?thesis
    using first_component_display [OF valid_components_plain [OF ds(2)]] by auto
qed

lemma check_root_dirs_not_reserved:
  "check_root_dirs i seen names = Inr () \<Longrightarrow> name \<in> set names \<Longrightarrow> name \<notin> set VIEW_URL_RESERVED_NAMES"
  by (induction i seen names rule: check_root_dirs.induct) (auto split: if_splits)

end
