(* ===== verification/Policy_Properties.thy ===== *)
theory Policy_Properties
  imports Path_Policy
begin

text \<open>
  The properties of the path policy. A configuration is taken as accepted by
  \<open>validate_monorepo_path_shape\<close>; the example configuration of the witnesses is accepted.
\<close>

definition example_config :: MonoConfig where
  "example_config = \<lparr>import_dir = lit ''/t'', root_dirs = [lit ''t'', lit ''p'']\<rparr>"

lemma example_config_accepted:
  "validate_monorepo_path_shape (root_dirs example_config) (import_dir example_config) = Inr ()"
  by code_simp

text \<open>C13: under an accepted configuration, a path may be created exactly when it is the display form
  of a non-empty list of valid components without NUL, untouched by trimming, whose first component
  is a configured root, and that is not the import directory or below it, component by component.\<close>

theorem creation_policy:
  assumes "validate_monorepo_path_shape (root_dirs config) (import_dir config) = Inr ()"
  shows "\<exists>ds. import_dir config = display_path ds \<and> ds \<noteq> [] \<and>
    (\<forall>path. classify_creation_path config path = Inr () \<longleftrightarrow>
      (\<exists>cs. path = display_path cs \<and> cs \<noteq> [] \<and> list_all valid_component cs \<and> NUL \<notin> set path
        \<and> trim path = path \<and> hd cs \<in> set (root_dirs config) \<and> \<not> prefix ds cs))"
proof -
  obtain ds where ds: "import_dir config = display_path ds" "list_all valid_component ds" "ds \<noteq> []"
    using validate_monorepo_path_shape_dir [OF assms] by blast
  have reserved: "r \<notin> set VIEW_URL_RESERVED_NAMES" if "r \<in> set (root_dirs config)" for r
    using assms check_root_dirs_not_reserved that
    by (auto simp: validate_monorepo_path_shape_def bindR_eq_Inr)
  have "classify_creation_path config path = Inr () \<longleftrightarrow>
      (\<exists>cs. path = display_path cs \<and> creatable config ds cs)" for path
    by (rule classify_creation_path_iff [OF ds(1) valid_components_plain [OF ds(2)] ds(3)])
  then show ?thesis
    using ds reserved by (intro exI [of _ ds]) (auto simp: creatable_def nul_display_path)
qed

theorem creation_policy_witness:
  "classify_creation_path example_config (lit ''/p/a'') = Inr ()
   \<and> (\<exists>ds cs. import_dir example_config = display_path ds \<and> lit ''/p/a'' = display_path cs
        \<and> list_all valid_component cs \<and> \<not> prefix ds cs)"
proof -
  have "classify_creation_path example_config (lit ''/p/a'') = Inr ()" by code_simp
  with creation_policy [OF example_config_accepted] show ?thesis by blast
qed

text \<open>C26: under an accepted configuration, the write guard passes exactly when every written and
  every removed operand has no dot-dot segment, does not start with a name reserved for view URLs,
  is not in the import directory, and no removed operand is an ancestor of the import directory.\<close>

theorem write_operand_policy:
  assumes "validate_monorepo_path_shape (root_dirs config) (import_dir config) = Inr ()"
  shows "\<exists>ds. import_dir config = display_path ds \<and> ds \<noteq> [] \<and>
    (\<forall>written removed. check_write_operands config written removed = Inr () \<longleftrightarrow>
      (\<forall>operand \<in> set written. operand_allowed ds False operand)
      \<and> (\<forall>operand \<in> set removed. operand_allowed ds True operand))"
proof -
  obtain ds where ds: "import_dir config = display_path ds" "list_all valid_component ds" "ds \<noteq> []"
    using validate_monorepo_path_shape_dir [OF assms] by blast
  then show ?thesis
    using check_write_operands_iff [OF ds(1) valid_components_plain [OF ds(2)] ds(3)] by blast
qed

theorem write_operand_policy_witness:
  "check_write_operands example_config [lit ''/p/a'', lit ''p//./b''] [lit ''/p''] = Inr ()
   \<and> (\<exists>ds. import_dir example_config = display_path ds
        \<and> operand_allowed ds False (lit ''/p/a'') \<and> operand_allowed ds True (lit ''/p''))"
proof -
  have ok: "check_write_operands example_config [lit ''/p/a'', lit ''p//./b''] [lit ''/p''] = Inr ()"
    by code_simp
  obtain ds where ds: "import_dir example_config = display_path ds"
    "\<forall>written removed. check_write_operands example_config written removed = Inr () \<longleftrightarrow>
      (\<forall>operand \<in> set written. operand_allowed ds False operand)
      \<and> (\<forall>operand \<in> set removed. operand_allowed ds True operand)"
    using write_operand_policy [OF example_config_accepted] by blast
  from ds(2) [rule_format, of "[lit ''/p/a'', lit ''p//./b'']" "[lit ''/p'']"] ok ds(1)
  show ?thesis by auto
qed

text \<open>C27: under an accepted configuration, a path passes the ImportRepo leaf check exactly when it
  is a canonical path without NUL strictly below the import directory.\<close>

theorem import_leaf_policy:
  assumes "validate_monorepo_path_shape (root_dirs config) (import_dir config) = Inr ()"
  shows "\<exists>ds. import_dir config = display_path ds \<and>
    (\<forall>path. check_import_repo_leaf config path = Inr () \<longleftrightarrow>
      (\<exists>cs. path = display_path cs \<and> list_all valid_component cs \<and> NUL \<notin> set path
        \<and> trim path = path \<and> strict_prefix ds cs))"
proof -
  obtain ds where ds: "import_dir config = display_path ds" "list_all valid_component ds" "ds \<noteq> []"
    using validate_monorepo_path_shape_dir [OF assms] by blast
  then show ?thesis
    using check_import_repo_leaf_iff [OF ds(1) valid_components_plain [OF ds(2)] ds(3)] by blast
qed

theorem import_leaf_policy_witness:
  "check_import_repo_leaf example_config (lit ''/t/a'') = Inr ()
   \<and> (\<exists>ds cs. import_dir example_config = display_path ds \<and> lit ''/t/a'' = display_path cs \<and> strict_prefix ds cs)"
proof -
  have "check_import_repo_leaf example_config (lit ''/t/a'') = Inr ()" by code_simp
  with import_leaf_policy [OF example_config_accepted] show ?thesis by blast
qed

text \<open>C28: a path is a fixed point of canonicalization exactly when it is the display form of a list
  of valid components that trimming leaves alone, and everything canonicalization returns is the
  display form of valid components.\<close>

theorem canonical_ref_paths:
  "(canonicalize_mono_ref_path c = Inr c \<longleftrightarrow>
      (\<exists>cs. list_all valid_component cs \<and> c = display_path cs \<and> trim c = c))
   \<and> (case canonicalize_mono_ref_path path of Inl _ \<Rightarrow> True
      | Inr r \<Rightarrow> \<exists>cs. list_all valid_component cs \<and> r = display_path cs)"
  using canonicalize_fixed_iff canonicalize_mono_ref_path_Inr
  by (auto split: sum.splits)


end
