(* ===== verification/Filter_Validate.thy ===== *)
theory Filter_Validate
  imports Path_Policy
begin

text \<open>
  Registration checks of a view filter (\<open>src/ceres/view/filter/validate.rs\<close>): size limits, overlap
  of compose members on the source and on the destination side, namespaces, and whether the view
  accepts pushes.
\<close>

record ScaleLimits =
  limit_members :: nat
  limit_selectors :: nat
  limit_k :: nat

definition REGISTER_SCALE_LIMITS :: ScaleLimits where
  "REGISTER_SCALE_LIMITS = \<lparr>limit_members = 64, limit_selectors = 256, limit_k = 64\<rparr>"

datatype ScaleLimitKind = Members | Selectors | K

datatype RegistrationRejection =
    Trivial
  | ScaleLimit ScaleLimitKind nat nat
  | ComposeOverlap rstr rstr
  | ImportNamespace rstr
  | ReservedFirstSegment rstr

record RegistrationCheck =
  check_src_paths :: "rstr list"
  push_enabled :: bool

text \<open>\<open>usize::saturating_add\<close> on the 64-bit targets of the program.\<close>

definition saturating_add_usize :: "nat \<Rightarrow> nat \<Rightarrow> nat" where
  "saturating_add_usize a b = nat (min (int a + int b) 18446744073709551615)"

definition scale_limit :: "ScaleLimitKind \<Rightarrow> nat \<Rightarrow> RegistrationRejection" where
  "scale_limit which limit = ScaleLimit which limit (saturating_add_usize limit 1)"

fun count_scale :: "Filter \<Rightarrow> nat \<times> nat" where
  "count_scale (Exclude selectors) = (0, length selectors)"
| "count_scale (Compose members) =
     fold (\<lambda>(nested_members, nested_selectors) (member_count, selector_count).
         (member_count + nested_members, selector_count + nested_selectors))
       (map count_scale members) (length members, 0)"
| "count_scale (Chain ops) =
     fold (\<lambda>(nested_members, nested_selectors) (member_count, selector_count).
         (member_count + nested_members, selector_count + nested_selectors))
       (map count_scale ops) (0, 0)"
| "count_scale (Subdir _) = (0, 0)"
| "count_scale (Prefix _) = (0, 0)"
| "count_scale Nop = (0, 0)"
| "count_scale Empty = (0, 0)"

fun overlap_in_windows :: "path list \<Rightarrow> (rstr \<times> rstr) option" where
  "overlap_in_windows (a # b # paths) =
     (if is_prefix a b then Some (display_path a, display_path b) else overlap_in_windows (b # paths))"
| "overlap_in_windows _ = None"

definition first_overlap :: "path list \<Rightarrow> (rstr \<times> rstr) option" where
  "first_overlap paths = overlap_in_windows (sort paths)"

definition push_enabled_for :: "rstr \<Rightarrow> MonoConfig \<Rightarrow> bool" where
  "push_enabled_for path config \<longleftrightarrow>
     path \<noteq> lit ''/'' \<and> \<not> in_import_namespace config path \<and> \<not> is_import_dir_ancestor config path
     \<and> (case path_segments path of [] \<Rightarrow> False | a # _ \<Rightarrow> a \<in> set (root_dirs config))"

fun check_groups :: "path list list \<Rightarrow> RegistrationRejection + unit" where
  "check_groups [] = Ok ()"
| "check_groups (grp # groups) =
     (case first_overlap grp of Some (a, b) \<Rightarrow> Err (ComposeOverlap a b)
      | None \<Rightarrow> check_groups groups)"

fun check_namespaces :: "MonoConfig \<Rightarrow> rstr list \<Rightarrow> RegistrationRejection + unit" where
  "check_namespaces config [] = Ok ()"
| "check_namespaces config (path # paths) =
     (if in_import_namespace config path then Err (ImportNamespace path)
      else if (case path_segments path of [] \<Rightarrow> False | a # _ \<Rightarrow> a \<in> set VIEW_URL_RESERVED_NAMES)
        then Err (ReservedFirstSegment path)
      else check_namespaces config paths)"

text \<open>\<open>ValidatePanic\<close> is a failing \<open>assert!\<close> of \<open>ViewPath::new\<close> inside canonicalization.\<close>

datatype validate_fail = Rejected RegistrationRejection | ValidatePanic

definition validate_with_limits ::
    "Filter \<Rightarrow> MonoConfig \<Rightarrow> ScaleLimits \<Rightarrow> validate_fail + RegistrationCheck" where
  "validate_with_limits filter_in config limits =
     (case canonicalize filter_in of None \<Rightarrow> Err ValidatePanic | Some f \<Rightarrow>
      if f = Nop \<or> f = Empty then Err (Rejected Trivial)
      else let (members, selectors) = count_scale f in
      if members > limit_members limits
        then Err (Rejected (ScaleLimit Members (limit_members limits) members))
      else if selectors > limit_selectors limits
        then Err (Rejected (ScaleLimit Selectors (limit_selectors limits) selectors))
      else
        bindR (map_err (\<lambda>_. Rejected (scale_limit K (limit_k limits)))
          (src_paths_limited f (limit_k limits))) (\<lambda>src.
        bindR (map_err (\<lambda>_. Rejected (scale_limit K (limit_k limits)))
          (all_compose_source_paths_limited f (limit_k limits))) (\<lambda>source_groups.
        case invert f of None \<Rightarrow> Err ValidatePanic | Some inverted \<Rightarrow>
        bindR (map_err (\<lambda>_. Rejected (scale_limit K (limit_k limits)))
          (all_compose_source_paths_limited inverted (limit_k limits))) (\<lambda>destination_groups.
        bindR (map_err Rejected (check_groups destination_groups)) (\<lambda>_.
        bindR (map_err Rejected (check_groups source_groups)) (\<lambda>_.
        if src = [] then Err (Rejected Trivial)
        else bindR (map_err Rejected (check_namespaces config src)) (\<lambda>_.
          Ok \<lparr>check_src_paths = src,
              push_enabled = list_all (\<lambda>path. push_enabled_for path config) src\<rparr>))))))) "

definition validate_for_registration :: "Filter \<Rightarrow> MonoConfig \<Rightarrow> validate_fail + RegistrationCheck" where
  "validate_for_registration f config = validate_with_limits f config REGISTER_SCALE_LIMITS"


section \<open>Overlap\<close>

definition no_overlap :: "path list \<Rightarrow> bool" where
  "no_overlap paths \<longleftrightarrow> (\<forall>x y. prefix x y \<longrightarrow> \<not> {#x, y#} \<subseteq># mset paths)"

lemma pair_in_Cons:
  "{#x, y#} \<subseteq># mset (z # zs) \<longleftrightarrow>
     x = z \<and> y \<in> set zs \<or> y = z \<and> x \<in> set zs \<or> {#x, y#} \<subseteq># mset zs"
proof -
  have pair: "{#x, y#} \<subseteq># M \<longleftrightarrow> (if x = y then 2 \<le> count M x else x \<in># M \<and> y \<in># M)" for M :: "'a multiset"
  proof (cases "x = y")
    case False
    then show ?thesis by (auto simp: subseteq_mset_def)
  qed (auto simp: subseteq_mset_def numeral_2_eq_2)
  have "y \<in> set zs" if "Suc (Suc 0) \<le> count (mset zs) y"
    using that by (metis count_mset_0_iff not_less_eq_eq le0)
  then show ?thesis unfolding pair by (auto simp: numeral_2_eq_2)
qed

lemma no_overlap_Cons:
  "no_overlap (z # zs) \<longleftrightarrow> (\<forall>y \<in> set zs. \<not> prefix z y \<and> \<not> prefix y z) \<and> no_overlap zs"
  unfolding no_overlap_def pair_in_Cons by blast

lemma overlap_in_windows_None:
  "sorted paths \<Longrightarrow> overlap_in_windows paths = None \<longleftrightarrow> no_overlap paths"
proof (induction paths rule: overlap_in_windows.induct)
  case (1 a b paths)
  have le: "a \<le> b" "b \<le> y" if "y \<in> set (b # paths)" for y using "1.prems" that by auto
  have "(\<forall>y \<in> set (b # paths). \<not> prefix a y \<and> \<not> prefix y a) \<longleftrightarrow> \<not> prefix a b"
  proof
    assume no: "\<not> prefix a b"
    show "\<forall>y \<in> set (b # paths). \<not> prefix a y \<and> \<not> prefix y a"
    proof (intro ballI conjI notI)
      fix y assume y: "y \<in> set (b # paths)" and "prefix a y"
      then show False using prefix_between [of a y b] le [OF y] no by blast
    next
      fix y assume y: "y \<in> set (b # paths)" and "prefix y a"
      from prefix_imp_le [OF this(2)] have "y \<le> a" .
      with le [OF y] have "a = b" by simp
      with no show False by simp
    qed
  qed simp
  then show ?case
    using 1 by (auto simp: is_prefix_iff no_overlap_Cons [of a "b # paths"])
qed (simp_all add: no_overlap_def no_overlap_Cons)

lemma first_overlap_None: "first_overlap paths = None \<longleftrightarrow> no_overlap paths"
  using overlap_in_windows_None [of "sort paths"] by (simp add: first_overlap_def no_overlap_def)

lemma overlap_in_windows_Some:
  "overlap_in_windows paths = Some (a, b) \<Longrightarrow>
   \<exists>x y. prefix x y \<and> {#x, y#} \<subseteq># mset paths \<and> a = display_path x \<and> b = display_path y"
proof (induction paths rule: overlap_in_windows.induct)
  case (1 x y paths)
  show ?case
  proof (cases "is_prefix x y")
    case True
    with 1 show ?thesis by (intro exI [of _ x] exI [of _ y]) (auto simp: is_prefix_iff pair_in_Cons)
  next
    case False
    with 1 obtain u v where "prefix u v" "{#u, v#} \<subseteq># mset (y # paths)" "a = display_path u" "b = display_path v"
      by auto
    then show ?thesis using pair_in_Cons [of u v x "y # paths"] by blast
  qed
qed simp_all

lemma first_overlap_Some:
  "first_overlap paths = Some (a, b) \<Longrightarrow>
   \<exists>x y. prefix x y \<and> {#x, y#} \<subseteq># mset paths \<and> a = display_path x \<and> b = display_path y"
  using overlap_in_windows_Some [of "sort paths" a b] by (simp add: first_overlap_def)

section \<open>The compose groups\<close>

fun compose_nodes :: "Filter \<Rightarrow> Filter list list" where
  "compose_nodes (Compose ms) = ms # concat (map compose_nodes ms)"
| "compose_nodes (Chain ops) = concat (map compose_nodes ops)"
| "compose_nodes (Subdir _) = []"
| "compose_nodes (Prefix _) = []"
| "compose_nodes (Exclude _) = []"
| "compose_nodes Nop = []"
| "compose_nodes Empty = []"

definition member_paths :: "Filter list \<Rightarrow> path list" where
  "member_paths ms = concat (map (\<lambda>m. map path_segments (src_paths m)) ms)"

lemma member_source_paths_Inr:
  "member_source_paths k ms = Inr ps \<Longrightarrow> ps = member_paths ms"
  by (induction ms arbitrary: ps) (auto simp: member_paths_def bindR_eq_Inr dest!: src_paths_limited_sound)

lemma collect_Inr:
  "collect_compose_source_paths_limited k f = Inr gs \<Longrightarrow> gs = map member_paths (compose_nodes f)"
  "collect_all k fs = Inr gs \<Longrightarrow> gs = map member_paths (concat (map compose_nodes fs))"
  by (induction k f and k fs arbitrary: gs and gs rule: collect_compose_source_paths_limited_collect_all.induct)
    (auto simp: bindR_eq_Inr dest: member_source_paths_Inr)

lemma check_groups_Inr: "check_groups gs = Inr () \<longleftrightarrow> list_all no_overlap gs"
  by (induction gs) (auto simp: first_overlap_None [symmetric] split: option.splits)

lemma check_namespaces_Inr:
  "check_namespaces config paths = Inr () \<longleftrightarrow> list_all (\<lambda>path. \<not> in_import_namespace config path
     \<and> (path_segments path \<noteq> [] \<longrightarrow> hd (path_segments path) \<notin> set VIEW_URL_RESERVED_NAMES)) paths"
  by (induction paths) (auto split: list.splits)

section \<open>What an accepted filter satisfies\<close>

lemma validate_Inr:
  assumes "validate_with_limits f0 config limits = Inr chk"
  shows "\<exists>f inv. canonicalize f0 = Some f \<and> invert f = Some inv \<and> f \<noteq> Nop \<and> f \<noteq> Empty
    \<and> fst (count_scale f) \<le> limit_members limits \<and> snd (count_scale f) \<le> limit_selectors limits
    \<and> check_src_paths chk = src_paths f \<and> src_paths f \<noteq> [] \<and> length (src_paths f) \<le> limit_k limits
    \<and> list_all no_overlap (map member_paths (compose_nodes f))
    \<and> list_all no_overlap (map member_paths (compose_nodes inv))
    \<and> check_namespaces config (src_paths f) = Inr ()
    \<and> push_enabled chk = list_all (\<lambda>path. push_enabled_for path config) (src_paths f)"
  using assms
  by (auto simp: validate_with_limits_def bindR_eq_Inr Let_def check_groups_Inr
      all_compose_source_paths_limited_def
      dest!: src_paths_limited_sound collect_Inr split: option.splits if_splits prod.splits)

lemma validate_total:
  assumes "wf_filter f"
  shows "validate_with_limits f config limits \<noteq> Inl ValidatePanic"
proof -
  obtain g where g: "canonicalize f = Some g" "canonical g"
    using canonicalize_ok [OF assms order_refl] by (auto simp: bounded_def)
  moreover obtain h where "invert g = Some h" using invert_canonical [OF g(2)] by blast
  ultimately show ?thesis
    by (auto simp: validate_with_limits_def bindR_eq_Inl Let_def map_err_def
        split: prod.splits if_splits sum.splits)
qed

end
