(* ===== verification/Validate_Properties.thy ===== *)
theory Validate_Properties
  imports Filter_Validate
begin

text \<open>
  The properties of filter inversion, of source paths and of the registration checks.
\<close>

text \<open>C23: the source paths of a filter with valid paths are the displayed minimal elements of the
  preimage of the root, each once and in order: the normalizations inside the computation change
  nothing. If the limited computation succeeds, it returns exactly these paths.\<close>

theorem src_paths_exact:
  assumes "wf_filter f"
  shows "set (src_paths f) = display_path ` minimal_paths (pull_set f {[]})
    \<and> sorted (src_paths f) \<and> distinct (src_paths f)
    \<and> (case src_paths_limited f k of Inl _ \<Rightarrow> True | Inr ps \<Rightarrow> ps = src_paths f \<and> length ps \<le> k)"
proof -
  have set: "set (pull f [[]]) = minimal_paths (pull_set f {[]})" using set_pull [of f "[[]]"] by simp
  have "list_all plain_segment p" if "p \<in> set (pull f [[]])" for p
    using that set pull_set_valid [OF assms, of "{[]}"]
    by (auto simp: minimal_paths_def intro!: valid_plain_segment)
  then have "inj_on display_path (set (pull f [[]]))" by (auto intro!: inj_onI dest: display_path_inj)
  moreover have "distinct (pull f [[]])" using normalized_paths_spec [of "pull f [[]]"] by simp
  ultimately have "distinct (src_paths f)" by (simp add: src_paths_eq distinct_map)
  then show ?thesis
    using set src_paths_limited_sound [of f k] by (auto simp: src_paths_eq split: sum.splits)
qed

theorem src_paths_exact_witness:
  "set (src_paths (Compose [Subdir (ViewPath [lit ''a'']), Subdir (ViewPath [lit ''a'', lit ''b''])]))
     = display_path ` minimal_paths
         (pull_set (Compose [Subdir (ViewPath [lit ''a'']), Subdir (ViewPath [lit ''a'', lit ''b''])]) {[]})"
proof -
  have "wf_filter (Compose [Subdir (ViewPath [lit ''a'']), Subdir (ViewPath [lit ''a'', lit ''b''])])"
    by code_simp
  from src_paths_exact [OF this] show ?thesis by blast
qed

text \<open>C29: inversion is an involution on canonical filters.\<close>

theorem invert_involutive:
  assumes "canonical f"
  shows "\<exists>g. invert f = Some g \<and> canonical g \<and> invert g = Some f"
  using assms by (rule invert_involution)

theorem invert_involutive_witness:
  "\<exists>g. invert (Chain [Subdir (ViewPath [lit ''a'']), Prefix (ViewPath [lit ''b''])]) = Some g
     \<and> invert g = Some (Chain [Subdir (ViewPath [lit ''a'']), Prefix (ViewPath [lit ''b''])])"
proof -
  have "canonical (Chain [Subdir (ViewPath [lit ''a'']), Prefix (ViewPath [lit ''b''])])" by code_simp
  from invert_involutive [OF this] show ?thesis by blast
qed

text \<open>C24: comparing neighbours in sorted order finds every overlap: no overlap is reported exactly
  when no path of the list is a prefix of another occurrence, and a reported pair is one.\<close>

theorem first_overlap_correct:
  "case first_overlap paths of
     None \<Rightarrow> \<nexists>x y. prefix x y \<and> {#x, y#} \<subseteq># mset paths
   | Some (a, b) \<Rightarrow> \<exists>x y. prefix x y \<and> {#x, y#} \<subseteq># mset paths
       \<and> a = display_path x \<and> b = display_path y"
  using first_overlap_None [of paths] first_overlap_Some [of paths]
  by (auto simp: no_overlap_def split: option.splits)



end
