(* ===== verification/Queue_Db.thy ===== *)
theory Queue_Db
  imports Mega_Prelude
begin

text \<open>
  The tables behind the mono write queue: \<open>push_queue\<close>, \<open>queue_control\<close>, the refs and tombstones it
  moves, and the publication receipts (entities under \<open>src/callisto/\<close>, schema under
  \<open>src/jupiter/migration/\<close>). A table is the list of its rows in insertion order, a nullable column
  is an option, ids and timestamps are integers, and text is \<open>rstr\<close>. The database engine is
  represented by what the statements of the program do to these lists; a failing connection is
  not modelled.
\<close>

section \<open>JSON payloads\<close>

text \<open>\<open>serde_json::Value\<close>: numbers are unsigned, negative or the shortest text of a float; an object
  is the list of its entries in key order (\<open>BTreeMap\<close>).\<close>

datatype json_number = PosInt int | NegInt int | FloatText rstr

datatype json =
    JNull
  | JBool bool
  | JNumber json_number
  | JString rstr
  | JArray "json list"
  | JObject "(rstr \<times> json) list"

fun json_get :: "rstr \<Rightarrow> json \<Rightarrow> json option" where
  "json_get key (JObject entries) = map_of entries key"
| "json_get key _ = None"

fun json_as_u64 :: "json \<Rightarrow> int option" where
  "json_as_u64 (JNumber (PosInt n)) = Some n"
| "json_as_u64 _ = None"

section \<open>The queue\<close>

datatype PushQueueKind = Push | Merge | Attach

datatype PushQueueStatus = Queued | Running | Done | Failed | Cancelled

datatype PushQueueFailure =
    PushFailure | MergeFailure | AttachFailure | ConflictFailure | QueueBypassDetected
  | WaitTimeout | ClaimLostFailure | SystemError

datatype PushQueuePending = RequeueConflict

record push_row =
  q_id :: int
  q_kind :: PushQueueKind
  q_operation_id :: rstr
  q_path :: rstr
  q_old_id :: rstr
  q_new_id :: rstr
  q_payload :: json
  q_landed_commit_id :: "rstr option"
  q_status :: PushQueueStatus
  q_requester :: "rstr option"
  q_failure_type :: "PushQueueFailure option"
  q_error_message :: "rstr option"
  q_heartbeat_at :: int
  q_superseded_by :: "int option"
  q_expected_commit_hash :: "rstr option"
  q_expected_tree_hash :: "rstr option"
  q_expected_native_sequence :: "int option"
  q_expected_native_epoch :: "int option"
  q_expected_native_certificate :: "int option"
  q_pending_action :: "PushQueuePending option"
  q_enqueued_at :: int
  q_started_at :: "int option"
  q_finished_at :: "int option"
  q_updated_at :: int

record queue_control =
  c_paused :: bool
  c_hard_stopped :: bool
  c_last_policy :: rstr
  c_max_depth :: int
  c_published_version :: int
  c_updated_at :: int

record authz_outbox_row =
  a_id :: int
  a_version :: "int option"
  a_dirty :: bool
  a_replayed_at :: "int option"

section \<open>Refs and tombstones\<close>

definition MEGA_BRANCH_NAME :: rstr where
  "MEGA_BRANCH_NAME = lit ''refs/heads/main''"

definition ZERO_ID :: rstr where
  "ZERO_ID = replicate 40 48"

definition is_protocol_zero_id :: "rstr \<Rightarrow> bool" where
  "is_protocol_zero_id oid \<longleftrightarrow>
     (byte_len oid = 40 \<or> byte_len oid = 64) \<and> list_all (\<lambda>b. b = 48) oid"

record ref_row =
  ref_id :: int
  ref_path :: rstr
  ref_name :: rstr
  ref_commit_hash :: rstr
  ref_tree_hash :: rstr
  ref_is_cl :: bool

record tombstone_row =
  t_path :: rstr
  t_ref_name :: rstr
  t_last_commit_hash :: rstr
  t_last_tree_hash :: rstr
  t_deleted_at :: int

text \<open>Stored git objects, as far as the queue reads them: a tree is its items, a commit its tree.\<close>

record tree_item_row =
  ti_name :: rstr
  ti_is_tree :: bool
  ti_id :: rstr

section \<open>Publication receipts\<close>

record mst2_publication =
  p_id :: int
  p_operation_id :: rstr
  p_namespace :: rstr
  p_sequence :: int
  p_old_oid :: rstr
  p_new_oid :: rstr
  p_writer_epoch :: int
  p_writer_kind :: rstr
  p_request_digest :: "rstr option"
  p_request_digest_version :: "int option"
  p_native_certificate_version :: "int option"

record mst2_publication_outbox =
  o_id :: int
  o_operation_id :: rstr
  o_namespace :: rstr
  o_sequence :: int
  o_state :: rstr

record mst2_queue_noop_receipt =
  n_id :: int
  n_operation_id :: rstr
  n_namespace :: rstr
  n_request_digest :: rstr
  n_request_digest_version :: int
  n_writer_epoch :: int
  n_writer_kind :: rstr
  n_observed_sequence :: int
  n_observed_root_commit :: rstr
  n_observed_root_tree :: rstr
  n_landed_commit_id :: rstr

record mst2_native_publication =
  np_receipt_id :: int
  np_namespace :: rstr
  np_instance_id :: rstr
  np_sequence :: int
  np_writer_epoch :: int
  np_old_root_commit :: rstr
  np_old_root_tree :: rstr
  np_root_commit :: rstr
  np_root_tree :: rstr
  np_origin_path :: rstr
  np_origin_ref :: rstr
  np_old_path_commit :: "rstr option"
  np_old_path_tree :: "rstr option"
  np_path_commit :: rstr
  np_path_tree :: rstr

record mst2_native_head =
  h_instance_id :: rstr
  h_sequence :: int
  h_writer_epoch :: int
  h_root_commit :: rstr
  h_root_tree :: rstr
  h_state :: rstr
  h_certificate_receipt_id :: "int option"

record mst2_namespace_seq =
  s_namespace :: rstr
  s_sequence :: int
  s_epoch :: int

section \<open>The database\<close>

text \<open>\<open>control\<close> is the single row of \<open>queue_control\<close>, \<open>native_head\<close> the row of namespace \<open>/\<close>;
  \<open>next_push_id\<close> and \<open>next_publication_id\<close> are the identity sequences.\<close>

record db =
  push_queue :: "push_row list"
  next_push_id :: int
  control :: "queue_control option"
  refs :: "ref_row list"
  tombstones :: "tombstone_row list"
  trees :: "(rstr \<times> tree_item_row list) list"
  commits :: "(rstr \<times> rstr) list"
  blob_paths :: "(rstr \<times> int option) list"
  authz_outbox :: "authz_outbox_row list"
  namespace_seq :: "mst2_namespace_seq list"
  publications :: "mst2_publication list"
  next_publication_id :: int
  publication_outbox :: "mst2_publication_outbox list"
  noop_receipts :: "mst2_queue_noop_receipt list"
  native_head :: "mst2_native_head option"
  native_publications :: "mst2_native_publication list"

text \<open>\<open>UPDATE ... WHERE\<close> and its number of affected rows.\<close>

definition update_where :: "('a \<Rightarrow> bool) \<Rightarrow> ('a \<Rightarrow> 'a) \<Rightarrow> 'a list \<Rightarrow> 'a list" where
  "update_where P f rows = map (\<lambda>r. if P r then f r else r) rows"

definition rows_affected :: "('a \<Rightarrow> bool) \<Rightarrow> 'a list \<Rightarrow> nat" where
  "rows_affected P rows = length (filter P rows)"

definition update_queue :: "(push_row \<Rightarrow> bool) \<Rightarrow> (push_row \<Rightarrow> push_row) \<Rightarrow> db \<Rightarrow> nat \<times> db" where
  "update_queue P f d =
     (rows_affected P (push_queue d), d\<lparr>push_queue := update_where P f (push_queue d)\<rparr>)"

definition find_push :: "int \<Rightarrow> db \<Rightarrow> push_row option" where
  "find_push i d = find (\<lambda>r. q_id r = i) (push_queue d)"

section \<open>Ref reads and writes (\<open>mono_storage.rs\<close>)\<close>

definition is_main_ref :: "rstr \<Rightarrow> ref_row \<Rightarrow> bool" where
  "is_main_ref path r \<longleftrightarrow> ref_path r = path \<and> ref_name r = MEGA_BRANCH_NAME \<and> \<not> ref_is_cl r"

datatype mega_error = Other rstr

definition get_native_main_ref_in_txn :: "rstr \<Rightarrow> db \<Rightarrow> mega_error + ref_row option" where
  "get_native_main_ref_in_txn path d =
     (case filter (is_main_ref path) (refs d) of
        [] \<Rightarrow> Ok None
      | [r] \<Rightarrow> Ok (Some r)
      | _ \<Rightarrow> Err (Other (lit ''selected native ref is ambiguous'')))"

definition get_main_ref_in_txn :: "rstr \<Rightarrow> db \<Rightarrow> ref_row option" where
  "get_main_ref_in_txn path d =
     find (\<lambda>r. ref_path r = path \<and> ref_name r = MEGA_BRANCH_NAME) (refs d)"

definition get_tombstone :: "rstr \<Rightarrow> rstr \<Rightarrow> db \<Rightarrow> tombstone_row option" where
  "get_tombstone path name d = find (\<lambda>t. t_path t = path \<and> t_ref_name t = name) (tombstones d)"

definition upsert_tombstone_on :: "int \<Rightarrow> rstr \<Rightarrow> rstr \<Rightarrow> rstr \<Rightarrow> rstr \<Rightarrow> db \<Rightarrow> db" where
  "upsert_tombstone_on now path name commit tree d =
     (let same = (\<lambda>t. t_path t = path \<and> t_ref_name t = name) in
      if list_ex same (tombstones d) then
        d\<lparr>tombstones := update_where same (\<lambda>t. t\<lparr>t_last_commit_hash := commit,
            t_last_tree_hash := tree, t_deleted_at := now\<rparr>) (tombstones d)\<rparr>
      else
        d\<lparr>tombstones := tombstones d @ [\<lparr>t_path = path, t_ref_name = name,
            t_last_commit_hash = commit, t_last_tree_hash = tree, t_deleted_at = now\<rparr>]\<rparr>)"

definition tombstone_and_delete_main_ref_in_txn :: "int \<Rightarrow> rstr \<Rightarrow> db \<Rightarrow> bool \<times> db" where
  "tombstone_and_delete_main_ref_in_txn now path d =
     (case get_main_ref_in_txn path d of
        None \<Rightarrow> (False, d)
      | Some r \<Rightarrow>
          let d' = upsert_tombstone_on now path MEGA_BRANCH_NAME (ref_commit_hash r) (ref_tree_hash r) d
          in (True, d'\<lparr>refs := filter (\<lambda>x. ref_id x \<noteq> ref_id r) (refs d')\<rparr>))"

definition cas_update_root_main_ref_in_txn ::
    "rstr option \<Rightarrow> rstr option \<Rightarrow> rstr \<Rightarrow> rstr \<Rightarrow> db \<Rightarrow> bool \<times> db" where
  "cas_update_root_main_ref_in_txn expected_commit expected_tree new_commit new_tree d =
     (let hit = (\<lambda>r. is_main_ref (lit ''/'') r \<and> Some (ref_commit_hash r) = expected_commit
                   \<and> Some (ref_tree_hash r) = expected_tree) in
      (rows_affected hit (refs d) = 1,
       d\<lparr>refs := update_where hit
           (\<lambda>r. r\<lparr>ref_commit_hash := new_commit, ref_tree_hash := new_tree\<rparr>) (refs d)\<rparr>))"

fun resolve_components :: "db \<Rightarrow> rstr \<Rightarrow> rstr list \<Rightarrow> rstr option" where
  "resolve_components d tree_id [] = (if map_of (trees d) tree_id = None then None else Some tree_id)"
| "resolve_components d tree_id (component # components) =
     (case map_of (trees d) tree_id of
        None \<Rightarrow> None
      | Some items \<Rightarrow>
          (case find (\<lambda>x. ti_name x = component) items of
             None \<Rightarrow> None
           | Some item \<Rightarrow>
               if \<not> ti_is_tree item then None else resolve_components d (ti_id item) components))"

definition resolve_path_tree_hash_in_txn :: "rstr \<Rightarrow> rstr \<Rightarrow> db \<Rightarrow> rstr option" where
  "resolve_path_tree_hash_in_txn root_tree path d =
     (if path = [] \<or> path = lit ''/'' then Some root_tree
      else resolve_components d root_tree (filter (\<lambda>c. c \<noteq> []) (split_on SLASH path)))"

end
