(* ===== verification/Publication.thy ===== *)
theory Publication
  imports Queue_Db
begin

text \<open>
  Publication receipts of the trunk queue (\<open>src/jupiter/storage/mst2_publication_storage.rs\<close>) and
  native root certificates (\<open>native_publication_storage.rs\<close>). What comes from other crates is in
  the record \<open>ext\<close>: SHA-256 with hex encoding (\<open>sha2\<close>, \<open>hex\<close>), the scope check of \<open>mst2_codec\<close>, UUID
  normalization (\<open>uuid\<close>) and the object id check of \<open>git_internal\<close>. A failing statement is the
  error \<open>Database\<close>; of these only the overflow of a sequence number is modelled.
\<close>

record ext =
  x_sha256_hex :: "int list \<Rightarrow> rstr"
  x_validate_scope :: "rstr \<Rightarrow> rstr + unit"
  x_uuid :: "rstr \<Rightarrow> rstr option"
  x_uuid_nil :: "rstr \<Rightarrow> bool"
  x_valid_oid :: "rstr \<Rightarrow> bool"

section \<open>Bytes\<close>

fun le_bytes :: "nat \<Rightarrow> int \<Rightarrow> int list" where
  "le_bytes 0 x = []"
| "le_bytes (Suc n) x = x mod 256 # le_bytes n (x div 256)"

text \<open>\<open>str::as_bytes\<close>.\<close>

definition utf8_char :: "rchar \<Rightarrow> int list" where
  "utf8_char c =
     (if c < 128 then [c]
      else if c < 2048 then [192 + c div 64, 128 + c mod 64]
      else if c < 65536 then [224 + c div 4096, 128 + c div 64 mod 64, 128 + c mod 64]
      else [240 + c div 262144, 128 + c div 4096 mod 64, 128 + c div 64 mod 64, 128 + c mod 64])"

definition utf8 :: "rstr \<Rightarrow> int list" where
  "utf8 s = concat (map utf8_char s)"

text \<open>Decimal text of an integer.\<close>

function dec_digits :: "int \<Rightarrow> rstr" where
  "dec_digits n = (if n < 10 then [48 + n] else dec_digits (n div 10) @ [48 + n mod 10])"
  by auto
termination by (relation "measure nat") auto

declare dec_digits.simps [simp del]

definition show_int :: "int \<Rightarrow> rstr" where
  "show_int n = (if n < 0 then HYPHEN # dec_digits (- n) else dec_digits n)"

section \<open>The request digest\<close>

definition REQUEST_DIGEST_VERSION :: int where "REQUEST_DIGEST_VERSION = 1"
definition WRITER_EPOCH :: int where "WRITER_EPOCH = 1"

text \<open>The bytes fed to the hasher.\<close>

definition hash_field :: "int list \<Rightarrow> int list" where
  "hash_field bytes = le_bytes 8 (int (length bytes)) @ bytes"

definition request_hasher :: "rstr \<Rightarrow> rstr \<Rightarrow> rstr \<Rightarrow> int list" where
  "request_hasher operation_id namespace writer_kind =
     utf8 (lit ''mega.mst2.trunk-queue-request'') @ [0]
     @ le_bytes 4 REQUEST_DIGEST_VERSION @ le_bytes 8 WRITER_EPOCH
     @ hash_field (utf8 operation_id) @ hash_field (utf8 namespace) @ hash_field (utf8 writer_kind)"

fun number_text :: "json_number \<Rightarrow> rstr" where
  "number_text (PosInt n) = show_int n"
| "number_text (NegInt n) = show_int n"
| "number_text (FloatText t) = t"

fun hash_json :: "json \<Rightarrow> int list" where
  "hash_json JNull = [0]"
| "hash_json (JBool value) = [1, if value then 1 else 0]"
| "hash_json (JNumber value) = 2 # hash_field (utf8 (number_text value))"
| "hash_json (JString value) = 3 # hash_field (utf8 value)"
| "hash_json (JArray values) =
     4 # le_bytes 8 (int (length values)) @ concat (map hash_json values)"
| "hash_json (JObject entries) =
     5 # le_bytes 8 (int (length entries))
       @ concat (map (\<lambda>(key, bytes). hash_field (utf8 key) @ bytes)
           (sort_key fst (map (\<lambda>(key, value). (key, hash_json value)) entries)))"

datatype PublicationReceiptError =
    PubConflict rstr | LegacyReceipt rstr | Integrity rstr | PubDatabase rstr

text \<open>The \<open>Display\<close> of the error, which is what the queue stores and returns.\<close>

fun publication_error_text :: "PublicationReceiptError \<Rightarrow> rstr" where
  "publication_error_text (PubConflict m) = lit ''MST2_PUBLICATION_CONFLICT: '' @ m"
| "publication_error_text (LegacyReceipt m) =
     lit ''MST2_PUBLICATION_LEGACY_RECEIPT: operation '' @ m @ lit '' has no supported request digest''"
| "publication_error_text (Integrity m) = lit ''MST2_PUBLICATION_INTEGRITY_ERROR: '' @ m"
| "publication_error_text (PubDatabase m) = m"

record PublicationRequest =
  r_operation_id :: rstr
  r_namespace :: rstr
  r_writer_kind :: rstr
  r_request_digest :: rstr
  r_legacy_operation_id :: "rstr option"
  r_is_noop :: bool

definition queue_operation_id :: "int \<Rightarrow> rstr" where
  "queue_operation_id i = lit ''mst2:trunk-queue:'' @ show_int i"

definition request_bytes :: "push_row \<Rightarrow> rstr \<Rightarrow> int list" where
  "request_bytes row writer_kind =
     request_hasher (queue_operation_id (q_id row)) (q_path row) writer_kind
     @ hash_field (utf8 (q_operation_id row)) @ hash_field (utf8 MEGA_BRANCH_NAME)
     @ hash_field (utf8 (q_old_id row)) @ hash_field (utf8 (q_new_id row))
     @ (case q_requester row of None \<Rightarrow> [0] | Some actor \<Rightarrow> 1 # hash_field (utf8 actor))
     @ hash_json (q_payload row)"

definition from_trunk_queue :: "ext \<Rightarrow> push_row \<Rightarrow> PublicationReceiptError + PublicationRequest" where
  "from_trunk_queue x row =
     (if q_id row \<le> 0 \<or> q_operation_id row = []
        then Err (Integrity (lit ''invalid queue operation identity''))
      else bindR (map_err Integrity (x_validate_scope x (q_path row))) (\<lambda>_.
        (case (case q_kind row of Push \<Rightarrow> Some (lit ''trunk_push'')
               | Merge \<Rightarrow> Some (lit ''trunk_merge_stub'') | Attach \<Rightarrow> None) of
           None \<Rightarrow> Err (Integrity (lit ''attach is not covered by this adapter''))
         | Some writer_kind \<Rightarrow>
             Ok \<lparr>r_operation_id = queue_operation_id (q_id row), r_namespace = q_path row,
                 r_writer_kind = writer_kind,
                 r_request_digest = lit ''sha256:'' @ x_sha256_hex x (request_bytes row writer_kind),
                 r_legacy_operation_id = Some (q_operation_id row),
                 r_is_noop = (q_kind row = Push \<and> q_old_id row = q_new_id row
                   \<and> Option.bind (json_get (lit ''n'') (q_payload row)) json_as_u64 = Some 0)\<rparr>)))"

section \<open>Native observation\<close>

record NativeRoot =
  root_commit :: rstr
  root_tree :: rstr

record NativePublicationToken =
  tok_sequence :: int
  tok_epoch :: int
  tok_certificate :: "int option"

record NativePublicationHead =
  nh_root :: NativeRoot
  nh_instance_id :: rstr
  nh_token :: NativePublicationToken
  nh_ready :: bool

record NativeObservation =
  ob_root :: "NativeRoot option"
  ob_head :: "NativePublicationHead option"

definition NATIVE_EPOCH :: int where "NATIVE_EPOCH = 1"

definition validate_root :: "ext \<Rightarrow> NativeRoot \<Rightarrow> PublicationReceiptError + unit" where
  "validate_root x root =
     (if x_valid_oid x (root_commit root) \<and> x_valid_oid x (root_tree root) then Ok ()
      else Err (Integrity (lit ''invalid native object identity'')))"

definition canonical_instance :: "ext \<Rightarrow> rstr \<Rightarrow> PublicationReceiptError + rstr" where
  "canonical_instance x instance_id =
     (case x_uuid x instance_id of None \<Rightarrow> Err (Integrity (lit ''invalid native deployment instance''))
      | Some s \<Rightarrow> Ok s)"

definition digest_valid :: "rstr option \<Rightarrow> bool" where
  "digest_valid digest = (case digest of None \<Rightarrow> False
     | Some value \<Rightarrow> byte_len value = 71 \<and> starts_with value (lit ''sha256:'')
         \<and> list_all (\<lambda>b. 48 \<le> b \<and> b \<le> 57 \<or> 97 \<le> b \<and> b \<le> 102) (drop 7 value))"

text \<open>The consistency conditions of a \<open>READY\<close> head: its certificate, the receipt of the certificate and
  the outbox row of the receipt, found by the left joins of the observation query.\<close>

definition certificate_consistent ::
    "db \<Rightarrow> mst2_native_head \<Rightarrow> mst2_native_publication \<Rightarrow> mst2_publication
     \<Rightarrow> mst2_publication_outbox \<Rightarrow> bool" where
  "certificate_consistent d h c r ob \<longleftrightarrow>
     np_sequence c = h_sequence h \<and> np_writer_epoch c = h_writer_epoch h
     \<and> np_namespace c = lit ''/'' \<and> np_instance_id c = h_instance_id h
     \<and> np_root_commit c = h_root_commit h \<and> np_root_tree c = h_root_tree h
     \<and> p_native_certificate_version r = Some 1 \<and> p_request_digest_version r = Some 1
     \<and> digest_valid (p_request_digest r) \<and> p_writer_kind r = lit ''trunk_push''
     \<and> p_writer_epoch r = h_writer_epoch h \<and> np_origin_ref c = MEGA_BRANCH_NAME
     \<and> np_origin_path c = p_namespace r \<and> p_new_oid r = np_path_commit c
     \<and> p_old_oid r = np_old_root_commit c \<and> np_old_path_commit c \<noteq> Some (np_path_commit c)
     \<and> o_namespace ob = p_namespace r \<and> o_sequence ob = p_sequence r"

definition find_certificate :: "int \<Rightarrow> db \<Rightarrow> mst2_native_publication option" where
  "find_certificate i d = find (\<lambda>c. np_receipt_id c = i) (native_publications d)"

definition find_publication :: "int \<Rightarrow> db \<Rightarrow> mst2_publication option" where
  "find_publication i d = find (\<lambda>r. p_id r = i) (publications d)"

definition find_outbox :: "rstr \<Rightarrow> db \<Rightarrow> mst2_publication_outbox option" where
  "find_outbox op d = find (\<lambda>ob. o_operation_id ob = op) (publication_outbox d)"

definition associated_certificate :: "db \<Rightarrow> mst2_native_head \<Rightarrow> int \<Rightarrow> bool" where
  "associated_certificate d h certificate =
     (case find_certificate certificate d of None \<Rightarrow> False
      | Some c \<Rightarrow>
          (case find_publication certificate d of None \<Rightarrow> False
           | Some r \<Rightarrow>
               (case find_outbox (p_operation_id r) d of None \<Rightarrow> False
                | Some ob \<Rightarrow> certificate_consistent d h c r ob)))"

definition native_head_of :: "mst2_native_head \<Rightarrow> bool \<Rightarrow> NativePublicationHead" where
  "native_head_of h ready =
     \<lparr>nh_root = \<lparr>root_commit = h_root_commit h, root_tree = h_root_tree h\<rparr>,
      nh_instance_id = h_instance_id h,
      nh_token = \<lparr>tok_sequence = h_sequence h, tok_epoch = h_writer_epoch h,
                  tok_certificate = h_certificate_receipt_id h\<rparr>,
      nh_ready = ready\<rparr>"

definition ref_root :: "ref_row \<Rightarrow> NativeRoot" where
  "ref_root r = \<lparr>root_commit = ref_commit_hash r, root_tree = ref_tree_hash r\<rparr>"

definition head_ready ::
    "db \<Rightarrow> mst2_native_head \<Rightarrow> PublicationReceiptError + bool" where
  "head_ready d h =
     (if h_state h = lit ''INITIALIZING'' \<and> h_certificate_receipt_id h = None then Ok False
      else (case h_certificate_receipt_id h of
          Some certificate \<Rightarrow>
            if h_state h = lit ''READY'' then
              if associated_certificate d h certificate then Ok True
              else Err (Integrity (lit ''native publication association is incomplete or inconsistent''))
            else Err (Integrity (lit ''invalid native head state''))
        | None \<Rightarrow> Err (Integrity (lit ''invalid native head state''))))"

definition observe_native :: "ext \<Rightarrow> db \<Rightarrow> PublicationReceiptError + NativeObservation" where
  "observe_native x d =
     (let roots = filter (is_main_ref (lit ''/'')) (refs d) in
      if length roots > 1 then Err (Integrity (lit ''native root is ambiguous''))
      else
        bindR (case roots of [] \<Rightarrow> Ok None
               | r # _ \<Rightarrow> bindR (validate_root x (ref_root r)) (\<lambda>_. Ok (Some (ref_root r)))) (\<lambda>root.
        case native_head d of None \<Rightarrow> Ok \<lparr>ob_root = root, ob_head = None\<rparr>
        | Some h \<Rightarrow>
            bindR (canonical_instance x (h_instance_id h)) (\<lambda>canon.
            if canon \<noteq> h_instance_id h
              then Err (Integrity (lit ''native head instance is not canonical''))
            else
              let head_root = \<lparr>root_commit = h_root_commit h, root_tree = h_root_tree h\<rparr> in
              bindR (validate_root x head_root) (\<lambda>_.
              if root \<noteq> Some head_root
                then Err (Integrity (lit ''native root bypassed its publication head''))
              else if h_sequence h < 0 \<or> h_writer_epoch h \<noteq> NATIVE_EPOCH
                then Err (PubConflict (lit ''native writer epoch is fenced''))
              else bindR (head_ready d h) (\<lambda>ready.
                Ok \<lparr>ob_root = root, ob_head = Some (native_head_of h ready)\<rparr>)))))"

definition selected_ref :: "ext \<Rightarrow> rstr \<Rightarrow> db \<Rightarrow> PublicationReceiptError + NativeRoot option" where
  "selected_ref x path d =
     (case filter (is_main_ref path) (refs d) of
        [] \<Rightarrow> Ok None
      | [r] \<Rightarrow> bindR (validate_root x (ref_root r)) (\<lambda>_. Ok (Some (ref_root r)))
      | _ \<Rightarrow> Err (Integrity (lit ''selected native ref is ambiguous'')))"

definition read_native_publication_head_from ::
    "ext \<Rightarrow> rstr \<Rightarrow> db \<Rightarrow> PublicationReceiptError + NativePublicationHead" where
  "read_native_publication_head_from x instance_id d =
     bindR (observe_native x d) (\<lambda>observation.
     case ob_head observation of
       None \<Rightarrow> Err (Integrity (lit ''native publication is not initialized''))
     | Some head \<Rightarrow>
         if \<not> nh_ready head then Err (Integrity (lit ''native publication is not ready''))
         else bindR (canonical_instance x instance_id) (\<lambda>canon.
           if nh_instance_id head \<noteq> canon then Err (Integrity (lit ''native instance changed''))
           else Ok head))"

section \<open>Historical certificates\<close>

definition validate_native_historical_receipt_in_txn ::
    "ext \<Rightarrow> db \<Rightarrow> mst2_publication \<Rightarrow> PublicationReceiptError + unit" where
  "validate_native_historical_receipt_in_txn x d receipt =
     (case p_native_certificate_version receipt of
        None \<Rightarrow> Ok ()
      | Some version \<Rightarrow>
        if version \<noteq> 1 then Err (Integrity (lit ''unsupported native certificate version''))
        else
          (case find_certificate (p_id receipt) d of
             None \<Rightarrow> Err (Integrity (lit ''historical native certificate missing''))
           | Some c \<Rightarrow>
               let mismatch = Err (Integrity (lit ''historical native certificate identity mismatch'')) in
               if np_namespace c \<noteq> lit ''/'' \<or> np_sequence c \<le> 0
                   \<or> np_writer_epoch c \<noteq> p_writer_epoch receipt
                   \<or> np_origin_path c \<noteq> p_namespace receipt \<or> np_origin_ref c \<noteq> MEGA_BRANCH_NAME
                   \<or> p_writer_kind receipt \<noteq> lit ''trunk_push''
                   \<or> np_old_root_commit c \<noteq> p_old_oid receipt
                   \<or> np_path_commit c \<noteq> p_new_oid receipt
                   \<or> np_old_path_commit c = Some (np_path_commit c)
                 then mismatch
               else bindR (canonical_instance x (np_instance_id c)) (\<lambda>canon.
                 if canon \<noteq> np_instance_id c then mismatch
                 else
                   bindR (validate_root x \<lparr>root_commit = np_root_commit c, root_tree = np_root_tree c\<rparr>) (\<lambda>_.
                   bindR (validate_root x
                     \<lparr>root_commit = np_old_root_commit c, root_tree = np_old_root_tree c\<rparr>) (\<lambda>_.
                   validate_root x \<lparr>root_commit = np_path_commit c, root_tree = np_path_tree c\<rparr>)))))"

section \<open>Receipts\<close>

record CommittedPublication =
  cp_receipt :: mst2_publication
  cp_outbox :: mst2_publication_outbox

record PreparedPublication =
  pp_request :: PublicationRequest
  pp_sequence :: int
  pp_transaction_id :: int

datatype PublicationPreparation =
    Prepared PreparedPublication
  | AlreadyCommitted CommittedPublication
  | AlreadyCommittedNoop mst2_queue_noop_receipt

datatype RecordedOperation =
    RecordedPublication mst2_publication | RecordedNoop mst2_queue_noop_receipt

definition validate_committed_publication ::
    "db \<Rightarrow> PublicationRequest \<Rightarrow> mst2_publication
     \<Rightarrow> PublicationReceiptError + CommittedPublication" where
  "validate_committed_publication d request receipt =
     (if p_namespace receipt \<noteq> r_namespace request
        then Err (PubConflict (lit ''operation belongs to another namespace''))
      else if p_request_digest_version receipt \<noteq> Some REQUEST_DIGEST_VERSION
          \<or> p_request_digest receipt = None
        then Err (LegacyReceipt (r_operation_id request))
      else if p_writer_kind receipt \<noteq> r_writer_kind request
          \<or> p_writer_epoch receipt \<noteq> WRITER_EPOCH
          \<or> p_request_digest receipt \<noteq> Some (r_request_digest request)
        then Err (PubConflict (lit ''operation request changed''))
      else (case find_outbox (r_operation_id request) d of
          None \<Rightarrow> Err (Integrity (lit ''receipt outbox missing''))
        | Some ob \<Rightarrow>
            if o_namespace ob \<noteq> p_namespace receipt \<or> o_sequence ob \<noteq> p_sequence receipt
              then Err (Integrity (lit ''receipt outbox identity mismatch''))
            else Ok \<lparr>cp_receipt = receipt, cp_outbox = ob\<rparr>))"

definition reject_legacy_queue_receipt ::
    "db \<Rightarrow> rstr option \<Rightarrow> rstr \<Rightarrow> PublicationReceiptError + unit" where
  "reject_legacy_queue_receipt d legacy_operation_id namespace =
     (case legacy_operation_id of None \<Rightarrow> Ok ()
      | Some legacy_id \<Rightarrow>
          (case find (\<lambda>p. p_operation_id p = legacy_id \<and> p_namespace p = namespace) (publications d) of
             None \<Rightarrow> Ok ()
           | Some legacy \<Rightarrow>
               if p_request_digest_version legacy \<noteq> Some REQUEST_DIGEST_VERSION
                   \<or> p_request_digest legacy = None
                 then Err (LegacyReceipt legacy_id) else Ok ()))"

definition find_committed_operation ::
    "db \<Rightarrow> rstr \<Rightarrow> PublicationReceiptError + RecordedOperation option" where
  "find_committed_operation d operation_id =
     (case (find (\<lambda>p. p_operation_id p = operation_id) (publications d),
            find (\<lambda>n. n_operation_id n = operation_id) (noop_receipts d)) of
        (Some _, Some _) \<Rightarrow>
          Err (Integrity (lit ''operation has both publication and no-op receipts''))
      | (Some receipt, None) \<Rightarrow> Ok (Some (RecordedPublication receipt))
      | (None, Some receipt) \<Rightarrow> Ok (Some (RecordedNoop receipt))
      | (None, None) \<Rightarrow> Ok None)"

fun validate_committed_operation ::
    "db \<Rightarrow> PublicationRequest \<Rightarrow> RecordedOperation
     \<Rightarrow> PublicationReceiptError + PublicationPreparation" where
  "validate_committed_operation d request (RecordedPublication receipt) =
     bindR (validate_committed_publication d request receipt) (\<lambda>c. Ok (AlreadyCommitted c))"
| "validate_committed_operation d request (RecordedNoop receipt) =
     (if n_namespace receipt \<noteq> r_namespace request \<or> n_writer_kind receipt \<noteq> r_writer_kind request
          \<or> n_writer_epoch receipt \<noteq> WRITER_EPOCH \<or> \<not> r_is_noop request
          \<or> n_request_digest receipt \<noteq> r_request_digest request
        then Err (PubConflict (lit ''operation request changed''))
      else if n_request_digest_version receipt \<noteq> REQUEST_DIGEST_VERSION
        then Err (LegacyReceipt (r_operation_id request))
      else if find_outbox (r_operation_id request) d \<noteq> None
        then Err (Integrity (lit ''no-op operation has a publication outbox''))
      else Ok (AlreadyCommittedNoop receipt))"

definition validate_historical ::
    "ext \<Rightarrow> db \<Rightarrow> RecordedOperation \<Rightarrow> PublicationReceiptError + unit" where
  "validate_historical x d existing =
     (case existing of
        RecordedPublication receipt \<Rightarrow> validate_native_historical_receipt_in_txn x d receipt
      | RecordedNoop _ \<Rightarrow> Ok ())"

definition validate_queue_publication_replay_in_txn ::
    "ext \<Rightarrow> db \<Rightarrow> push_row \<Rightarrow> PublicationReceiptError + unit" where
  "validate_queue_publication_replay_in_txn x d candidate =
     bindR (find_committed_operation d (queue_operation_id (q_id candidate))) (\<lambda>found.
     case found of
       None \<Rightarrow> reject_legacy_queue_receipt d (Some (q_operation_id candidate)) (q_path candidate)
     | Some existing \<Rightarrow>
         bindR (from_trunk_queue x candidate) (\<lambda>request.
         bindR (validate_historical x d existing) (\<lambda>_.
         bindR (validate_committed_operation d request existing) (\<lambda>_. Ok ()))))"

text \<open>The statements of an open transaction see its own writes; the result carries the database state
  so that a caller which goes on after an error keeps what was written before it.\<close>

definition ensure_namespace :: "rstr \<Rightarrow> db \<Rightarrow> db" where
  "ensure_namespace namespace d =
     (if list_ex (\<lambda>s. s_namespace s = namespace) (namespace_seq d) then d
      else d\<lparr>namespace_seq := namespace_seq d
          @ [\<lparr>s_namespace = namespace, s_sequence = 0, s_epoch = WRITER_EPOCH\<rparr>]\<rparr>)"

definition begin_publication_in_txn ::
    "ext \<Rightarrow> int \<Rightarrow> PublicationRequest \<Rightarrow> db
     \<Rightarrow> (PublicationReceiptError + PublicationPreparation) \<times> db" where
  "begin_publication_in_txn x tx request d =
     (let d1 = ensure_namespace (r_namespace request) d in
      (case find (\<lambda>s. s_namespace s = r_namespace request) (namespace_seq d1) of
         None \<Rightarrow> Err (Integrity (lit ''namespace row missing''))
       | Some s \<Rightarrow>
           bindR (find_committed_operation d1 (r_operation_id request)) (\<lambda>found.
           case found of
             Some existing \<Rightarrow>
               bindR (validate_historical x d1 existing) (\<lambda>_.
               validate_committed_operation d1 request existing)
           | None \<Rightarrow>
               if s_epoch s \<noteq> WRITER_EPOCH \<or> s_sequence s < 0
                 then Err (PubConflict (lit ''writer epoch is fenced''))
               else bindR (reject_legacy_queue_receipt d1 (r_legacy_operation_id request)
                       (r_namespace request)) (\<lambda>_.
                 Ok (Prepared \<lparr>pp_request = request, pp_sequence = s_sequence s,
                               pp_transaction_id = tx\<rparr>))), d1))"

definition reserved_row :: "int \<Rightarrow> PreparedPublication \<Rightarrow> mst2_namespace_seq \<Rightarrow> bool" where
  "reserved_row tx prepared s \<longleftrightarrow>
     s_namespace s = r_namespace (pp_request prepared) \<and> s_sequence s = pp_sequence prepared
     \<and> s_epoch s = WRITER_EPOCH \<and> tx = pp_transaction_id prepared"

definition I64_MAX :: int where "I64_MAX = 9223372036854775807"

definition record_publication_in_txn ::
    "int \<Rightarrow> PreparedPublication \<Rightarrow> rstr \<Rightarrow> rstr \<Rightarrow> db
     \<Rightarrow> PublicationReceiptError + CommittedPublication \<times> db" where
  "record_publication_in_txn tx prepared old_oid new_oid d =
     (let request = pp_request prepared in
      if r_is_noop request then Err (Integrity (lit ''no-op requests do not publish''))
      else (case find (reserved_row tx prepared) (namespace_seq d) of
          None \<Rightarrow> Err (PubConflict
            (lit ''publication reservation is stale or belongs to another transaction''))
        | Some s \<Rightarrow>
            if s_sequence s \<ge> I64_MAX then Err (PubDatabase (lit ''bigint out of range''))
            else if list_ex (\<lambda>p. p_namespace p = r_namespace request
                        \<and> p_operation_id p = r_operation_id request) (publications d)
                \<or> list_ex (\<lambda>ob. o_operation_id ob = r_operation_id request) (publication_outbox d)
              then Err (PubDatabase (lit ''duplicate key''))
            else
              let receipt = \<lparr>p_id = next_publication_id d, p_operation_id = r_operation_id request,
                    p_namespace = r_namespace request, p_sequence = s_sequence s + 1,
                    p_old_oid = old_oid, p_new_oid = new_oid, p_writer_epoch = WRITER_EPOCH,
                    p_writer_kind = r_writer_kind request,
                    p_request_digest = Some (r_request_digest request),
                    p_request_digest_version = Some REQUEST_DIGEST_VERSION,
                    p_native_certificate_version = None\<rparr>;
                  ob = \<lparr>o_id = int (length (publication_outbox d)) + 1,
                    o_operation_id = r_operation_id request, o_namespace = r_namespace request,
                    o_sequence = s_sequence s + 1, o_state = lit ''PENDING''\<rparr>
              in Ok (\<lparr>cp_receipt = receipt, cp_outbox = ob\<rparr>,
                  d\<lparr>namespace_seq := update_where (reserved_row tx prepared)
                        (\<lambda>r. r\<lparr>s_sequence := s_sequence r + 1\<rparr>) (namespace_seq d),
                    publications := publications d @ [receipt],
                    next_publication_id := next_publication_id d + 1,
                    publication_outbox := publication_outbox d @ [ob]\<rparr>)))"

definition record_noop_operation_in_txn ::
    "int \<Rightarrow> PreparedPublication \<Rightarrow> rstr \<Rightarrow> rstr \<Rightarrow> rstr \<Rightarrow> db
     \<Rightarrow> PublicationReceiptError + mst2_queue_noop_receipt \<times> db" where
  "record_noop_operation_in_txn tx prepared commit tree landed_commit_id d =
     (let request = pp_request prepared in
      if \<not> r_is_noop request then Err (Integrity (lit ''request is not a trunk push no-op''))
      else if \<not> list_ex (reserved_row tx prepared) (namespace_seq d)
        then Err (PubConflict (lit ''no-op reservation is stale or belongs to another transaction''))
      else if list_ex (\<lambda>n. n_operation_id n = r_operation_id request) (noop_receipts d)
        then Err (PubDatabase (lit ''duplicate key''))
      else
        let receipt = \<lparr>n_id = int (length (noop_receipts d)) + 1,
              n_operation_id = r_operation_id request, n_namespace = r_namespace request,
              n_request_digest = r_request_digest request,
              n_request_digest_version = REQUEST_DIGEST_VERSION, n_writer_epoch = WRITER_EPOCH,
              n_writer_kind = r_writer_kind request, n_observed_sequence = pp_sequence prepared,
              n_observed_root_commit = commit, n_observed_root_tree = tree,
              n_landed_commit_id = landed_commit_id\<rparr>
        in Ok (receipt, d\<lparr>noop_receipts := noop_receipts d @ [receipt]\<rparr>))"

section \<open>Native publication\<close>

record PreparedNativePublication =
  pn_head :: NativePublicationHead
  pn_path :: rstr
  pn_old_path :: "NativeRoot option"
  pn_transaction_id :: int

definition active_status :: "PushQueueStatus \<Rightarrow> bool" where
  "active_status s \<longleftrightarrow> s = Queued \<or> s = Running"

definition canonical_sha1 :: "rstr \<Rightarrow> bool" where
  "canonical_sha1 oid \<longleftrightarrow> byte_len oid = 40 \<and> list_all (\<lambda>b. 48 \<le> b \<and> b \<le> 57 \<or> 97 \<le> b \<and> b \<le> 102) oid"

definition sequence_counters :: "db \<Rightarrow> int list" where
  "sequence_counters d =
     map s_sequence (namespace_seq d) @ map p_sequence (publications d)
     @ map n_observed_sequence (noop_receipts d)"

definition sequence_floor :: "db \<Rightarrow> int" where
  "sequence_floor d = (case sequence_counters d of [] \<Rightarrow> 0 | c # cs \<Rightarrow> fold max cs c)"

definition initialize_native_publication_in_txn ::
    "ext \<Rightarrow> rstr \<Rightarrow> NativeRoot option \<Rightarrow> db \<Rightarrow> PublicationReceiptError + db" where
  "initialize_native_publication_in_txn x instance_id expected_root d =
     bindR (observe_native x d) (\<lambda>observation.
     if ob_head observation \<noteq> None then Err (Integrity (lit ''native head already initialized''))
     else (case ob_root observation of
         None \<Rightarrow> Err (Integrity (lit ''native root missing''))
       | Some root \<Rightarrow>
           if expected_root \<noteq> None \<and> expected_root \<noteq> Some root
             then Err (PubConflict
               (lit ''native root differs from the maintenance command's expected commit/tree''))
           else if list_ex (\<lambda>q. active_status (q_status q)) (push_queue d)
             then Err (Integrity (lit ''queue must be drained before native initialization''))
           else if list_ex (\<lambda>c. c < 0) (sequence_counters d) \<or> sequence_floor d = I64_MAX
             then Err (Integrity (lit ''native sequence floor is invalid or exhausted''))
           else Ok (d\<lparr>native_head := Some \<lparr>h_instance_id = instance_id,
                 h_sequence = sequence_floor d, h_writer_epoch = NATIVE_EPOCH,
                 h_root_commit = root_commit root, h_root_tree = root_tree root,
                 h_state = lit ''INITIALIZING'', h_certificate_receipt_id = None\<rparr>\<rparr>)))"

text \<open>The advisory lock is held by another session exactly when \<open>locked\<close> is false.\<close>

definition initialize_native_publication_for_maintenance ::
    "ext \<Rightarrow> bool \<Rightarrow> rstr \<Rightarrow> NativeRoot \<Rightarrow> db \<Rightarrow> PublicationReceiptError + db" where
  "initialize_native_publication_for_maintenance x locked instance_id expected_root d =
     bindR (canonical_instance x instance_id) (\<lambda>inst.
     if x_uuid_nil x inst then Err (Integrity (lit ''native deployment instance must not be nil''))
     else if \<not> canonical_sha1 (root_commit expected_root) \<or> \<not> canonical_sha1 (root_tree expected_root)
       then Err (Integrity (lit ''maintenance requires canonical SHA-1 root identities''))
     else if \<not> locked
       then Err (PubConflict
         (lit ''native initialization refused while a writer holds the mono write lock''))
     else (case control d of
         None \<Rightarrow> Err (Integrity
           (lit ''queue_control row missing; maintenance cannot establish admission exclusion''))
       | Some c \<Rightarrow>
           if \<not> c_paused c
             then Err (Integrity (lit ''queue admission must be paused before native initialization''))
           else if c_hard_stopped c
             then Err (Integrity
               (lit ''hard-stopped queue must be investigated before native initialization''))
           else if native_publications d \<noteq> []
               \<or> list_ex (\<lambda>p. p_native_certificate_version p \<noteq> None) (publications d)
             then Err (Integrity
               (lit ''native publication history exists; initialization cannot repair or replace it''))
           else if map snd (filter (\<lambda>e. fst e = root_commit expected_root) (commits d))
                 \<noteq> [root_tree expected_root]
               \<or> length (filter (\<lambda>e. fst e = root_tree expected_root) (trees d)) \<noteq> 1
             then Err (Integrity (lit ''native root requires a unique stored commit with the expected tree and a unique stored tree''))
           else initialize_native_publication_in_txn x inst (Some expected_root) d))"

definition reserve_native_publication_in_txn ::
    "ext \<Rightarrow> int \<Rightarrow> push_row \<Rightarrow> rstr \<Rightarrow> db \<Rightarrow> PublicationReceiptError + PreparedNativePublication" where
  "reserve_native_publication_in_txn x tx q instance_id d =
     (if native_head d = None then Err (Integrity (lit ''native publication is not initialized''))
      else bindR (observe_native x d) (\<lambda>observation.
        case ob_head observation of
          None \<Rightarrow> Err (Integrity (lit ''native publication is not initialized''))
        | Some head \<Rightarrow>
            bindR (canonical_instance x instance_id) (\<lambda>inst.
            if nh_instance_id head \<noteq> inst then Err (Integrity (lit ''native instance changed''))
            else if q_expected_native_sequence q \<noteq> Some (tok_sequence (nh_token head))
                \<or> q_expected_native_epoch q \<noteq> Some (tok_epoch (nh_token head))
                \<or> q_expected_native_certificate q \<noteq> tok_certificate (nh_token head)
                \<or> q_expected_commit_hash q \<noteq> Some (root_commit (nh_root head))
                \<or> q_expected_tree_hash q \<noteq> Some (root_tree (nh_root head))
              then Err (PubConflict (lit ''claimed native publication token is stale or missing''))
            else bindR (selected_ref x (q_path q) d) (\<lambda>old_path.
              Ok \<lparr>pn_head = head, pn_path = q_path q, pn_old_path = old_path,
                  pn_transaction_id = tx\<rparr>))))"

definition reservation_row ::
    "int \<Rightarrow> PreparedNativePublication \<Rightarrow> mst2_native_head \<Rightarrow> bool" where
  "reservation_row tx prepared h \<longleftrightarrow>
     h_sequence h = tok_sequence (nh_token (pn_head prepared))
     \<and> h_writer_epoch h = tok_epoch (nh_token (pn_head prepared))
     \<and> h_certificate_receipt_id h = tok_certificate (nh_token (pn_head prepared))
     \<and> h_root_commit h = root_commit (nh_root (pn_head prepared))
     \<and> h_root_tree h = root_tree (nh_root (pn_head prepared))
     \<and> tx = pn_transaction_id prepared"

definition check_native_reservation ::
    "int \<Rightarrow> PreparedNativePublication \<Rightarrow> db \<Rightarrow> PublicationReceiptError + unit" where
  "check_native_reservation tx prepared d =
     (case native_head d of
        Some h \<Rightarrow>
          if reservation_row tx prepared h then Ok ()
          else Err (PubConflict (lit ''native reservation is stale or belongs to another transaction''))
      | None \<Rightarrow> Err (PubConflict
          (lit ''native reservation is stale or belongs to another transaction'')))"

definition finish_native_noop_in_txn ::
    "ext \<Rightarrow> int \<Rightarrow> PreparedNativePublication \<Rightarrow> db \<Rightarrow> PublicationReceiptError + unit" where
  "finish_native_noop_in_txn x tx prepared d =
     bindR (check_native_reservation tx prepared d) (\<lambda>_.
     bindR (selected_ref x (lit ''/'') d) (\<lambda>root.
     if root \<noteq> Some (nh_root (pn_head prepared))
       then Err (Integrity (lit ''native no-op changed selected refs''))
     else bindR (selected_ref x (pn_path prepared) d) (\<lambda>path.
       if path \<noteq> pn_old_path prepared
         then Err (Integrity (lit ''native no-op changed selected refs''))
       else Ok ())))"

definition receipt_matches ::
    "PreparedNativePublication \<Rightarrow> CommittedPublication \<Rightarrow> NativeRoot \<Rightarrow> bool" where
  "receipt_matches prepared committed path \<longleftrightarrow>
     map_option root_commit (pn_old_path prepared) \<noteq> Some (root_commit path)
     \<and> p_namespace (cp_receipt committed) = pn_path prepared
     \<and> p_new_oid (cp_receipt committed) = root_commit path
     \<and> p_old_oid (cp_receipt committed) = root_commit (nh_root (pn_head prepared))
     \<and> p_writer_kind (cp_receipt committed) = lit ''trunk_push''
     \<and> p_writer_epoch (cp_receipt committed) = NATIVE_EPOCH
     \<and> p_native_certificate_version (cp_receipt committed) = None
     \<and> o_operation_id (cp_outbox committed) = p_operation_id (cp_receipt committed)
     \<and> o_namespace (cp_outbox committed) = p_namespace (cp_receipt committed)
     \<and> o_sequence (cp_outbox committed) = p_sequence (cp_receipt committed)"

definition native_certificate ::
    "PreparedNativePublication \<Rightarrow> CommittedPublication \<Rightarrow> NativeRoot \<Rightarrow> NativeRoot
     \<Rightarrow> mst2_native_publication" where
  "native_certificate prepared committed root path =
     \<lparr>np_receipt_id = p_id (cp_receipt committed), np_namespace = lit ''/'',
      np_instance_id = nh_instance_id (pn_head prepared),
      np_sequence = tok_sequence (nh_token (pn_head prepared)) + 1, np_writer_epoch = NATIVE_EPOCH,
      np_old_root_commit = root_commit (nh_root (pn_head prepared)),
      np_old_root_tree = root_tree (nh_root (pn_head prepared)),
      np_root_commit = root_commit root, np_root_tree = root_tree root,
      np_origin_path = pn_path prepared, np_origin_ref = MEGA_BRANCH_NAME,
      np_old_path_commit = map_option root_commit (pn_old_path prepared),
      np_old_path_tree = map_option root_tree (pn_old_path prepared),
      np_path_commit = root_commit path, np_path_tree = root_tree path\<rparr>"

text \<open>The writes: the receipt marker, the certificate and the compare-and-swap of the head.\<close>

definition unmarked :: "int \<Rightarrow> mst2_publication \<Rightarrow> bool" where
  "unmarked i p \<longleftrightarrow> p_id p = i \<and> p_native_certificate_version p = None"

definition write_native_certificate ::
    "int \<Rightarrow> PreparedNativePublication \<Rightarrow> CommittedPublication \<Rightarrow> NativeRoot \<Rightarrow> NativeRoot \<Rightarrow> db
     \<Rightarrow> PublicationReceiptError + db" where
  "write_native_certificate tx prepared committed root path d =
     (let cert = native_certificate prepared committed root path; i = p_id (cp_receipt committed) in
      if tok_sequence (nh_token (pn_head prepared)) \<ge> I64_MAX
        then Err (Integrity (lit ''native sequence exhausted''))
      else if rows_affected (unmarked i) (publications d) \<noteq> 1
        then Err (Integrity (lit ''native receipt marker changed''))
      else if list_ex (\<lambda>c. np_receipt_id c = i \<or> np_sequence c = np_sequence cert)
             (native_publications d)
        then Err (PubDatabase (lit ''duplicate key''))
      else (case native_head d of
          None \<Rightarrow> Err (PubConflict (lit ''native head CAS failed''))
        | Some h \<Rightarrow>
            if \<not> reservation_row tx prepared h \<or> h_writer_epoch h \<noteq> NATIVE_EPOCH
              then Err (PubConflict (lit ''native head CAS failed''))
            else Ok (d\<lparr>publications := update_where (unmarked i)
                  (\<lambda>p. p\<lparr>p_native_certificate_version := Some 1\<rparr>) (publications d),
                native_publications := native_publications d @ [cert],
                native_head := Some (h\<lparr>h_sequence := np_sequence cert,
                  h_root_commit := root_commit root, h_root_tree := root_tree root,
                  h_state := lit ''READY'', h_certificate_receipt_id := Some i\<rparr>)\<rparr>)))"

definition check_published_path ::
    "PreparedNativePublication \<Rightarrow> CommittedPublication \<Rightarrow> NativeRoot \<Rightarrow> NativeRoot \<Rightarrow> db
     \<Rightarrow> PublicationReceiptError + unit" where
  "check_published_path prepared committed root path d =
     (if \<not> receipt_matches prepared committed path
        then Err (Integrity (lit ''operation did not change its selected native ref''))
      else (case resolve_path_tree_hash_in_txn (root_tree root) (pn_path prepared) d of
          None \<Rightarrow> Err (Integrity (lit ''native path tree is not materialized''))
        | Some resolved \<Rightarrow>
            if resolved \<noteq> root_tree path
              then Err (Integrity (lit ''native path tree does not match selected ref''))
            else Ok ()))"

definition require_ref :: "string \<Rightarrow> NativeRoot option \<Rightarrow> PublicationReceiptError + NativeRoot" where
  "require_ref message r = (case r of None \<Rightarrow> Err (Integrity (lit message)) | Some x \<Rightarrow> Ok x)"

definition record_native_publication_in_txn ::
    "ext \<Rightarrow> int \<Rightarrow> PreparedNativePublication \<Rightarrow> CommittedPublication \<Rightarrow> db
     \<Rightarrow> PublicationReceiptError + db" where
  "record_native_publication_in_txn x tx prepared committed d =
     bindR (check_native_reservation tx prepared d) (\<lambda>_.
     bindR (bindR (selected_ref x (lit ''/'') d) (require_ref ''published native root missing'')) (\<lambda>root.
     bindR (bindR (selected_ref x (pn_path prepared) d)
              (require_ref ''published native path missing'')) (\<lambda>path.
     bindR (check_published_path prepared committed root path d) (\<lambda>_.
     write_native_certificate tx prepared committed root path d))))"

end
