(* ===== verification/Publication_Digest.thy ===== *)
theory Publication_Digest
  imports Publication
begin

text \<open>
  The digest of a publication request identifies the request: the bytes fed to the hasher can be
  decoded without ambiguity. Each encoder is a prefix code: where an encoded value ends is determined
  by its first bytes, so two concatenations agree only when the values and the rests agree.
\<close>

section \<open>Prefix codes\<close>

lemma codes_decode:
  assumes "\<And>x y a b. x \<in> set xs \<Longrightarrow> y \<in> set ys \<Longrightarrow> enc x @ a = enc y @ b \<Longrightarrow> x = y \<and> a = b"
    "length xs = length ys" "concat (map enc xs) @ a = concat (map enc ys) @ b"
  shows "xs = ys \<and> a = b"
  using assms(2,1,3)
proof (induction xs ys rule: list_induct2)
  case (Cons x xs y ys)
  have e: "enc x @ concat (map enc xs) @ a = enc y @ concat (map enc ys) @ b"
    using Cons.prems(2) by simp
  have "x = y \<and> concat (map enc xs) @ a = concat (map enc ys) @ b"
    by (rule Cons.prems(1) [OF _ _ e]) simp_all
  moreover have "concat (map enc xs) @ a = concat (map enc ys) @ b \<Longrightarrow> xs = ys \<and> a = b"
    by (rule Cons.IH) (use Cons.prems(1) in auto)
  ultimately show ?case by simp
qed simp

locale prefix_code =
  fixes enc :: "'a \<Rightarrow> int list" and ok :: "'a \<Rightarrow> bool"
  assumes decode: "ok x \<Longrightarrow> ok y \<Longrightarrow> enc x @ a = enc y @ b \<Longrightarrow> x = y \<and> a = b"
begin

lemma list_decode:
  assumes "\<forall>x\<in>set xs. ok x" "\<forall>y\<in>set ys. ok y" "length xs = length ys"
    "concat (map enc xs) @ a = concat (map enc ys) @ b"
  shows "xs = ys \<and> a = b"
  using assms(3,4) by (rule codes_decode [rotated]) (use assms(1,2) decode in blast)

end

locale nonempty_code = prefix_code +
  assumes nonempty: "ok x \<Longrightarrow> enc x \<noteq> []"
begin

lemma concat_inj:
  assumes "\<forall>x\<in>set xs. ok x" "\<forall>y\<in>set ys. ok y" "concat (map enc xs) = concat (map enc ys)"
  shows "xs = ys"
  using assms
proof (induction xs arbitrary: ys)
  case Nil
  then show ?case using nonempty by (cases ys) auto
next
  case (Cons x xs)
  then obtain y ys' where ys: "ys = y # ys'" using nonempty [of x] by (cases ys) auto
  have "enc x @ concat (map enc xs) = enc y @ concat (map enc ys')" using Cons.prems(3) ys by simp
  then have "x = y \<and> concat (map enc xs) = concat (map enc ys')"
    using decode [of x y] Cons.prems(1,2) ys by simp
  then show ?case using Cons.IH [of ys'] Cons.prems(1,2) ys by simp
qed

end

section \<open>Text and lengths\<close>

definition char_ok :: "rchar \<Rightarrow> bool" where
  "char_ok c \<longleftrightarrow> 0 \<le> c \<and> c < 1114112"

lemma div_bounds:
  fixes x :: int
  shows "x = 64 * (x div 64) + x mod 64" "0 \<le> x mod 64" "x mod 64 < 64"
    "x div 64 = 64 * (x div 4096) + x div 64 mod 64" "0 \<le> x div 64 mod 64" "x div 64 mod 64 < 64"
    "x div 4096 = 64 * (x div 262144) + x div 4096 mod 64" "0 \<le> x div 4096 mod 64" "x div 4096 mod 64 < 64"
proof -
  have d: "x div 4096 = x div 64 div 64" "x div 262144 = x div 4096 div 64"
    using zdiv_zmult2_eq [of 64 x 64] zdiv_zmult2_eq [of 64 x 4096] by simp_all
  show "x = 64 * (x div 64) + x mod 64" "x div 64 = 64 * (x div 4096) + x div 64 mod 64"
    "x div 4096 = 64 * (x div 262144) + x div 4096 mod 64"
    unfolding d by simp_all
qed simp_all

text \<open>The first byte tells how many follow.\<close>

lemma div_less_iff_int:
  assumes "0 < (k :: int)" shows "x div k < m \<longleftrightarrow> x < m * k"
proof
  assume "x div k < m"
  then have "(x div k + 1) * k \<le> m * k" using assms by (intro mult_right_mono) auto
  moreover have "x < (x div k + 1) * k"
    unfolding distrib_right using pos_mod_bound [OF assms, of x] div_mult_mod_eq [of x k] by linarith
  ultimately show "x < m * k" by simp
next
  assume "x < m * k"
  moreover have "x div k * k \<le> x" using pos_mod_sign [OF assms, of x] div_mult_mod_eq [of x k] by linarith
  ultimately have "x div k * k < m * k" by simp
  then show "x div k < m" using assms by simp
qed

lemma utf8_head:
  assumes "char_ok c"
  shows "c < 128 \<longleftrightarrow> hd (utf8_char c) < 128" "c < 2048 \<longleftrightarrow> hd (utf8_char c) < 224"
    "c < 65536 \<longleftrightarrow> hd (utf8_char c) < 240"
proof -
  have p: "0 \<le> c div 64" "0 \<le> c div 4096" "0 \<le> c div 262144"
    using assms by (simp_all add: char_ok_def pos_imp_zdiv_nonneg_iff)
  have l: "c div 64 < 32 \<longleftrightarrow> c < 2048" "c div 64 < 48 \<longleftrightarrow> c < 3072" "c div 4096 < 16 \<longleftrightarrow> c < 65536"
    using div_less_iff_int [of 64 c 32] div_less_iff_int [of 64 c 48] div_less_iff_int [of 4096 c 16] by simp_all
  show "c < 128 \<longleftrightarrow> hd (utf8_char c) < 128" "c < 2048 \<longleftrightarrow> hd (utf8_char c) < 224"
    "c < 65536 \<longleftrightarrow> hd (utf8_char c) < 240"
    using p l by (simp_all add: utf8_char_def del: div_pos_pos_trivial)
qed

lemma div_mod_eqI:
  fixes x y :: int
  shows "x div 64 = y div 64 \<Longrightarrow> x mod 64 = y mod 64 \<Longrightarrow> x = y"
    "x div 4096 = y div 4096 \<Longrightarrow> x div 64 mod 64 = y div 64 mod 64 \<Longrightarrow> x div 64 = y div 64"
    "x div 262144 = y div 262144 \<Longrightarrow> x div 4096 mod 64 = y div 4096 mod 64 \<Longrightarrow> x div 4096 = y div 4096"
  by (metis div_bounds(1), metis div_bounds(4), metis div_bounds(7))

lemma utf8_char_decode:
  assumes "char_ok c" "char_ok c'" "utf8_char c @ a = utf8_char c' @ b"
  shows "c = c' \<and> a = b"
proof -
  have ne: "utf8_char u \<noteq> []" for u by (simp add: utf8_char_def)
  have "hd (utf8_char c @ a) = hd (utf8_char c' @ b)" by (simp only: assms(3))
  then have "hd (utf8_char c) = hd (utf8_char c')" using ne by simp
  then have same: "c < 128 \<longleftrightarrow> c' < 128" "c < 2048 \<longleftrightarrow> c' < 2048" "c < 65536 \<longleftrightarrow> c' < 65536"
    using utf8_head assms(1,2) by simp_all
  consider "c < 128" | "\<not> c < 128" "c < 2048" | "\<not> c < 128" "\<not> c < 2048" "c < 65536" | "\<not> c < 128" "\<not> c < 2048" "\<not> c < 65536"
    by blast
  then show ?thesis
  proof cases
    case 1
    then show ?thesis using assms(3) same by (simp add: utf8_char_def)
  next
    case 2
    then have "c div 64 = c' div 64" "c mod 64 = c' mod 64" "a = b"
      using assms(3) same by (simp_all add: utf8_char_def)
    then show ?thesis using div_mod_eqI(1) by blast
  next
    case 3
    then have e: "c div 4096 = c' div 4096" "c div 64 mod 64 = c' div 64 mod 64" "c mod 64 = c' mod 64" "a = b"
      using assms(3) same by (simp_all add: utf8_char_def)
    show ?thesis by (rule conjI [OF div_mod_eqI(1) [OF div_mod_eqI(2) [OF e(1,2)] e(3)] e(4)])
  next
    case 4
    then have e: "c div 262144 = c' div 262144" "c div 4096 mod 64 = c' div 4096 mod 64"
        "c div 64 mod 64 = c' div 64 mod 64" "c mod 64 = c' mod 64" "a = b"
      using assms(3) same by (simp_all add: utf8_char_def)
    show ?thesis
      by (rule conjI [OF div_mod_eqI(1) [OF div_mod_eqI(2) [OF div_mod_eqI(3) [OF e(1,2)] e(3)] e(4)] e(5)])
  qed
qed

interpretation utf8: nonempty_code utf8_char char_ok
  by unfold_locales (rule utf8_char_decode, assumption+, simp add: utf8_char_def)

lemma length_le_bytes [simp]: "length (le_bytes n x) = n"
  by (induction n arbitrary: x) simp_all

lemma le_bytes_inj:
  assumes "le_bytes n x = le_bytes n y" "0 \<le> x" "x < 256 ^ n" "0 \<le> y" "y < 256 ^ n"
  shows "x = y"
  using assms
proof (induction n arbitrary: x y)
  case (Suc n)
  have "x div 256 = y div 256" by (rule Suc.IH) (use Suc.prems in auto)
  moreover have "x mod 256 = y mod 256" using Suc.prems(1) by simp
  ultimately show ?case by (metis mult_div_mod_eq)
qed simp

lemma length_decode:
  assumes "le_bytes 8 (int m) @ a = le_bytes 8 (int n) @ b" "int m < 256 ^ 8" "int n < 256 ^ 8"
  shows "m = n \<and> a = b"
proof -
  have "le_bytes 8 (int m) = le_bytes 8 (int n) \<and> a = b"
    by (rule append_eq_append_conv [THEN iffD1, OF _ assms(1)]) simp
  moreover from this have "int m = int n" by (intro le_bytes_inj [OF _ _ assms(2) _ assms(3)]) auto
  ultimately show ?thesis by simp
qed

text \<open>Text whose byte length fits the 8 bytes of its length field.\<close>

definition text_ok :: "rstr \<Rightarrow> bool" where
  "text_ok s \<longleftrightarrow> (\<forall>c\<in>set s. char_ok c) \<and> int (length (utf8 s)) < 256 ^ 8"

lemma hash_field_decode:
  assumes "int (length u) < 256 ^ 8" "int (length v) < 256 ^ 8" "hash_field u @ a = hash_field v @ b"
  shows "u = v \<and> a = b"
proof -
  have "length u = length v \<and> u @ a = v @ b"
    by (rule length_decode) (use assms in \<open>simp_all add: hash_field_def\<close>)
  then show ?thesis using append_eq_append_conv [of u v a b] by simp
qed

lemma utf8_inj: "text_ok s \<Longrightarrow> text_ok t \<Longrightarrow> utf8 s = utf8 t \<Longrightarrow> s = t"
  unfolding utf8_def text_ok_def by (rule utf8.concat_inj) auto

interpretation field: prefix_code "\<lambda>s. hash_field (utf8 s)" text_ok
proof
  fix s t a b assume st: "text_ok s" "text_ok t" "hash_field (utf8 s) @ a = hash_field (utf8 t) @ b"
  then have "utf8 s = utf8 t \<and> a = b" by (intro hash_field_decode) (simp_all add: text_ok_def)
  with utf8_inj [OF st(1,2)] show "s = t \<and> a = b" by simp
qed

section \<open>Numbers\<close>

definition digits_value :: "rstr \<Rightarrow> int" where
  "digits_value s = foldl (\<lambda>a c. 10 * a + (c - 48)) 0 s"

lemma digits_value_dec [simp]: "0 \<le> n \<Longrightarrow> digits_value (dec_digits n) = n"
proof (induction n rule: dec_digits.induct)
  case (1 n)
  then show ?case
    by (cases "n < 10") (simp_all add: dec_digits.simps [of n] digits_value_def)
qed

lemma dec_digits_chars: "0 \<le> n \<Longrightarrow> c \<in> set (dec_digits n) \<Longrightarrow> 48 \<le> c \<and> c \<le> 57"
proof (induction n rule: dec_digits.induct)
  case (1 n)
  have "0 \<le> n mod 10 \<and> n mod 10 < 10" by simp
  with 1 show ?case
    by (cases "n < 10") (auto simp: dec_digits.simps [of n])
qed

lemma show_int_chars: "c \<in> set (show_int n) \<Longrightarrow> c = HYPHEN \<or> 48 \<le> c \<and> c \<le> 57"
  using dec_digits_chars [of n c] dec_digits_chars [of "- n" c] by (auto simp: show_int_def split: if_splits)

lemma show_int_inj: "show_int m = show_int n \<Longrightarrow> m = n"
proof -
  assume e: "show_int m = show_int n"
  have h: "HYPHEN \<in> set (show_int k) \<longleftrightarrow> k < 0" for k
    using dec_digits_chars [of k HYPHEN] by (auto simp: show_int_def)
  have "m < 0 \<longleftrightarrow> n < 0" using h e by metis
  then have s: "m < 0 \<longleftrightarrow> n < 0" "dec_digits \<bar>m\<bar> = dec_digits \<bar>n\<bar>"
    using e by (auto simp: show_int_def split: if_splits)
  have "\<bar>m\<bar> = digits_value (dec_digits \<bar>m\<bar>)" "\<bar>n\<bar> = digits_value (dec_digits \<bar>n\<bar>)" by simp_all
  with s show ?thesis by arith
qed

text \<open>\<open>serde_json\<close> keeps a non-negative integer, a negative one, or a float, whose text has a point or
  an exponent.\<close>

fun number_ok :: "json_number \<Rightarrow> bool" where
  "number_ok (PosInt n) \<longleftrightarrow> 0 \<le> n \<and> n < 2 ^ 64"
| "number_ok (NegInt n) \<longleftrightarrow> n < 0 \<and> - (2 ^ 63) \<le> n"
| "number_ok (FloatText t) \<longleftrightarrow> text_ok t \<and> (DOT \<in> set t \<or> 101 \<in> set t)"

lemma integer_text: "DOT \<notin> set (show_int n)" "101 \<notin> set (show_int n)"
  using show_int_chars [of DOT n] show_int_chars [of 101 n] by auto

lemma number_text_inj: "number_ok m \<Longrightarrow> number_ok n \<Longrightarrow> number_text m = number_text n \<Longrightarrow> m = n"
  by (cases m; cases n) (auto dest: show_int_inj simp: integer_text)

lemma length_dec_digits: "0 \<le> n \<Longrightarrow> int (length (dec_digits n)) \<le> max 1 n"
proof (induction n rule: dec_digits.induct)
  case (1 n)
  show ?case
  proof (cases "n < 10")
    case False
    then have "int (length (dec_digits (n div 10))) \<le> max 1 (n div 10)" using 1 by simp
    moreover have "n div 10 + 1 \<le> n" using False by presburger
    ultimately show ?thesis using False by (simp add: dec_digits.simps [of n])
  qed (simp add: dec_digits.simps [of n])
qed

lemma utf8_ascii: "\<forall>c\<in>set s. c < 128 \<Longrightarrow> utf8 s = s"
  by (induction s) (simp_all add: utf8_def utf8_char_def)

lemma text_ok_number: "number_ok n \<Longrightarrow> text_ok (number_text n)"
proof -
  have t: "text_ok (show_int k)" if k: "\<bar>k\<bar> < 2 ^ 64" "- (2 ^ 63) \<le> k" for k
  proof -
    have c: "\<forall>c\<in>set (show_int k). 0 \<le> c \<and> c < 128" using show_int_chars [of _ k] by fastforce
    have "int (length (show_int k)) \<le> (if k < 0 then 1 + max 1 (- k) else max 1 k)"
      using length_dec_digits [of k] length_dec_digits [of "- k"] by (auto simp: show_int_def)
    also have "\<dots> < 2 ^ 64" using k by auto
    finally have "int (length (show_int k)) < 2 ^ 64" .
    then show ?thesis using c utf8_ascii [of "show_int k"] by (auto simp: text_ok_def char_ok_def)
  qed
  show "number_ok n \<Longrightarrow> text_ok (number_text n)" by (cases n) (auto intro: t)
qed

section \<open>JSON\<close>

fun json_ok :: "json \<Rightarrow> bool" where
  "json_ok (JNumber n) = number_ok n"
| "json_ok (JString s) = text_ok s"
| "json_ok (JArray vs) = (int (length vs) < 256 ^ 8 \<and> (\<forall>v\<in>set vs. json_ok v))"
| "json_ok (JObject es) = (int (length es) < 256 ^ 8 \<and> sorted_wrt (<) (map fst es)
     \<and> (\<forall>(k, v)\<in>set es. text_ok k \<and> json_ok v))"
| "json_ok _ = True"

lemma hash_object:
  assumes "sorted_wrt (<) (map fst es)"
  shows "hash_json (JObject es) = 5 # le_bytes 8 (int (length es))
     @ concat (map (\<lambda>(k, v). hash_field (utf8 k) @ hash_json v) es)"
proof -
  have "sorted (map fst es)" using assms by (simp add: strict_sorted_iff)
  then have "sorted (map fst (map (\<lambda>(k, v). (k, hash_json v)) es))" by (simp add: comp_def case_prod_beta)
  then have "sort_key fst (map (\<lambda>(k, v). (k, hash_json v)) es) = map (\<lambda>(k, v). (k, hash_json v)) es"
    by (rule sort_key_id_if_sorted)
  then show ?thesis by (simp add: comp_def case_prod_unfold)
qed

lemma hash_json_decode:
  "json_ok v \<Longrightarrow> json_ok w \<Longrightarrow> hash_json v @ a = hash_json w @ b \<Longrightarrow> v = w \<and> a = b"
proof (induction v arbitrary: w a b)
  case (JNumber n)
  then obtain m where w: "w = JNumber m" by (cases w) auto
  have "number_text n = number_text m \<and> a = b"
    by (rule field.decode) (use JNumber w text_ok_number in auto)
  then show ?case using number_text_inj JNumber.prems w by auto
next
  case (JArray vs)
  then obtain ws where w: "w = JArray ws" by (cases w) auto
  have "length vs = length ws \<and> concat (map hash_json vs) @ a = concat (map hash_json ws) @ b"
    by (rule length_decode) (use JArray.prems w in auto)
  moreover have "vs = ws \<and> a = b" if "length vs = length ws"
      "concat (map hash_json vs) @ a = concat (map hash_json ws) @ b"
  proof (rule codes_decode [OF _ that])
    fix x y a b assume "x \<in> set vs" "y \<in> set ws" "hash_json x @ a = hash_json y @ b"
    then show "x = y \<and> a = b" using JArray.IH [of x y a b] JArray.prems(1,2) w by simp
  qed
  ultimately show ?case using w by blast
next
  case (JObject es)
  then obtain fs where w: "w = JObject fs" by (cases w) auto
  let ?enc = "\<lambda>(k, v). hash_field (utf8 k) @ hash_json v"
  have s: "sorted_wrt (<) (map fst es)" "sorted_wrt (<) (map fst fs)" using JObject.prems w by auto
  have "length es = length fs \<and> concat (map ?enc es) @ a = concat (map ?enc fs) @ b"
    by (rule length_decode) (use JObject.prems w hash_object [OF s(1)] hash_object [OF s(2)] in auto)
  moreover have "es = fs \<and> a = b" if "length es = length fs"
      "concat (map ?enc es) @ a = concat (map ?enc fs) @ b"
  proof (rule codes_decode [OF _ that])
    fix x y a b assume xy: "x \<in> set es" "y \<in> set fs" "?enc x @ a = ?enc y @ b"
    obtain k v l u where p: "x = (k, v)" "y = (l, u)" by fastforce
    have ok: "text_ok k" "text_ok l" "json_ok v" "json_ok u" using xy(1,2) JObject.prems w p by auto
    have "hash_field (utf8 k) @ (hash_json v @ a) = hash_field (utf8 l) @ (hash_json u @ b)"
      using xy(3) p by simp
    then have "k = l \<and> hash_json v @ a = hash_json u @ b" by (rule field.decode [OF ok(1,2)])
    moreover from this have "v = u \<and> a = b"
      using JObject.IH [of x v u a b] xy(1) p(1) ok(3,4) by auto
    ultimately show "x = y \<and> a = b" using p by simp
  qed
  ultimately show ?case using w by blast
next
  case JNull
  then show ?case by (cases w) auto
next
  case (JBool x)
  then show ?case by (cases w) (auto split: if_splits)
next
  case (JString x)
  then obtain y where w: "w = JString y" by (cases w) auto
  have "x = y \<and> a = b" by (rule field.decode) (use JString w in auto)
  then show ?case using w by simp
qed

interpretation json: prefix_code hash_json json_ok
  by unfold_locales (rule hash_json_decode)

section \<open>The request\<close>

text \<open>What the digest covers, and the rows whose text fits the length fields.\<close>

definition same_request :: "push_row \<Rightarrow> push_row \<Rightarrow> bool" where
  "same_request row row' \<longleftrightarrow> q_id row = q_id row' \<and> q_kind row = q_kind row' \<and> q_path row = q_path row'
     \<and> q_operation_id row = q_operation_id row' \<and> q_old_id row = q_old_id row' \<and> q_new_id row = q_new_id row'
     \<and> q_requester row = q_requester row' \<and> q_payload row = q_payload row'"

definition request_ok :: "push_row \<Rightarrow> bool" where
  "request_ok row \<longleftrightarrow> text_ok (queue_operation_id (q_id row)) \<and> text_ok (q_path row)
     \<and> text_ok (q_operation_id row) \<and> text_ok (q_old_id row) \<and> text_ok (q_new_id row)
     \<and> (\<forall>actor. q_requester row = Some actor \<longrightarrow> text_ok actor) \<and> json_ok (q_payload row)"

lemma requester_decode:
  assumes "\<forall>s. o1 = Some s \<longrightarrow> text_ok s" "\<forall>s. o2 = Some s \<longrightarrow> text_ok s"
    "(case o1 of None \<Rightarrow> [0] | Some s \<Rightarrow> 1 # hash_field (utf8 s)) @ a
     = (case o2 of None \<Rightarrow> [0] | Some s \<Rightarrow> 1 # hash_field (utf8 s)) @ b"
  shows "o1 = o2 \<and> a = b"
proof (cases o1; cases o2)
  fix s t assume o: "o1 = Some s" "o2 = Some t"
  have "s = t \<and> a = b" by (rule field.decode) (use assms o in auto)
  with o show ?thesis by simp
qed (use assms(3) in auto)

lemma writer_text [simp]: "text_ok (lit ''trunk_push'')" "text_ok (lit ''trunk_merge_stub'')" "text_ok MEGA_BRANCH_NAME"
  by (simp_all add: text_ok_def char_ok_def utf8_def utf8_char_def MEGA_BRANCH_NAME_def)

lemma request_bytes_inj:
  assumes "request_ok row" "request_ok row'" "text_ok k" "text_ok k'" "request_bytes row k = request_bytes row' k'"
  shows "k = k'" "q_kind row = q_kind row' \<Longrightarrow> same_request row row'"
proof -
  have ok: "text_ok (queue_operation_id (q_id row))" "text_ok (queue_operation_id (q_id row'))"
      "text_ok (q_path row)" "text_ok (q_path row')" "text_ok (q_operation_id row)" "text_ok (q_operation_id row')"
      "text_ok (q_old_id row)" "text_ok (q_old_id row')" "text_ok (q_new_id row)" "text_ok (q_new_id row')"
    using assms(1,2) by (simp_all add: request_ok_def)
  have e: "hash_field (utf8 (queue_operation_id (q_id row))) @ hash_field (utf8 (q_path row)) @ hash_field (utf8 k)
      @ hash_field (utf8 (q_operation_id row)) @ hash_field (utf8 MEGA_BRANCH_NAME)
      @ hash_field (utf8 (q_old_id row)) @ hash_field (utf8 (q_new_id row))
      @ (case q_requester row of None \<Rightarrow> [0] | Some s \<Rightarrow> 1 # hash_field (utf8 s)) @ hash_json (q_payload row) @ []
    = hash_field (utf8 (queue_operation_id (q_id row'))) @ hash_field (utf8 (q_path row')) @ hash_field (utf8 k')
      @ hash_field (utf8 (q_operation_id row')) @ hash_field (utf8 MEGA_BRANCH_NAME)
      @ hash_field (utf8 (q_old_id row')) @ hash_field (utf8 (q_new_id row'))
      @ (case q_requester row' of None \<Rightarrow> [0] | Some s \<Rightarrow> 1 # hash_field (utf8 s)) @ hash_json (q_payload row') @ []"
    using assms(5) by (simp add: request_bytes_def request_hasher_def)
  note e1 = field.decode [OF ok(1,2) e]
  note e2 = field.decode [OF ok(3,4) conjunct2 [OF e1]]
  note e3 = field.decode [OF assms(3,4) conjunct2 [OF e2]]
  note e4 = field.decode [OF ok(5,6) conjunct2 [OF e3]]
  note e5 = field.decode [OF writer_text(3) writer_text(3) conjunct2 [OF e4]]
  note e6 = field.decode [OF ok(7,8) conjunct2 [OF e5]]
  note e7 = field.decode [OF ok(9,10) conjunct2 [OF e6]]
  have r: "q_requester row = q_requester row' \<and> hash_json (q_payload row) @ [] = hash_json (q_payload row') @ []"
    by (rule requester_decode [OF _ _ conjunct2 [OF e7]]) (use assms(1,2) in \<open>simp_all add: request_ok_def\<close>)
  then have "q_payload row = q_payload row'"
    using json.decode [of "q_payload row" "q_payload row'" "[]" "[]"] assms(1,2) by (simp add: request_ok_def)
  moreover have "q_id row = q_id row'"
    using e1 show_int_inj by (auto simp: queue_operation_id_def)
  ultimately show "k = k'" "q_kind row = q_kind row' \<Longrightarrow> same_request row row'"
    using e2 e3 e4 e6 e7 r by (simp_all add: same_request_def)
qed

end
