(* ===== verification/Push_Queue_Storage.thy ===== *)
theory Push_Queue_Storage
  imports Publication
begin

text \<open>
  The queue table operations (\<open>src/jupiter/storage/push_queue_storage.rs\<close>). Every transaction is one
  function on the database; \<open>now\<close> is the clock value of its statements. The two partial unique
  indexes of \<open>push_queue\<close> (\<open>m20260905_000100_add_push_queue.rs\<close>) are checked by the insertion.
\<close>

section \<open>Types\<close>

datatype EnqueueRejectReason =
    Paused | HardStoppedReason | CapacityExceeded int | ActivePushPathConflict

datatype EnqueueOutcome =
    Inserted int | Adopted int | Replay int "rstr option" | Rejected EnqueueRejectReason

datatype ClaimOutcome = Claimed | ClaimHardStopped | Missed

record EnqueueParams =
  e_kind :: PushQueueKind
  e_operation_id :: rstr
  e_path :: rstr
  e_old_id :: rstr
  e_new_id :: rstr
  e_requester :: "rstr option"
  e_payload :: json

section \<open>Predicates of the SQL statements\<close>

definition is_active :: "push_row \<Rightarrow> bool" where
  "is_active r \<longleftrightarrow> active_status (q_status r)"

definition op_state :: "push_row \<Rightarrow> bool" where
  "op_state r \<longleftrightarrow> q_status r = Queued \<or> q_status r = Running \<or> q_status r = Done"

definition same_operation :: "PushQueueKind \<Rightarrow> rstr \<Rightarrow> rstr \<Rightarrow> push_row \<Rightarrow> bool" where
  "same_operation kind path operation_id r \<longleftrightarrow>
     q_kind r = kind \<and> q_path r = path \<and> q_operation_id r = operation_id"

definition retryable :: "push_row \<Rightarrow> bool" where
  "retryable r \<longleftrightarrow> q_status r = Failed \<or> q_status r = Cancelled \<and> q_superseded_by r = None"

definition count_non_terminal :: "db \<Rightarrow> int" where
  "count_non_terminal d = int (length (filter is_active (push_queue d)))"

text \<open>\<open>ORDER BY id DESC LIMIT 1\<close>.\<close>

definition latest :: "push_row list \<Rightarrow> push_row option" where
  "latest rows = (case rows of [] \<Rightarrow> None
     | r # rs \<Rightarrow> Some (fold (\<lambda>a b. if q_id a > q_id b then a else b) rs r))"

definition pred_payload :: "EnqueueParams \<Rightarrow> db \<Rightarrow> json option" where
  "pred_payload p d = map_option q_payload (latest (filter
     (\<lambda>r. same_operation (e_kind p) (e_path p) (e_operation_id p) r \<and> retryable r) (push_queue d)))"

section \<open>Insertion\<close>

text \<open>A new row as the column defaults leave it.\<close>

definition new_row :: "int \<Rightarrow> int \<Rightarrow> EnqueueParams \<Rightarrow> json \<Rightarrow> push_row" where
  "new_row now i p payload =
     \<lparr>q_id = i, q_kind = e_kind p, q_operation_id = e_operation_id p, q_path = e_path p,
      q_old_id = e_old_id p, q_new_id = e_new_id p, q_payload = payload, q_landed_commit_id = None,
      q_status = Queued, q_requester = e_requester p, q_failure_type = None,
      q_error_message = None, q_heartbeat_at = now, q_superseded_by = None,
      q_expected_commit_hash = None, q_expected_tree_hash = None,
      q_expected_native_sequence = None, q_expected_native_epoch = None,
      q_expected_native_certificate = None, q_pending_action = None, q_enqueued_at = now,
      q_started_at = None, q_finished_at = None, q_updated_at = now\<rparr>"

datatype insert_result =
    ZeroRows | Row int db | ViolatesActivePushPath db | ViolatesOperationStates db

definition violates_active_push_path :: "push_row \<Rightarrow> db \<Rightarrow> bool" where
  "violates_active_push_path r d \<longleftrightarrow> q_kind r = Push \<and> is_active r
     \<and> list_ex (\<lambda>x. q_kind x = Push \<and> q_path x = q_path r \<and> is_active x) (push_queue d)"

definition violates_operation_states :: "push_row \<Rightarrow> db \<Rightarrow> bool" where
  "violates_operation_states r d \<longleftrightarrow> op_state r
     \<and> list_ex (\<lambda>x. same_operation (q_kind r) (q_path r) (q_operation_id r) x \<and> op_state x)
         (push_queue d)"

text \<open>A failed insertion still consumes a value of the identity sequence.\<close>

definition insert_push_row :: "(int \<Rightarrow> push_row) \<Rightarrow> db \<Rightarrow> insert_result" where
  "insert_push_row mk d =
     (let r = mk (next_push_id d); d' = d\<lparr>next_push_id := next_push_id d + 1\<rparr> in
      if violates_active_push_path r d then ViolatesActivePushPath d'
      else if violates_operation_states r d then ViolatesOperationStates d'
      else Row (next_push_id d) (d'\<lparr>push_queue := push_queue d @ [r]\<rparr>))"

definition insert_admitted :: "EnqueueParams \<Rightarrow> db \<Rightarrow> bool" where
  "insert_admitted p d =
     (case control d of None \<Rightarrow> False
      | Some c \<Rightarrow> \<not> c_paused c \<and> \<not> c_hard_stopped c \<and> count_non_terminal d < c_max_depth c
          \<and> \<not> list_ex (\<lambda>r. same_operation (e_kind p) (e_path p) (e_operation_id p) r \<and> op_state r)
               (push_queue d))"

definition conditional_insert :: "int \<Rightarrow> EnqueueParams \<Rightarrow> db \<Rightarrow> insert_result" where
  "conditional_insert now p d =
     (if insert_admitted p d
      then insert_push_row (\<lambda>i. new_row now i p
             (case pred_payload p d of None \<Rightarrow> e_payload p | Some payload \<Rightarrow> payload)) d
      else ZeroRows)"

section \<open>B1: \<open>enqueue_atomic\<close>\<close>

definition find_op_state :: "PushQueueKind \<Rightarrow> rstr \<Rightarrow> rstr \<Rightarrow> db \<Rightarrow> push_row option" where
  "find_op_state kind path operation_id d =
     find (\<lambda>r. same_operation kind path operation_id r \<and> op_state r) (push_queue d)"

definition existing_outcome :: "push_row \<Rightarrow> EnqueueOutcome" where
  "existing_outcome r =
     (if q_status r = Done then Replay (q_id r) (q_landed_commit_id r) else Adopted (q_id r))"

definition classify_zero_row ::
    "PushQueueKind \<Rightarrow> rstr \<Rightarrow> rstr \<Rightarrow> db \<Rightarrow> mega_error + EnqueueOutcome option" where
  "classify_zero_row kind operation_id path d =
     (case find_op_state kind path operation_id d of
        Some existing \<Rightarrow> Ok (Some (existing_outcome existing))
      | None \<Rightarrow>
          (case control d of None \<Rightarrow> Err (Other (lit ''queue_control row missing''))
           | Some ctrl \<Rightarrow>
               if c_hard_stopped ctrl then Ok (Some (Rejected HardStoppedReason))
               else if c_paused ctrl then Ok (Some (Rejected Paused))
               else if count_non_terminal d \<ge> c_max_depth ctrl
                 then Ok (Some (Rejected (CapacityExceeded (c_max_depth ctrl))))
               else if kind = Push
                   \<and> list_ex (\<lambda>r. q_kind r = Push \<and> q_path r = path \<and> is_active r) (push_queue d)
                 then Ok (Some (Rejected ActivePushPathConflict))
               else Ok None))"

text \<open>The stored row with the caller's request fields, which must match its receipt if it has one.\<close>

definition replay_candidate :: "EnqueueParams \<Rightarrow> push_row \<Rightarrow> push_row" where
  "replay_candidate p r = r\<lparr>q_old_id := e_old_id p, q_new_id := e_new_id p,
     q_requester := e_requester p, q_payload := e_payload p\<rparr>"

definition mega_of_publication :: "PublicationReceiptError \<Rightarrow> mega_error" where
  "mega_of_publication e = Other (publication_error_text e)"

definition check_replay :: "ext \<Rightarrow> EnqueueParams \<Rightarrow> db \<Rightarrow> push_row \<Rightarrow> mega_error + unit" where
  "check_replay x p d r =
     (if e_kind p = Attach then Ok ()
      else map_err mega_of_publication
        (validate_queue_publication_replay_in_txn x d (replay_candidate p r)))"

definition finish_classified ::
    "ext \<Rightarrow> EnqueueParams \<Rightarrow> EnqueueOutcome \<Rightarrow> db \<Rightarrow> mega_error + EnqueueOutcome" where
  "finish_classified x p outcome d =
     (let confirm = (\<lambda>i. case find_push i d of
            None \<Rightarrow> if e_kind p = Attach then Ok outcome
                    else Err (Other (lit ''queue replay row missing''))
          | Some r \<Rightarrow> bindR (check_replay x p d r) (\<lambda>_. Ok outcome)) in
      case outcome of
        Adopted i \<Rightarrow> confirm i
      | Replay i _ \<Rightarrow> confirm i
      | Rejected _ \<Rightarrow> Ok outcome
      | Inserted _ \<Rightarrow> Ok outcome)"

definition classify_violation ::
    "ext \<Rightarrow> EnqueueParams \<Rightarrow> db \<Rightarrow> mega_error + EnqueueOutcome" where
  "classify_violation x p d =
     (case find_op_state (e_kind p) (e_path p) (e_operation_id p) d of
        Some existing \<Rightarrow> bindR (check_replay x p d existing) (\<lambda>_. Ok (existing_outcome existing))
      | None \<Rightarrow> Err (Other (lit ''unique conflict without classifiable row'')))"

text \<open>
  Terminal updates do not take the admission lock, so other sessions may commit between the
  statements: \<open>race1\<close> between the insertion and the first classification, \<open>race2\<close> between that and
  the second insertion, \<open>race3\<close> before the second classification. Under the lock nobody else
  inserts.
\<close>

definition enqueue_retry ::
    "ext \<Rightarrow> int \<Rightarrow> (db \<Rightarrow> db) \<Rightarrow> EnqueueParams \<Rightarrow> db \<Rightarrow> (mega_error + EnqueueOutcome) \<times> db" where
  "enqueue_retry x now race3 p d =
     (case conditional_insert now p d of
        Row i d' \<Rightarrow> (Ok (Inserted i), d')
      | ViolatesActivePushPath d' \<Rightarrow> (Err (Other (lit ''push_queue_active_push_path'')), d')
      | ViolatesOperationStates d' \<Rightarrow> (Err (Other (lit ''push_queue_operation_states'')), d')
      | ZeroRows \<Rightarrow>
          let d3 = race3 d in
          (case classify_zero_row (e_kind p) (e_operation_id p) (e_path p) d3 of
             Inl e \<Rightarrow> Err e
           | Inr (Some outcome) \<Rightarrow> finish_classified x p outcome d3
           | Inr None \<Rightarrow> Err (Other
               (lit ''B1 INSERT returned 0 rows without a classifiable cause'')), d3))"

definition enqueue_atomic ::
    "ext \<Rightarrow> int \<Rightarrow> (db \<Rightarrow> db) \<Rightarrow> (db \<Rightarrow> db) \<Rightarrow> (db \<Rightarrow> db) \<Rightarrow> EnqueueParams \<Rightarrow> db
     \<Rightarrow> (mega_error + EnqueueOutcome) \<times> db" where
  "enqueue_atomic x now race1 race2 race3 p d =
     (case conditional_insert now p d of
        Row i d' \<Rightarrow> (Ok (Inserted i), d')
      | ViolatesActivePushPath d' \<Rightarrow> (Ok (Rejected ActivePushPathConflict), d')
      | ViolatesOperationStates d' \<Rightarrow> (classify_violation x p (race1 d'), race1 d')
      | ZeroRows \<Rightarrow>
          let d1 = race1 d in
          (case classify_zero_row (e_kind p) (e_operation_id p) (e_path p) d1 of
             Inl e \<Rightarrow> (Err e, d1)
           | Inr (Some outcome) \<Rightarrow> (finish_classified x p outcome d1, d1)
           | Inr None \<Rightarrow> enqueue_retry x now race3 p (race2 d1)))"

section \<open>Reads\<close>

definition get_control :: "db \<Rightarrow> mega_error + queue_control" where
  "get_control d = (case control d of None \<Rightarrow> Err (Other (lit ''queue_control row missing''))
     | Some c \<Rightarrow> Ok c)"

definition is_hard_stopped_in_txn :: "db \<Rightarrow> mega_error + bool" where
  "is_hard_stopped_in_txn d = bindR (get_control d) (\<lambda>c. Ok (c_hard_stopped c))"

definition list_active :: "db \<Rightarrow> push_row list" where
  "list_active d = sort_key q_id (filter is_active (push_queue d))"

definition list_merge_for_legacy_ui :: "db \<Rightarrow> push_row list" where
  "list_merge_for_legacy_ui d =
     sort_key q_id (filter (\<lambda>r. q_kind r = Merge \<and> q_status r \<noteq> Done) (push_queue d))"

definition count_by_kind_and_status :: "PushQueueKind \<Rightarrow> PushQueueStatus \<Rightarrow> db \<Rightarrow> int" where
  "count_by_kind_and_status kind status d =
     int (length (filter (\<lambda>r. q_kind r = kind \<and> q_status r = status) (push_queue d)))"

definition count_by_status :: "PushQueueStatus \<Rightarrow> db \<Rightarrow> int" where
  "count_by_status status d = int (length (filter (\<lambda>r. q_status r = status) (push_queue d)))"

definition list_by_kind_and_operation :: "PushQueueKind \<Rightarrow> rstr \<Rightarrow> db \<Rightarrow> push_row list" where
  "list_by_kind_and_operation kind operation_id d =
     rev (sort_key q_id
       (filter (\<lambda>r. q_kind r = kind \<and> q_operation_id r = operation_id) (push_queue d)))"

definition list_running_in_txn :: "db \<Rightarrow> push_row list" where
  "list_running_in_txn d = sort_key q_id (filter (\<lambda>r. q_status r = Running) (push_queue d))"

section \<open>Control row\<close>

definition set_last_policy :: "int \<Rightarrow> rstr \<Rightarrow> db \<Rightarrow> (mega_error + unit) \<times> db" where
  "set_last_policy now policy d =
     (case control d of
        None \<Rightarrow> (Err (Other (lit ''queue_control last_policy update affected 0 rows'')), d)
      | Some c \<Rightarrow> (Ok (), d\<lparr>control := Some (c\<lparr>c_last_policy := policy, c_updated_at := now\<rparr>)\<rparr>))"

text \<open>\<open>{:?}\<close> of a policy name is the quoted name.\<close>

definition policy_change_refused :: "rstr \<Rightarrow> rstr \<Rightarrow> int \<Rightarrow> mega_error" where
  "policy_change_refused last_policy new_policy n = Other (lit ''push_policy changing from '' @ [34]
     @ last_policy @ [34] @ lit '' to '' @ new_policy @ lit '' with '' @ show_int n
     @ lit '' non-terminal push_queue row(s); drain or cancel them first'')"

definition switch_last_policy_if_queue_empty ::
    "int \<Rightarrow> rstr \<Rightarrow> db \<Rightarrow> (mega_error + (rstr \<times> rstr) option) \<times> db" where
  "switch_last_policy_if_queue_empty now new_policy d =
     (case control d of
        None \<Rightarrow> (Err (Other (lit ''queue_control row missing'')), d)
      | Some c \<Rightarrow>
          if c_last_policy c = new_policy then (Ok None, d)
          else if count_non_terminal d > 0
            then (Err (policy_change_refused (c_last_policy c) new_policy (count_non_terminal d)), d)
          else (Ok (Some (c_last_policy c, new_policy)),
            d\<lparr>blob_paths := map (\<lambda>(path, _). (path, None)) (blob_paths d),
              control := Some (c\<lparr>c_last_policy := new_policy, c_updated_at := now\<rparr>)\<rparr>))"

definition set_control_flags ::
    "int \<Rightarrow> bool option \<Rightarrow> bool option \<Rightarrow> int option \<Rightarrow> db \<Rightarrow> db" where
  "set_control_flags now paused hard_stopped max_depth d =
     d\<lparr>control := map_option (\<lambda>c.
        let c1 = (case paused of None \<Rightarrow> c | Some b \<Rightarrow> c\<lparr>c_paused := b, c_updated_at := now\<rparr>);
            c2 = (case hard_stopped of None \<Rightarrow> c1
                  | Some b \<Rightarrow> c1\<lparr>c_hard_stopped := b, c_updated_at := now\<rparr>)
        in (case max_depth of None \<Rightarrow> c2 | Some n \<Rightarrow> c2\<lparr>c_max_depth := n, c_updated_at := now\<rparr>))
       (control d)\<rparr>"

definition set_hard_stopped_in_txn :: "int \<Rightarrow> bool \<Rightarrow> db \<Rightarrow> db" where
  "set_hard_stopped_in_txn now b d =
     d\<lparr>control := map_option (\<lambda>c. c\<lparr>c_hard_stopped := b, c_updated_at := now\<rparr>) (control d)\<rparr>"

definition cas_published_version :: "int \<Rightarrow> int \<Rightarrow> db \<Rightarrow> bool \<times> db" where
  "cas_published_version now version d =
     (case control d of None \<Rightarrow> (False, d)
      | Some c \<Rightarrow>
          if c_published_version c < version
          then (True, d\<lparr>control := Some (c\<lparr>c_published_version := version, c_updated_at := now\<rparr>)\<rparr>)
          else (False, d))"

definition load_published_version :: "db \<Rightarrow> mega_error + int" where
  "load_published_version d = bindR (get_control d) (\<lambda>c. Ok (c_published_version c))"

section \<open>Authorization outbox\<close>

definition insert_authz_outbox :: "int option \<Rightarrow> bool \<Rightarrow> db \<Rightarrow> db" where
  "insert_authz_outbox version dirty d =
     d\<lparr>authz_outbox := authz_outbox d
        @ [\<lparr>a_id = int (length (authz_outbox d)) + 1, a_version = version, a_dirty = dirty,
            a_replayed_at = None\<rparr>]\<rparr>"

definition pending_authz_outbox :: "db \<Rightarrow> authz_outbox_row list" where
  "pending_authz_outbox d = sort_key a_id (filter (\<lambda>a. a_replayed_at a = None) (authz_outbox d))"

definition mark_authz_outbox_replayed :: "int \<Rightarrow> int \<Rightarrow> db \<Rightarrow> db" where
  "mark_authz_outbox_replayed now i d =
     d\<lparr>authz_outbox := update_where (\<lambda>a. a_id a = i \<and> a_replayed_at a = None)
        (\<lambda>a. a\<lparr>a_replayed_at := Some now\<rparr>) (authz_outbox d)\<rparr>"

section \<open>Status changes\<close>

definition touch_heartbeat :: "int \<Rightarrow> int \<Rightarrow> db \<Rightarrow> db" where
  "touch_heartbeat now i d = snd (update_queue (\<lambda>r. q_id r = i)
     (\<lambda>r. r\<lparr>q_heartbeat_at := now, q_updated_at := now\<rparr>) d)"

text \<open>The assignments shared by the statements that end a row.\<close>

definition finish_row ::
    "int \<Rightarrow> PushQueueStatus \<Rightarrow> PushQueueFailure \<Rightarrow> rstr \<Rightarrow> push_row \<Rightarrow> push_row" where
  "finish_row now status failure message r = r\<lparr>q_status := status, q_failure_type := Some failure,
     q_error_message := Some message, q_finished_at := Some now, q_pending_action := None,
     q_updated_at := now\<rparr>"

definition freeze_merge_for_authz :: "int \<Rightarrow> rstr \<Rightarrow> rstr \<Rightarrow> db \<Rightarrow> bool \<times> db" where
  "freeze_merge_for_authz now cl_link message d =
     (let (n, d') = update_queue
        (\<lambda>r. q_kind r = Merge \<and> q_operation_id r = cl_link \<and> is_active r)
        (finish_row now Failed SystemError message) d in (n > 0, d'))"

definition cancel_if_queued :: "int \<Rightarrow> int \<Rightarrow> db \<Rightarrow> bool \<times> db" where
  "cancel_if_queued now i d =
     (let (n, d') = update_queue (\<lambda>r. q_id r = i \<and> q_status r = Queued)
        (finish_row now Cancelled SystemError (lit ''cancelled by operator'')) d in (n = 1, d'))"

definition cancel_stale_queued_in_txn :: "int \<Rightarrow> int \<Rightarrow> db \<Rightarrow> nat \<times> db" where
  "cancel_stale_queued_in_txn now cutoff d =
     update_queue (\<lambda>r. q_status r = Queued \<and> q_heartbeat_at r < cutoff)
       (finish_row now Cancelled SystemError (lit ''heartbeat timeout'')) d"

definition requeue_row :: "int \<Rightarrow> push_row \<Rightarrow> push_row" where
  "requeue_row now r = r\<lparr>q_status := Queued, q_started_at := None, q_expected_commit_hash := None,
     q_expected_tree_hash := None, q_expected_native_sequence := None,
     q_expected_native_epoch := None, q_expected_native_certificate := None,
     q_heartbeat_at := now, q_updated_at := now\<rparr>"

definition running_row :: "int \<Rightarrow> push_row \<Rightarrow> bool" where
  "running_row i r \<longleftrightarrow> q_id r = i \<and> q_status r = Running"

definition reset_running_to_queued_in_txn :: "int \<Rightarrow> int \<Rightarrow> db \<Rightarrow> bool \<times> db" where
  "reset_running_to_queued_in_txn now i d =
     (let (n, d') = update_queue (running_row i) (requeue_row now) d in (n = 1, d'))"

definition reset_running_to_queued :: "int \<Rightarrow> int \<Rightarrow> db \<Rightarrow> bool \<times> db" where
  "reset_running_to_queued now i d =
     (let (n, d') = update_queue (running_row i)
        (\<lambda>r. (requeue_row now r)\<lparr>q_pending_action := None\<rparr>) d in (n = 1, d'))"

definition persist_requeue_conflict_intent :: "int \<Rightarrow> int \<Rightarrow> db \<Rightarrow> bool \<times> db" where
  "persist_requeue_conflict_intent now i d =
     (let (n, d') = update_queue (running_row i)
        (\<lambda>r. r\<lparr>q_pending_action := Some RequeueConflict, q_updated_at := now\<rparr>) d in (n = 1, d'))"

definition done_row :: "int \<Rightarrow> rstr \<Rightarrow> push_row \<Rightarrow> push_row" where
  "done_row now landed_commit_id r = r\<lparr>q_status := Done, q_landed_commit_id := Some landed_commit_id,
     q_finished_at := Some now, q_pending_action := None, q_updated_at := now\<rparr>"

definition mark_done_if_running_in_txn :: "int \<Rightarrow> int \<Rightarrow> rstr \<Rightarrow> db \<Rightarrow> bool \<times> db" where
  "mark_done_if_running_in_txn now i landed_commit_id d =
     (let (n, d') = update_queue (running_row i) (done_row now landed_commit_id) d in (n = 1, d'))"

definition mark_failed_if_running_in_txn ::
    "int \<Rightarrow> int \<Rightarrow> PushQueueFailure \<Rightarrow> rstr \<Rightarrow> db \<Rightarrow> bool \<times> db" where
  "mark_failed_if_running_in_txn now i failure message d =
     (let (n, d') = update_queue (running_row i) (finish_row now Failed failure message) d
      in (n = 1, d'))"

section \<open>B2.5: \<open>claim_for_execution\<close>\<close>

text \<open>\<open>max\<close> over the selected rows, NULL when there are none.\<close>

definition sql_max :: "rstr list \<Rightarrow> rstr option" where
  "sql_max xs = (case xs of [] \<Rightarrow> None | s # ss \<Rightarrow> Some (fold max ss s))"

definition min_queued :: "db \<Rightarrow> int option" where
  "min_queued d = (case map q_id (filter (\<lambda>r. q_status r = Queued) (push_queue d)) of
     [] \<Rightarrow> None | i # is \<Rightarrow> Some (fold min is i))"

definition claimable :: "int \<Rightarrow> db \<Rightarrow> push_row \<Rightarrow> bool" where
  "claimable i d r \<longleftrightarrow> q_id r = i \<and> q_status r = Queued
     \<and> \<not> list_ex (\<lambda>x. q_status x = Running) (push_queue d) \<and> min_queued d = Some i"

definition claim_row :: "int \<Rightarrow> bool \<Rightarrow> db \<Rightarrow> push_row \<Rightarrow> push_row" where
  "claim_row now native_enabled d r =
     (let roots = filter (is_main_ref (lit ''/'')) (refs d);
          head = (if native_enabled then native_head d else None) in
      r\<lparr>q_status := Running, q_started_at := Some now, q_heartbeat_at := now, q_updated_at := now,
        q_expected_commit_hash := sql_max (map ref_commit_hash roots),
        q_expected_tree_hash := sql_max (map ref_tree_hash roots),
        q_expected_native_sequence := map_option h_sequence head,
        q_expected_native_epoch := map_option h_writer_epoch head,
        q_expected_native_certificate := Option.bind head h_certificate_receipt_id\<rparr>)"

definition claim_for_execution ::
    "ext \<Rightarrow> bool \<Rightarrow> int \<Rightarrow> int \<Rightarrow> db \<Rightarrow> (mega_error + ClaimOutcome) \<times> db" where
  "claim_for_execution x native_enabled now i d =
     (case control d of
        None \<Rightarrow> (Err (Other (lit ''queue_control row missing'')), d)
      | Some ctrl \<Rightarrow>
          if c_hard_stopped ctrl then (Ok ClaimHardStopped, d)
          else if \<not> list_ex (claimable i d) (push_queue d) then (Ok Missed, d)
          else
            let d' = d\<lparr>push_queue := update_where (claimable i d) (claim_row now native_enabled d)
                         (push_queue d)\<rparr> in
            if native_enabled then
              (case observe_native x d of
                 Inl e \<Rightarrow> (Err (mega_of_publication e), d)
               | Inr observation \<Rightarrow>
                   if ob_head observation = None
                     then (Err (Other (lit ''native publication is not initialized'')), d)
                   else (Ok Claimed, d'))
            else (Ok Claimed, d'))"

section \<open>B4: conflict requeue\<close>

definition params_of_row :: "push_row \<Rightarrow> EnqueueParams" where
  "params_of_row r = \<lparr>e_kind = q_kind r, e_operation_id = q_operation_id r, e_path = q_path r,
     e_old_id = q_old_id r, e_new_id = q_new_id r, e_requester = q_requester r,
     e_payload = q_payload r\<rparr>"

definition requeue_intent :: "int \<Rightarrow> push_row \<Rightarrow> bool" where
  "requeue_intent i r \<longleftrightarrow> q_id r = i \<and> q_status r = Running
     \<and> q_pending_action r = Some RequeueConflict \<and> q_superseded_by r = None"

definition complete_conflict_requeue_in_txn ::
    "int \<Rightarrow> push_row \<Rightarrow> db \<Rightarrow> mega_error + int \<times> db" where
  "complete_conflict_requeue_in_txn now old d =
     (let (n, d1) = update_queue (requeue_intent (q_id old))
        (\<lambda>r. r\<lparr>q_status := Cancelled, q_failure_type := Some ConflictFailure,
           q_finished_at := Some now, q_pending_action := None, q_updated_at := now\<rparr>) d in
      if n = 0 then
        (case Option.bind (find_push (q_id old) d1) q_superseded_by of
           Some successor_id \<Rightarrow> Ok (successor_id, d1)
         | None \<Rightarrow> Err (Other (lit ''conflict requeue: old row not Running with requeue_conflict intent and superseded_by IS NULL'')))
      else
        (case insert_push_row (\<lambda>i. new_row now i (params_of_row old) (q_payload old)) d1 of
           Row successor_id d2 \<Rightarrow>
             Ok (successor_id, snd (update_queue (\<lambda>r. q_id r = q_id old)
               (\<lambda>r. r\<lparr>q_superseded_by := Some successor_id, q_updated_at := now\<rparr>) d2))
         | _ \<Rightarrow> Err (Other (lit ''duplicate key''))))"

end
