(* ===== verification/Push_Queue_Service.thy ===== *)
theory Push_Queue_Service
  imports Push_Queue_Storage Path_Policy
begin

text \<open>
  The mono write queue (\<open>src/jupiter/service/push_queue_service.rs\<close>): admission checks (B0), enqueue
  (B1), waiting and claiming (B2, B2.5), execution under the mono write lock (B3) and conflict
  requeue (B4). The attach and merge writers and the tree rewriting of a landing push are
  arguments: the theorems hold for all of them. Test-only switches, metrics, notifications and the
  blob index that runs after the commit are left out.
\<close>

section \<open>Requests and contexts\<close>

datatype PushPolicy = Review | Trunk

record service_config =
  push_policy :: PushPolicy
  max_push_commits :: int
  wait_timeout :: int
  native_publication_enabled :: bool

record EnqueueRequest =
  er_params :: EnqueueParams
  er_ref_name :: "rstr option"
  er_is_delete :: bool

datatype QueueWaitResult =
    Ready int | Replayed int "rstr option" | Abandoned int | WaitRejected int rstr

datatype ExecuteOutcome =
    ExecDone int rstr int
  | ClaimLost int
  | ExecHardStopped int
  | BypassDetected int
  | Requeued int int
  | ExecFailed int PushQueueFailure rstr

record StaleMainRef =
  st_path :: rstr
  st_last_commit_hash :: rstr
  st_stored_tree_hash :: rstr
  st_resolved_tree_hash :: "rstr option"

datatype KindRootWrite = NetZero | Advance

record ExecuteRequest =
  ex_id :: int
  ex_kind_root_write :: KindRootWrite
  ex_advance_commit :: "rstr option"
  ex_advance_tree :: "rstr option"

definition mega_error_text :: "mega_error \<Rightarrow> rstr" where
  "mega_error_text e = (case e of Other m \<Rightarrow> lit ''Other error: '' @ m)"

text \<open>A started round of the attach or merge writer: the claimed row, the current root and the state
  of the transaction give the outcome and the committed state.\<close>

type_synonym kind_writer =
  "push_row \<Rightarrow> rstr option \<Rightarrow> rstr option \<Rightarrow> ref_row option \<Rightarrow> db \<Rightarrow> (mega_error + ExecuteOutcome) \<times> db"

record MergeExecContext =
  mc_publication_enabled :: bool
  mc_execute :: kind_writer

text \<open>Tree rewriting, commit synthesis, \<open>apply_push_in_txn\<close> and the descendant refs of a landing push:
  an \<open>Err\<close> return, an error of the apply, or the landed commit, the number of root writes and the
  new state.\<close>

datatype land_result = LandAbort mega_error | ApplyError rstr | Landed rstr int db

record PushExecContext =
  pc_publication_enabled :: bool
  pc_instance_uuid :: "rstr option"
  pc_object_hash_kind :: "mega_error + unit"
  pc_valid_oid :: "rstr \<Rightarrow> bool"
  pc_monorepo :: MonoConfig
  pc_land :: "push_row \<Rightarrow> bool \<Rightarrow> ref_row \<Rightarrow> rstr \<Rightarrow> db \<Rightarrow> land_result"
  pc_publish_target_paths :: "db \<Rightarrow> mega_error + db"

section \<open>Operation ids\<close>

text \<open>The separator is U+2192.\<close>

definition push_operation_id :: "rstr \<Rightarrow> rstr \<Rightarrow> rstr" where
  "push_operation_id old_id new_id = old_id @ [8594] @ new_id"

definition merge_operation_id :: "rstr \<Rightarrow> rstr" where
  "merge_operation_id cl_link = cl_link"

definition attach_operation_id :: "ext \<Rightarrow> rstr \<Rightarrow> rstr \<Rightarrow> rstr" where
  "attach_operation_id x repo_id normalized_commands =
     x_sha256_hex x (utf8 repo_id @ [0] @ utf8 normalized_commands)"

definition detach_operation_id :: "ext \<Rightarrow> int \<Rightarrow> rstr \<Rightarrow> rstr" where
  "detach_operation_id x repo_id canonical_path =
     x_sha256_hex x (utf8 (lit ''import_repo.detach'') @ [0] @ utf8 (show_int repo_id) @ [0]
       @ utf8 canonical_path)"

definition normalize_attach_commands :: "(rstr \<times> rstr \<times> rstr \<times> rstr) list \<Rightarrow> rstr" where
  "normalize_attach_commands cmds =
     join_with [10] (map (\<lambda>(name, ctype, old_id, new_id).
        name @ lit '':'' @ ctype @ lit '':'' @ old_id @ lit '':'' @ new_id)
      (sort_key (\<lambda>(a, b, c, e). [a, b, c, e]) cmds))"

section \<open>The push descriptor\<close>

record PushPayload =
  pl_commits :: "rstr list"
  pl_fork_base :: "rstr option"
  pl_n :: int

definition U32_MAX :: int where "U32_MAX = 4294967295"

definition from_chain :: "rstr \<Rightarrow> rstr \<Rightarrow> rstr list \<Rightarrow> rstr \<Rightarrow> PushPayload" where
  "from_chain old_id new_id ordered_commits base =
     \<lparr>pl_commits = ordered_commits, pl_fork_base = Some base,
      pl_n = (if old_id = new_id then 0 else min (int (length ordered_commits)) U32_MAX)\<rparr>"

definition to_json :: "PushPayload \<Rightarrow> json" where
  "to_json p = JObject
     [(lit ''commits'', JArray (map JString (pl_commits p))),
      (lit ''fork_base'', case pl_fork_base p of None \<Rightarrow> JNull | Some s \<Rightarrow> JString s),
      (lit ''n'', JNumber (PosInt (pl_n p)))]"

text \<open>The derived \<open>Deserialize\<close>: an object with the three fields (\<open>fork_base\<close> may be absent, other
  fields are ignored) or an array of exactly the three values.\<close>

fun json_string :: "json \<Rightarrow> rstr option" where
  "json_string (JString s) = Some s"
| "json_string _ = None"

fun json_strings :: "json list \<Rightarrow> rstr list option" where
  "json_strings [] = Some []"
| "json_strings (v # vs) =
     (case (json_string v, json_strings vs) of (Some s, Some ss) \<Rightarrow> Some (s # ss) | _ \<Rightarrow> None)"

fun json_string_array :: "json \<Rightarrow> rstr list option" where
  "json_string_array (JArray vs) = json_strings vs"
| "json_string_array _ = None"

fun json_opt_string :: "json \<Rightarrow> rstr option option" where
  "json_opt_string JNull = Some None"
| "json_opt_string (JString s) = Some (Some s)"
| "json_opt_string _ = None"

definition json_u32 :: "json \<Rightarrow> int option" where
  "json_u32 v = (case json_as_u64 v of None \<Rightarrow> None
     | Some n \<Rightarrow> if n \<le> U32_MAX then Some n else None)"

definition payload_of_fields :: "json \<Rightarrow> json \<Rightarrow> json \<Rightarrow> PushPayload option" where
  "payload_of_fields cs fb n =
     (case (json_string_array cs, json_opt_string fb, json_u32 n) of
        (Some a, Some b, Some c) \<Rightarrow> Some \<lparr>pl_commits = a, pl_fork_base = b, pl_n = c\<rparr>
      | _ \<Rightarrow> None)"

fun push_payload_from_value :: "json \<Rightarrow> PushPayload option" where
  "push_payload_from_value (JObject entries) =
     (case (map_of entries (lit ''commits''), map_of entries (lit ''n'')) of
        (Some cs, Some n) \<Rightarrow>
          payload_of_fields cs
            (case map_of entries (lit ''fork_base'') of None \<Rightarrow> JNull | Some fb \<Rightarrow> fb) n
      | _ \<Rightarrow> None)"
| "push_payload_from_value (JArray [cs, fb, n]) = payload_of_fields cs fb n"
| "push_payload_from_value _ = None"

section \<open>B0 and B1\<close>

definition MAX_CL_CHAIN_COMMITS :: int where "MAX_CL_CHAIN_COMMITS = 250"

definition b0_reject_push :: "service_config \<Rightarrow> EnqueueRequest \<Rightarrow> mega_error + unit" where
  "b0_reject_push cfg req =
     (let p = er_params req in
      if e_kind p \<noteq> Push then Ok ()
      else if push_policy cfg = Review then Err (Other
        (lit ''push_policy=review: push does not enter MonoWriteQueue (CL pipeline only)''))
      else if er_is_delete req \<or> is_protocol_zero_id (e_new_id p) then Err (Other
        (lit ''trunk push rejects delete commands; remove content via a parent-path commit''))
      else
        let name = (case er_ref_name req of None \<Rightarrow> [] | Some s \<Rightarrow> s) in
        if name \<noteq> MEGA_BRANCH_NAME
          then Err (Other (lit ''trunk push requires ref_name='' @ MEGA_BRANCH_NAME
                 @ lit '', got '' @ [39] @ name @ [39]))
        else if e_path p = lit ''/'' then Err (Other
          (lit ''trunk push rejects path=/ (root path would collapse root CAS with P landing)''))
        else
          let chain_limit = (case push_policy cfg of Trunk \<Rightarrow> max_push_commits cfg
                             | Review \<Rightarrow> MAX_CL_CHAIN_COMMITS) in
          (case Option.bind (json_get (lit ''n'') (e_payload p)) json_as_u64 of
             Some n \<Rightarrow>
               if n > chain_limit then Err (Other (lit ''push introduces more than ''
                   @ show_int chain_limit @ lit '' commits in one chain; split the changes into smaller pushes or squash and re-push''))
               else Ok ()
           | None \<Rightarrow> Ok ()))"

definition b0_reject_create_on_tombstone :: "EnqueueRequest \<Rightarrow> db \<Rightarrow> mega_error + unit" where
  "b0_reject_create_on_tombstone req d =
     (let p = er_params req in
      if e_kind p \<noteq> Push \<or> \<not> is_protocol_zero_id (e_old_id p) then Ok ()
      else if get_tombstone (e_path p) MEGA_BRANCH_NAME d = None then Ok ()
      else Err (Other (lit ''tombstone exists for '' @ e_path p @ lit '': recreate the parent directory, advertise to continue from the tombstone tip, fetch to align, then push'')))"

definition enqueue ::
    "ext \<Rightarrow> service_config \<Rightarrow> int \<Rightarrow> (db \<Rightarrow> db) \<Rightarrow> (db \<Rightarrow> db) \<Rightarrow> (db \<Rightarrow> db) \<Rightarrow> EnqueueRequest \<Rightarrow> db
     \<Rightarrow> (mega_error + EnqueueOutcome) \<times> db" where
  "enqueue x cfg now race1 race2 race3 req d =
     (case bindR (b0_reject_push cfg req) (\<lambda>_. b0_reject_create_on_tombstone req d) of
        Inl e \<Rightarrow> (Err e, d)
      | Inr _ \<Rightarrow> enqueue_atomic x now race1 race2 race3 (er_params req) d)"

definition reject_to_error :: "EnqueueRejectReason \<Rightarrow> mega_error" where
  "reject_to_error reason = Other (case reason of
      Paused \<Rightarrow> lit ''push_queue is paused''
    | HardStoppedReason \<Rightarrow> lit ''push_queue is hard-stopped''
    | CapacityExceeded max_depth \<Rightarrow> lit ''push_queue depth exceeds max_depth='' @ show_int max_depth
    | ActivePushPathConflict \<Rightarrow>
        lit ''another push for this path is already Queued/Running (ADR-TP-10)'')"

section \<open>Operator actions\<close>

datatype CancelQueuedOutcome = WasCancelled | NotFound | NotQueued PushQueueStatus

definition pause :: "int \<Rightarrow> db \<Rightarrow> db" where
  "pause now d = set_control_flags now (Some True) None None d"

definition resume :: "int \<Rightarrow> db \<Rightarrow> db" where
  "resume now d = set_control_flags now (Some False) None None d"

definition clear_hard_stop :: "int \<Rightarrow> db \<Rightarrow> db" where
  "clear_hard_stop now d = set_control_flags now None (Some False) None d"

definition cancel_queued :: "int \<Rightarrow> (db \<Rightarrow> db) \<Rightarrow> int \<Rightarrow> db \<Rightarrow> CancelQueuedOutcome \<times> db" where
  "cancel_queued now race i d =
     (case find_push i d of
        None \<Rightarrow> (NotFound, d)
      | Some r \<Rightarrow>
          if q_status r \<noteq> Queued then (NotQueued (q_status r), d)
          else
            let (won, d') = cancel_if_queued now i (race d) in
            if won then (WasCancelled, d')
            else (NotQueued (case find_push i d' of None \<Rightarrow> Cancelled | Some r' \<Rightarrow> q_status r'), d'))"

record QueueSnapshotItem =
  si_id :: int
  si_path :: rstr
  si_kind :: PushQueueKind
  si_requester :: "rstr option"
  si_status :: PushQueueStatus
  si_wait_ms :: int

record QueueControlSnapshot =
  cs_paused :: bool
  cs_hard_stopped :: bool
  cs_depth :: int
  cs_head :: "QueueSnapshotItem option"
  cs_running :: "QueueSnapshotItem option"
  cs_items :: "QueueSnapshotItem list"

definition control_snapshot :: "int \<Rightarrow> db \<Rightarrow> mega_error + QueueControlSnapshot" where
  "control_snapshot now d =
     bindR (get_control d) (\<lambda>ctrl.
     let items = map (\<lambda>r. \<lparr>si_id = q_id r, si_path = q_path r, si_kind = q_kind r,
           si_requester = q_requester r, si_status = q_status r,
           si_wait_ms = max (now - q_enqueued_at r) 0\<rparr>) (list_active d)
     in Ok \<lparr>cs_paused = c_paused ctrl, cs_hard_stopped = c_hard_stopped ctrl,
            cs_depth = int (length items),
            cs_head = (case items of [] \<Rightarrow> None | i # _ \<Rightarrow> Some i),
            cs_running = find (\<lambda>i. si_status i = Running) items, cs_items = items\<rparr>)"

section \<open>B2 and B2.5\<close>

text \<open>
  One turn of the wait loop: the clock and what other sessions commit before the read and before
  the claim. The loop consumes a list of turns; \<open>None\<close> means that it is still waiting when the
  list ends.
\<close>

record tick =
  tk_now :: int
  tk_before :: "db \<Rightarrow> db"
  tk_between :: "db \<Rightarrow> db"

definition terminal_message :: "int \<Rightarrow> push_row \<Rightarrow> rstr" where
  "terminal_message i r = (case q_error_message r of Some m \<Rightarrow> m
     | None \<Rightarrow> lit ''queue item '' @ show_int i
         @ (if q_status r = Failed then lit '' terminal Failed''
            else lit '' cancelled without successor''))"

fun wait_and_claim ::
    "ext \<Rightarrow> service_config \<Rightarrow> tick list \<Rightarrow> int \<Rightarrow> bool \<Rightarrow> int \<Rightarrow> db
     \<Rightarrow> ((mega_error + QueueWaitResult) \<times> db) option" where
  "wait_and_claim x cfg [] deadline seen_running i d = None"
| "wait_and_claim x cfg (t # ts) deadline seen_running i d =
     (let d1 = tk_before t d;
          poll = (\<lambda>seen.
            if \<not> seen \<and> tk_now t \<ge> deadline then Some (Ok (Abandoned i), d1)
            else
              (case claim_for_execution x (native_publication_enabled cfg) (tk_now t) i
                      (tk_between t (touch_heartbeat (tk_now t) i d1)) of
                 (Inl e, d2) \<Rightarrow> Some (Err e, d2)
               | (Inr Claimed, d2) \<Rightarrow> Some (Ok (Ready i), d2)
               | (Inr _, d2) \<Rightarrow> wait_and_claim x cfg ts deadline seen i d2))
      in
      case find_push i d1 of
        None \<Rightarrow> poll seen_running
      | Some r \<Rightarrow>
          (case q_status r of
             Done \<Rightarrow> Some (Ok (Replayed i (q_landed_commit_id r)), d1)
           | Failed \<Rightarrow> Some (Ok (WaitRejected i (terminal_message i r)), d1)
           | Cancelled \<Rightarrow>
               (case q_superseded_by r of
                  Some successor \<Rightarrow>
                    wait_and_claim x cfg ts (tk_now t + wait_timeout cfg) False successor d1
                | None \<Rightarrow> Some (Ok (WaitRejected i (terminal_message i r)), d1))
           | Running \<Rightarrow> poll True
           | Queued \<Rightarrow> poll seen_running))"

definition enqueue_and_wait ::
    "ext \<Rightarrow> service_config \<Rightarrow> int \<Rightarrow> (db \<Rightarrow> db) \<Rightarrow> (db \<Rightarrow> db) \<Rightarrow> (db \<Rightarrow> db) \<Rightarrow> tick list
     \<Rightarrow> EnqueueRequest \<Rightarrow> db \<Rightarrow> ((mega_error + QueueWaitResult) \<times> db) option" where
  "enqueue_and_wait x cfg now race1 race2 race3 ts req d =
     (case enqueue x cfg now race1 race2 race3 req d of
        (Inl e, d') \<Rightarrow> Some (Err e, d')
      | (Inr (Inserted i), d') \<Rightarrow> wait_and_claim x cfg ts (now + wait_timeout cfg) False i d'
      | (Inr (Adopted i), d') \<Rightarrow> wait_and_claim x cfg ts (now + wait_timeout cfg) False i d'
      | (Inr (Replay i landed), d') \<Rightarrow> Some (Ok (Replayed i landed), d')
      | (Inr (Rejected reason), d') \<Rightarrow> Some (Err (reject_to_error reason), d'))"

section \<open>B3: ending a round\<close>

text \<open>Each takes the state to return to on rollback and the state of the open transaction.\<close>

definition b3_fail_merge ::
    "int \<Rightarrow> int \<Rightarrow> PushQueueFailure \<Rightarrow> rstr \<Rightarrow> db \<Rightarrow> db \<Rightarrow> (mega_error + ExecuteOutcome) \<times> db" where
  "b3_fail_merge now i failure message d0 d =
     (let (updated, d') = mark_failed_if_running_in_txn now i failure message d in
      if updated then (Ok (ExecFailed i failure message), d') else (Ok (ClaimLost i), d0))"

definition terminalize_failure ::
    "int \<Rightarrow> int \<Rightarrow> PushQueueFailure \<Rightarrow> rstr \<Rightarrow> db \<Rightarrow> (mega_error + ExecuteOutcome) \<times> db" where
  "terminalize_failure now i failure message d = b3_fail_merge now i failure message d d"

definition b3_bypass :: "int \<Rightarrow> int \<Rightarrow> rstr \<Rightarrow> db \<Rightarrow> (mega_error + ExecuteOutcome) \<times> db" where
  "b3_bypass now i message d =
     (let d1 = set_hard_stopped_in_txn now True d;
          (_, d2) = mark_failed_if_running_in_txn now i QueueBypassDetected message d1
      in (Ok (BypassDetected i), d2))"

definition b3_replay_committed_operation ::
    "int \<Rightarrow> int \<Rightarrow> rstr \<Rightarrow> db \<Rightarrow> db \<Rightarrow> (mega_error + ExecuteOutcome) \<times> db" where
  "b3_replay_committed_operation now i landed_commit_id d0 d =
     (let (updated, d') = mark_done_if_running_in_txn now i landed_commit_id d in
      if updated then (Ok (ExecDone i landed_commit_id 0), d') else (Ok (ClaimLost i), d0))"

definition b3_tombstone_repair_after_savepoint ::
    "int \<Rightarrow> int \<Rightarrow> rstr \<Rightarrow> rstr \<Rightarrow> db \<Rightarrow> (mega_error + ExecuteOutcome) \<times> db" where
  "b3_tombstone_repair_after_savepoint now i path message d =
     (let (_, d1) = tombstone_and_delete_main_ref_in_txn now path d;
          (_, d2) = mark_failed_if_running_in_txn now i ConflictFailure message d1
      in (Ok (ExecFailed i ConflictFailure message), d2))"

definition b3_hard_stopped :: "int \<Rightarrow> int \<Rightarrow> db \<Rightarrow> (mega_error + ExecuteOutcome) \<times> db" where
  "b3_hard_stopped now i d =
     (let (ok, d') = reset_running_to_queued now i d in
      if ok then (Ok (ExecHardStopped i), d') else (Ok (ClaimLost i), d'))"

definition resolve_path_tree_hash_in_txn_with_kind ::
    "(rstr \<Rightarrow> bool) \<Rightarrow> rstr \<Rightarrow> rstr \<Rightarrow> db \<Rightarrow> mega_error + rstr option" where
  "resolve_path_tree_hash_in_txn_with_kind valid_oid root_tree_hash path d =
     (if \<not> valid_oid root_tree_hash then Err (Other (lit ''invalid native root tree identity''))
      else Ok (resolve_path_tree_hash_in_txn root_tree_hash path d))"

definition assert_main_path_tree_hash_in_txn_with_kind ::
    "(rstr \<Rightarrow> bool) \<Rightarrow> rstr \<Rightarrow> rstr \<Rightarrow> db \<Rightarrow> mega_error + StaleMainRef option" where
  "assert_main_path_tree_hash_in_txn_with_kind valid_oid path root_tree_hash d =
     (if path = [] \<or> path = lit ''/'' then Ok None
      else (case get_main_ref_in_txn path d of
          None \<Rightarrow> Ok None
        | Some pref \<Rightarrow>
            bindR (resolve_path_tree_hash_in_txn_with_kind valid_oid root_tree_hash path d) (\<lambda>resolved.
            if resolved = Some (ref_tree_hash pref) then Ok None
            else Ok (Some \<lparr>st_path = ref_path pref, st_last_commit_hash = ref_commit_hash pref,
                   st_stored_tree_hash = ref_tree_hash pref, st_resolved_tree_hash = resolved\<rparr>))))"

definition reaper_i3_tombstone_repair :: "int \<Rightarrow> int \<Rightarrow> db \<Rightarrow> bool \<times> db" where
  "reaper_i3_tombstone_repair now i d =
     (case find_push i d of
        None \<Rightarrow> (False, d)
      | Some r \<Rightarrow>
          if q_status r \<noteq> Running then (False, d)
          else
            let root = get_main_ref_in_txn (lit ''/'') d in
            if map_option ref_commit_hash root \<noteq> q_expected_commit_hash r
                \<or> map_option ref_tree_hash root \<noteq> q_expected_tree_hash r then (False, d)
            else
              let (_, d1) = tombstone_and_delete_main_ref_in_txn now (q_path r) d;
                  (_, d2) = mark_failed_if_running_in_txn now i SystemError
                    (lit ''I3 tombstone repair after Running crash'') d1
              in (True, d2))"

section \<open>B3: the push writer\<close>

fun contains_str :: "rstr \<Rightarrow> rstr \<Rightarrow> bool" where
  "contains_str [] p = starts_with [] p"
| "contains_str (c # s) p = (starts_with (c # s) p \<or> contains_str s p)"

text \<open>\<open>unwrap_or(ZERO_ID)\<close>.\<close>

definition or_zero :: "rstr option \<Rightarrow> rstr" where
  "or_zero cur = (case cur of None \<Rightarrow> ZERO_ID | Some c \<Rightarrow> c)"

definition MERGE_ROOT_CAS_MISS :: rstr where
  "MERGE_ROOT_CAS_MISS = lit ''root CAS affected 0 rows''"

text \<open>The failure text of a policy refusal starts with this code.\<close>

definition path_policy_code :: "PathPolicyError \<Rightarrow> rstr" where
  "path_policy_code e = (case e of
      NotAllowed _ _ _ \<Rightarrow> lit ''MONO_PATH_NOT_ALLOWED''
    | Uninitialized _ \<Rightarrow> lit ''MONO_PATH_UNINITIALIZED''
    | Invalid _ _ \<Rightarrow> lit ''MONO_PATH_INVALID''
    | Conflict _ _ \<Rightarrow> lit ''MONO_PATH_CONFLICT'')"

text \<open>The checks before the landing. A refusal is a failure kind with its message; an \<open>Inl\<close> of the
  outer sum is an \<open>Err\<close> return. \<open>Inr (Inr path_row)\<close> goes on with the path's ref.\<close>

type_synonym push_check = "mega_error + (PushQueueFailure \<times> rstr) + ref_row option"

abbreviation refuse :: "PushQueueFailure \<Rightarrow> string \<Rightarrow> push_check" where
  "refuse failure message \<equiv> Inr (Inl (failure, lit message))"

definition b3_push_checks :: "push_row \<Rightarrow> PushPayload \<Rightarrow> ref_row option \<Rightarrow> db \<Rightarrow> push_check" where
  "b3_push_checks row payload root d =
     (if (q_old_id row = q_new_id row) \<noteq> (pl_n payload = 0)
        then refuse SystemError ''push descriptor n invariant: n=0 iff old_id == new_id''
      else if root = None then refuse PushFailure ''push requires an existing root ref''
      else
        (case get_native_main_ref_in_txn (q_path row) d of
           Inl e \<Rightarrow> Inl e
         | Inr None \<Rightarrow>
             if get_tombstone (q_path row) MEGA_BRANCH_NAME d \<noteq> None
               then refuse ConflictFailure ''tombstone exists; advertise then fetch''
             else if \<not> is_protocol_zero_id (q_old_id row)
               then refuse PushFailure ''cannot update missing path; create requires old_id=ZERO_ID''
             else if pl_n payload = 0 then refuse PushFailure ''create is unreachable for n=0''
             else Inr (Inr None)
         | Inr (Some pref) \<Rightarrow>
             if is_protocol_zero_id (q_old_id row)
               then refuse PushFailure ''path materialized while waiting; fetch then re-push''
             else if pl_n payload = 0 \<and> q_new_id row \<noteq> ref_commit_hash pref
               then refuse PushFailure ''non-fast-forward: new_id does not match current tip''
             else if pl_n payload \<noteq> 0 \<and> ref_commit_hash pref \<noteq> q_old_id row
               then refuse PushFailure ''non-fast-forward: ref_commit_hash does not match old_id''
             else Inr (Inr (Some pref))))"

text \<open>A net-zero push (\<open>n = 0\<close>): one root CAS that keeps the root, then the row is Done.\<close>

definition b3_push_noop ::
    "ext \<Rightarrow> int \<Rightarrow> int \<Rightarrow> push_row \<Rightarrow> rstr option \<Rightarrow> rstr option \<Rightarrow> ref_row \<Rightarrow> ref_row
     \<Rightarrow> PreparedPublication option \<Rightarrow> PreparedNativePublication option \<Rightarrow> db \<Rightarrow> db
     \<Rightarrow> (mega_error + ExecuteOutcome) \<times> db" where
  "b3_push_noop x now tx row cur_commit cur_tree root pref publication native d0 d =
     (let (cas_ok, d1) = cas_update_root_main_ref_in_txn cur_commit cur_tree
            (ref_commit_hash root) (ref_tree_hash root) d in
      if \<not> cas_ok then b3_bypass now (q_id row) (lit ''root CAS affected 0 rows'') d
      else
        let (updated, d2) = mark_done_if_running_in_txn now (q_id row) (ref_commit_hash pref) d1 in
        if \<not> updated then (Ok (ClaimLost (q_id row)), d0)
        else
          (case bindR (case native of None \<Rightarrow> Ok ()
                       | Some prepared \<Rightarrow> finish_native_noop_in_txn x tx prepared d2) (\<lambda>_.
                 case publication of None \<Rightarrow> Ok d2
                 | Some prepared \<Rightarrow>
                     bindR (record_noop_operation_in_txn tx prepared (ref_commit_hash root)
                       (ref_tree_hash root) (ref_commit_hash pref) d2) (\<lambda>(_, d3). Ok d3)) of
             Inl e \<Rightarrow> (Err (mega_of_publication e), d0)
           | Inr d3 \<Rightarrow> (Ok (ExecDone (q_id row) (ref_commit_hash pref) 1), d3)))"

text \<open>A landing push (\<open>n > 0\<close>) before the savepoint: the tip must be stored, and a created path must
  agree with the root tree or satisfy the creation policy.\<close>

definition b3_push_prepare ::
    "PushExecContext \<Rightarrow> push_row \<Rightarrow> bool \<Rightarrow> ref_row \<Rightarrow> db
     \<Rightarrow> mega_error + (PushQueueFailure \<times> rstr) + rstr" where
  "b3_push_prepare ctx row creating root d =
     (case map_of (commits d) (q_new_id row) of
        None \<Rightarrow> Inl (Other (lit ''push new_id '' @ q_new_id row @ lit '' not found''))
      | Some tip_tree \<Rightarrow>
          (case resolve_path_tree_hash_in_txn_with_kind (pc_valid_oid ctx) (ref_tree_hash root)
                  (q_path row) d of
             Inl e \<Rightarrow> Inl e
           | Inr resolved \<Rightarrow>
               if creating \<and> resolved \<noteq> None \<and> resolved \<noteq> Some tip_tree
                 then Inr (Inl (PushFailure, lit ''create tree must match resolve(root, P) or the path must be absent from the root tree''))
               else if creating \<and> resolved = None then
                 (case classify_creation_path (pc_monorepo ctx) (q_path row) of
                    Inl err \<Rightarrow> Inr (Inl (PushFailure, path_policy_code err))
                  | Inr _ \<Rightarrow> Inr (Inr tip_tree))
               else Inr (Inr tip_tree)))"

definition b3_push_land ::
    "ext \<Rightarrow> int \<Rightarrow> int \<Rightarrow> PushExecContext \<Rightarrow> push_row \<Rightarrow> rstr option \<Rightarrow> ref_row \<Rightarrow> bool \<Rightarrow> rstr
     \<Rightarrow> PreparedPublication option \<Rightarrow> PreparedNativePublication option \<Rightarrow> db \<Rightarrow> db
     \<Rightarrow> (mega_error + ExecuteOutcome) \<times> db" where
  "b3_push_land x now tx ctx row cur_commit root creating tip_tree publication native d0 d =
     (case pc_land ctx row creating root tip_tree d of
        LandAbort e \<Rightarrow> (Err e, d0)
      | ApplyError msg \<Rightarrow>
          if contains_str msg MERGE_ROOT_CAS_MISS
            then b3_bypass now (q_id row) (lit ''root CAS affected 0 rows'') d
          else b3_fail_merge now (q_id row) PushFailure msg d0 d
      | Landed landed root_cas_writes d1 \<Rightarrow>
          let (updated, d2) = mark_done_if_running_in_txn now (q_id row) landed d1 in
          if \<not> updated then (Ok (ClaimLost (q_id row)), d0)
          else
            (case bindR (case publication of None \<Rightarrow> Ok d2
                   | Some prepared \<Rightarrow>
                       bindR (map_err mega_of_publication (record_publication_in_txn tx prepared
                         (or_zero cur_commit) landed d2)) (\<lambda>(committed, d3).
                       case native of
                         None \<Rightarrow> Err (Other (lit ''native push reservation missing''))
                       | Some np \<Rightarrow>
                           map_err mega_of_publication
                             (record_native_publication_in_txn x tx np committed d3)))
                   (pc_publish_target_paths ctx) of
               Inl e \<Rightarrow> (Err e, d0)
             | Inr d4 \<Rightarrow> (Ok (ExecDone (q_id row) landed root_cas_writes), d4)))"

text \<open>\<open>race\<close> is what other sessions commit between the baseline read and the savepoint.\<close>

definition b3_execute_push_inner ::
    "ext \<Rightarrow> int \<Rightarrow> int \<Rightarrow> (db \<Rightarrow> db) \<Rightarrow> PushExecContext \<Rightarrow> push_row \<Rightarrow> rstr option \<Rightarrow> rstr option
     \<Rightarrow> ref_row option \<Rightarrow> PreparedPublication option \<Rightarrow> PreparedNativePublication option \<Rightarrow> db \<Rightarrow> db
     \<Rightarrow> (mega_error + ExecuteOutcome) \<times> db" where
  "b3_execute_push_inner x now tx race ctx row cur_commit cur_tree root publication native d0 d =
     (case push_payload_from_value (q_payload row) of
        None \<Rightarrow> (Err (Other (lit ''push payload deserialize failed'')), d0)
      | Some payload \<Rightarrow>
          (case pc_object_hash_kind ctx of
             Inl e \<Rightarrow> (Err e, d0)
           | Inr _ \<Rightarrow>
               (case (root, b3_push_checks row payload root d) of
                  (_, Inl e) \<Rightarrow> (Err e, d0)
                | (_, Inr (Inl (failure, message))) \<Rightarrow>
                    b3_fail_merge now (q_id row) failure message d0 d
                | (None, Inr (Inr _)) \<Rightarrow> (Err (Other (lit ''push requires an existing root ref'')), d0)
                | (Some root_row, Inr (Inr path_row)) \<Rightarrow>
                    (case (pl_n payload = 0, path_row) of
                       (True, Some pref) \<Rightarrow>
                         b3_push_noop x now tx row cur_commit cur_tree root_row pref publication native
                           (race d0) (race d)
                     | _ \<Rightarrow>
                         (case b3_push_prepare ctx row (path_row = None) root_row d of
                            Inl e \<Rightarrow> (Err e, d0)
                          | Inr (Inl (failure, message)) \<Rightarrow>
                              b3_fail_merge now (q_id row) failure message d0 d
                          | Inr (Inr tip_tree) \<Rightarrow>
                              b3_push_land x now tx ctx row cur_commit root_row (path_row = None)
                                tip_tree publication native (race d0) (race d))))))"

definition b3_execute_push ::
    "ext \<Rightarrow> int \<Rightarrow> int \<Rightarrow> (db \<Rightarrow> db) \<Rightarrow> PushExecContext \<Rightarrow> push_row \<Rightarrow> rstr option \<Rightarrow> rstr option
     \<Rightarrow> ref_row option \<Rightarrow> PreparedPublication option \<Rightarrow> PreparedNativePublication option \<Rightarrow> db \<Rightarrow> db
     \<Rightarrow> (mega_error + ExecuteOutcome) \<times> db" where
  "b3_execute_push x now tx race ctx row cur_commit cur_tree root publication native d0 d =
     (case b3_execute_push_inner x now tx race ctx row cur_commit cur_tree root publication native d0 d of
        (Inr outcome, d') \<Rightarrow> (Ok outcome, d')
      | (Inl e, d') \<Rightarrow> terminalize_failure now (q_id row) PushFailure (mega_error_text e) d')"

section \<open>B3: \<open>execute_b3\<close>\<close>

text \<open>The stub writer of a push or merge row that runs without a context, and the root it writes.\<close>

definition kind_root_commit :: "ExecuteRequest \<Rightarrow> rstr option \<Rightarrow> rstr" where
  "kind_root_commit req cur_commit = (case ex_kind_root_write req of
      NetZero \<Rightarrow> or_zero cur_commit
    | Advance \<Rightarrow> (case ex_advance_commit req of None \<Rightarrow> replicate 40 101 | Some c \<Rightarrow> c))"

definition kind_root_tree :: "ExecuteRequest \<Rightarrow> rstr option \<Rightarrow> rstr" where
  "kind_root_tree req cur_tree = (case ex_kind_root_write req of
      NetZero \<Rightarrow> or_zero cur_tree
    | Advance \<Rightarrow> (case ex_advance_tree req of None \<Rightarrow> replicate 40 102 | Some c \<Rightarrow> c))"

definition b3_stub ::
    "int \<Rightarrow> int \<Rightarrow> (db \<Rightarrow> db) \<Rightarrow> ExecuteRequest \<Rightarrow> rstr option \<Rightarrow> rstr option \<Rightarrow> ref_row option
     \<Rightarrow> PreparedPublication option \<Rightarrow> db \<Rightarrow> db \<Rightarrow> (mega_error + ExecuteOutcome) \<times> db" where
  "b3_stub now tx race req cur_commit cur_tree root publication d0 d =
     (let new_commit = kind_root_commit req cur_commit; new_tree = kind_root_tree req cur_tree in
      if root = None then
        (let (_, d') = mark_failed_if_running_in_txn now (ex_id req) SystemError
               (lit ''B3 skeleton requires an existing root ref for CAS'') d
         in (Ok (ExecFailed (ex_id req) SystemError (lit ''missing root'')), d'))
      else
        let dr = race d; (cas_ok, d1) =
              cas_update_root_main_ref_in_txn cur_commit cur_tree new_commit new_tree dr in
        if \<not> cas_ok then b3_bypass now (ex_id req) (lit ''root CAS affected 0 rows'') dr
        else
          let (updated, d2) = mark_done_if_running_in_txn now (ex_id req) new_commit d1 in
          if \<not> updated then (Ok (ClaimLost (ex_id req)), race d0)
          else
            (case publication of
               None \<Rightarrow> (Ok (ExecDone (ex_id req) new_commit 1), d2)
             | Some prepared \<Rightarrow>
                 (case record_publication_in_txn tx prepared (or_zero cur_commit) new_commit d2 of
                    Inl e \<Rightarrow> (Err (mega_of_publication e), race d0)
                  | Inr (_, d3) \<Rightarrow> (Ok (ExecDone (ex_id req) new_commit 1), d3))))"

text \<open>Kind dispatch after the baseline, the gates and the reservation.\<close>

definition b3_dispatch ::
    "ext \<Rightarrow> int \<Rightarrow> int \<Rightarrow> (db \<Rightarrow> db) \<Rightarrow> ExecuteRequest \<Rightarrow> kind_writer option \<Rightarrow> MergeExecContext option
     \<Rightarrow> PushExecContext option \<Rightarrow> push_row \<Rightarrow> rstr option \<Rightarrow> rstr option \<Rightarrow> ref_row option
     \<Rightarrow> PreparedPublication option \<Rightarrow> PreparedNativePublication option \<Rightarrow> db \<Rightarrow> db
     \<Rightarrow> (mega_error + ExecuteOutcome) \<times> db" where
  "b3_dispatch x now tx race req attach_ctx merge_ctx push_ctx row cur_commit cur_tree root
       publication native d0 d =
     (case q_kind row of
        Attach \<Rightarrow>
          (case attach_ctx of
             None \<Rightarrow> terminalize_failure now (ex_id req) AttachFailure
               (lit ''execute_b3 attach requires AttachExecContext'') d0
           | Some writer \<Rightarrow> writer row cur_commit cur_tree root (race d))
      | Push \<Rightarrow>
          (case bindR (case push_ctx of None \<Rightarrow> Ok () | Some ctx \<Rightarrow> pc_object_hash_kind ctx) (\<lambda>_.
                case root of None \<Rightarrow> Ok None
                | Some r \<Rightarrow> assert_main_path_tree_hash_in_txn_with_kind
                    (case push_ctx of None \<Rightarrow> x_valid_oid x | Some ctx \<Rightarrow> pc_valid_oid ctx)
                    (q_path row) (ref_tree_hash r) d) of
             Inl e \<Rightarrow> (Err e, d0)
           | Inr (Some _) \<Rightarrow> b3_tombstone_repair_after_savepoint now (ex_id req) (q_path row)
               (lit ''stale materialized main ref; advertise then fetch'') d
           | Inr None \<Rightarrow>
               (case push_ctx of
                  Some ctx \<Rightarrow> b3_execute_push x now tx race ctx row cur_commit cur_tree root
                    publication native d0 d
                | None \<Rightarrow> b3_stub now tx race req cur_commit cur_tree root publication d0 d))
      | Merge \<Rightarrow>
          (case merge_ctx of
             Some ctx \<Rightarrow> mc_execute ctx row cur_commit cur_tree root (race d)
           | None \<Rightarrow> b3_stub now tx race req cur_commit cur_tree root publication d0 d))"

text \<open>The publication reservation at the start of a round; \<open>Inl\<close> ends the round.\<close>

definition b3_begin_publication ::
    "ext \<Rightarrow> int \<Rightarrow> int \<Rightarrow> MergeExecContext option \<Rightarrow> PushExecContext option \<Rightarrow> push_row \<Rightarrow> db
     \<Rightarrow> ((mega_error + ExecuteOutcome) \<times> db) + (PreparedPublication option \<times> db)" where
  "b3_begin_publication x now tx merge_ctx push_ctx row d =
     (case push_ctx of
        None \<Rightarrow> Inr (None, d)
      | Some ctx \<Rightarrow>
          if \<not> pc_publication_enabled ctx \<or> q_kind row = Attach
              \<or> q_kind row = Merge \<and> merge_ctx \<noteq> None then Inr (None, d)
          else
            (case from_trunk_queue x row of
               Inl error \<Rightarrow> Inl (b3_fail_merge now (q_id row) ConflictFailure
                 (publication_error_text error) d d)
             | Inr request \<Rightarrow>
                 (case begin_publication_in_txn x tx request d of
                    (Inl (PubDatabase m), d1) \<Rightarrow> Inl (Err (Other m), d)
                  | (Inl error, d1) \<Rightarrow> Inl (b3_fail_merge now (q_id row) ConflictFailure
                      (publication_error_text error) d d1)
                  | (Inr (Prepared prepared), d1) \<Rightarrow> Inr (Some prepared, d1)
                  | (Inr (AlreadyCommitted committed), d1) \<Rightarrow> Inl (b3_replay_committed_operation now
                      (q_id row) (p_new_oid (cp_receipt committed)) d d1)
                  | (Inr (AlreadyCommittedNoop receipt), d1) \<Rightarrow> Inl (b3_replay_committed_operation now
                      (q_id row) (n_landed_commit_id receipt) d d1))))"

definition b3_reserve_native ::
    "ext \<Rightarrow> int \<Rightarrow> int \<Rightarrow> PushExecContext option \<Rightarrow> push_row \<Rightarrow> PreparedPublication option \<Rightarrow> db \<Rightarrow> db
     \<Rightarrow> ((mega_error + ExecuteOutcome) \<times> db) + PreparedNativePublication option" where
  "b3_reserve_native x now tx push_ctx row publication d0 d =
     (if publication = None \<or> q_kind row \<noteq> Push then Inr None
      else (case push_ctx of
          None \<Rightarrow> Inl (Err (Other (lit ''native publication requires the real push writer'')), d0)
        | Some ctx \<Rightarrow>
            (case pc_instance_uuid ctx of
               None \<Rightarrow> Inl (b3_fail_merge now (q_id row) ConflictFailure
                 (lit ''native publication instance missing'') d0 d)
             | Some inst \<Rightarrow>
                 (case reserve_native_publication_in_txn x tx row inst d of
                    Inr prepared \<Rightarrow> Inr (Some prepared)
                  | Inl (PubDatabase m) \<Rightarrow> Inl (Err (Other m), d0)
                  | Inl error \<Rightarrow> Inl (b3_fail_merge now (q_id row) ConflictFailure
                      (publication_error_text error) d0 d)))))"

text \<open>The baseline comparison and the gates before the dispatch.\<close>

definition merge_uncovered :: "MergeExecContext option \<Rightarrow> push_row \<Rightarrow> bool" where
  "merge_uncovered merge_ctx row \<longleftrightarrow> q_kind row = Merge
     \<and> (case merge_ctx of None \<Rightarrow> False | Some ctx \<Rightarrow> mc_publication_enabled ctx)"

definition b3_with_baseline ::
    "ext \<Rightarrow> int \<Rightarrow> int \<Rightarrow> (db \<Rightarrow> db) \<Rightarrow> ExecuteRequest \<Rightarrow> kind_writer option \<Rightarrow> MergeExecContext option
     \<Rightarrow> PushExecContext option \<Rightarrow> push_row \<Rightarrow> PreparedPublication option \<Rightarrow> db \<Rightarrow> db
     \<Rightarrow> (mega_error + ExecuteOutcome) \<times> db" where
  "b3_with_baseline x now tx race req attach_ctx merge_ctx push_ctx row publication d0 d =
     (case get_native_main_ref_in_txn (lit ''/'') d of
        Inl e \<Rightarrow> (Err e, d0)
      | Inr root \<Rightarrow>
          let cur_commit = map_option ref_commit_hash root; cur_tree = map_option ref_tree_hash root in
          if cur_commit \<noteq> q_expected_commit_hash row \<or> cur_tree \<noteq> q_expected_tree_hash row
            then b3_bypass now (ex_id req)
              (lit ''expected_* baseline mismatch (queue-external root writer)'') d
          else if merge_uncovered merge_ctx row
            then b3_fail_merge now (ex_id req) ConflictFailure
              (lit ''MST2 native publication does not cover merge writer'') d0 d
          else
            (case b3_reserve_native x now tx push_ctx row publication d0 d of
               Inl result \<Rightarrow> result
             | Inr native \<Rightarrow> b3_dispatch x now tx race req attach_ctx merge_ctx push_ctx row
                 cur_commit cur_tree root publication native d0 d))"

text \<open>\<open>execute_b3\<close> under the mono write lock.\<close>

definition execute_b3 ::
    "ext \<Rightarrow> int \<Rightarrow> int \<Rightarrow> (db \<Rightarrow> db) \<Rightarrow> ExecuteRequest \<Rightarrow> kind_writer option \<Rightarrow> MergeExecContext option
     \<Rightarrow> PushExecContext option \<Rightarrow> db \<Rightarrow> (mega_error + ExecuteOutcome) \<times> db" where
  "execute_b3 x now tx race req attach_ctx merge_ctx push_ctx d =
     (case find_push (ex_id req) d of
        None \<Rightarrow> (Err (Other (lit ''push_queue id '' @ show_int (ex_id req) @ lit '' missing'')), d)
      | Some row \<Rightarrow>
          if q_status row \<noteq> Running then (Ok (ClaimLost (ex_id req)), d)
          else (case is_hard_stopped_in_txn d of
              Inl e \<Rightarrow> (Err e, d)
            | Inr True \<Rightarrow> b3_hard_stopped now (ex_id req) d
            | Inr False \<Rightarrow>
                (case b3_begin_publication x now tx merge_ctx push_ctx row d of
                   Inl result \<Rightarrow> result
                 | Inr (publication, d1) \<Rightarrow> b3_with_baseline x now tx race req attach_ctx merge_ctx
                     push_ctx row publication d d1)))"

section \<open>B4: conflict requeue\<close>

text \<open>The intent is committed on another connection; \<open>race\<close> is what happens before the second
  hard-stop check. A rollback keeps the committed intent.\<close>

definition b4_conflict_requeue_holding_lock ::
    "int \<Rightarrow> (db \<Rightarrow> db) \<Rightarrow> int \<Rightarrow> push_row \<Rightarrow> db \<Rightarrow> (mega_error + ExecuteOutcome) \<times> db" where
  "b4_conflict_requeue_holding_lock now race i row d =
     (case is_hard_stopped_in_txn d of
        Inl e \<Rightarrow> (Err e, d)
      | Inr True \<Rightarrow> b3_hard_stopped now i d
      | Inr False \<Rightarrow>
          (let (ok, d1) = persist_requeue_conflict_intent now i d in
           if \<not> ok then (Ok (ClaimLost i), d1)
           else
             let d2 = race d1 in
             (case is_hard_stopped_in_txn d2 of
                Inl e \<Rightarrow> (Err e, d2)
              | Inr True \<Rightarrow> b3_hard_stopped now i d2
              | Inr False \<Rightarrow>
                  (case complete_conflict_requeue_in_txn now row d2 of
                     Inl e \<Rightarrow> (Err e, d2)
                   | Inr (successor_id, d3) \<Rightarrow> (Ok (Requeued i successor_id), d3)))))"

end
