(* ===== verification/Push_Queue_Reaper.thy ===== *)
theory Push_Queue_Reaper
  imports Push_Queue_Service
begin

text \<open>
  The queue reaper (\<open>src/jupiter/service/push_queue_reaper.rs\<close>): one cycle cancels orphaned Queued
  rows and, holding the mono write lock, ends every Running row a crashed session left behind.
  Whether the try-lock succeeds and which sessions hold the lock are arguments.
\<close>

record reaper_config =
  heartbeat_timeout :: int
  started_at_grace :: int
  stuck_timeout :: int

record ReapReport =
  rp_lock_acquired :: bool
  rp_skipped_started_at_grace :: int
  rp_running_failed :: int
  rp_running_reset_queued :: int
  rp_conflict_requeued :: int
  rp_stale_queued_cancelled :: int
  rp_bypass_detected :: int
  rp_i3_tombstoned :: int
  rp_stuck_alarm :: bool

datatype RunningReap =
    FailedBypass | FailedOrdinary | ResetQueued | ConflictRequeued | TombstonedThenFailed

section \<open>I3: stale path refs\<close>

definition apply_i3 :: "int \<Rightarrow> push_row \<Rightarrow> ref_row option \<Rightarrow> db \<Rightarrow> bool \<times> db" where
  "apply_i3 now row root d =
     (case q_kind row of
        Attach \<Rightarrow>
          if q_path row = lit ''/'' \<or> get_main_ref_in_txn (q_path row) d = None then (False, d)
          else (True, snd (tombstone_and_delete_main_ref_in_txn now (q_path row) d))
      | _ \<Rightarrow>
          (case get_main_ref_in_txn (q_path row) d of
             None \<Rightarrow> (False, d)
           | Some pref \<Rightarrow>
               (case root of
                  None \<Rightarrow> (False, d)
                | Some r \<Rightarrow>
                    if resolve_path_tree_hash_in_txn (ref_tree_hash r) (q_path row) d
                         = Some (ref_tree_hash pref) then (False, d)
                    else (True, snd (tombstone_and_delete_main_ref_in_txn now (q_path row) d)))))"

section \<open>One Running row\<close>

definition reap_running_row ::
    "int \<Rightarrow> push_row \<Rightarrow> bool \<Rightarrow> db \<Rightarrow> mega_error + (RunningReap \<times> bool) \<times> db" where
  "reap_running_row now row hard_stopped_at_start d =
     (let root = get_main_ref_in_txn (lit ''/'') d;
          baseline_ok = (map_option ref_commit_hash root = q_expected_commit_hash row
                       \<and> map_option ref_tree_hash root = q_expected_tree_hash row);
          (i3, d1) = apply_i3 now row root d in
      if \<not> baseline_ok then
        Ok ((FailedBypass, i3), snd (mark_failed_if_running_in_txn now (q_id row) QueueBypassDetected
          (lit ''reaper expected_* baseline mismatch'') (set_hard_stopped_in_txn now True d1)))
      else if q_pending_action row = Some RequeueConflict then
        bindR (complete_conflict_requeue_in_txn now row d1) (\<lambda>(_, d2). Ok ((ConflictRequeued, i3), d2))
      else if hard_stopped_at_start then
        Ok ((ResetQueued, i3), snd (reset_running_to_queued_in_txn now (q_id row) d1))
      else
        let msg = (if i3 then lit ''I3 tombstone repair after Running crash''
                   else lit ''reaper terminalized Running after crash'');
            d2 = snd (mark_failed_if_running_in_txn now (q_id row) SystemError msg d1)
        in Ok ((if i3 then (TombstonedThenFailed, True) else (FailedOrdinary, False)), d2))"

definition count_reap :: "RunningReap \<Rightarrow> bool \<Rightarrow> ReapReport \<Rightarrow> ReapReport" where
  "count_reap kind tombstoned report =
     (let r = (if tombstoned then report\<lparr>rp_i3_tombstoned := rp_i3_tombstoned report + 1\<rparr> else report)
      in case kind of
        FailedBypass \<Rightarrow> r\<lparr>rp_bypass_detected := rp_bypass_detected r + 1,
          rp_running_failed := rp_running_failed r + 1\<rparr>
      | FailedOrdinary \<Rightarrow> r\<lparr>rp_running_failed := rp_running_failed r + 1\<rparr>
      | ResetQueued \<Rightarrow> r\<lparr>rp_running_reset_queued := rp_running_reset_queued r + 1\<rparr>
      | ConflictRequeued \<Rightarrow> r\<lparr>rp_conflict_requeued := rp_conflict_requeued r + 1\<rparr>
      | TombstonedThenFailed \<Rightarrow> r\<lparr>rp_running_failed := rp_running_failed r + 1\<rparr>)"

definition in_grace :: "int \<Rightarrow> push_row \<Rightarrow> bool" where
  "in_grace grace_cutoff row =
     (case q_started_at row of None \<Rightarrow> False | Some started \<Rightarrow> started > grace_cutoff)"

fun reap_rows ::
    "int \<Rightarrow> int \<Rightarrow> bool \<Rightarrow> push_row list \<Rightarrow> ReapReport \<Rightarrow> db \<Rightarrow> mega_error + ReapReport \<times> db" where
  "reap_rows now grace_cutoff hard_stopped [] report d = Ok (report, d)"
| "reap_rows now grace_cutoff hard_stopped (row # rows) report d =
     (if in_grace grace_cutoff row then
        reap_rows now grace_cutoff hard_stopped rows
          (report\<lparr>rp_skipped_started_at_grace := rp_skipped_started_at_grace report + 1\<rparr>) d
      else
        bindR (reap_running_row now row hard_stopped d) (\<lambda>((kind, tombstoned), d').
        reap_rows now grace_cutoff hard_stopped rows (count_reap kind tombstoned report) d'))"

section \<open>One cycle\<close>

definition stuck_alarm :: "int \<Rightarrow> int \<Rightarrow> int option list \<Rightarrow> push_row list \<Rightarrow> bool" where
  "stuck_alarm now stuck holder_starts running \<longleftrightarrow>
     list_ex (\<lambda>t. case t of None \<Rightarrow> False | Some s \<Rightarrow> now - s > stuck) holder_starts
     \<or> list_ex (\<lambda>r. case q_started_at r of None \<Rightarrow> False | Some s \<Rightarrow> now - s > stuck) running"

definition empty_report :: "bool \<Rightarrow> ReapReport" where
  "empty_report locked = \<lparr>rp_lock_acquired = locked, rp_skipped_started_at_grace = 0,
     rp_running_failed = 0, rp_running_reset_queued = 0, rp_conflict_requeued = 0,
     rp_stale_queued_cancelled = 0, rp_bypass_detected = 0, rp_i3_tombstoned = 0,
     rp_stuck_alarm = False\<rparr>"

definition reap_once ::
    "reaper_config \<Rightarrow> int \<Rightarrow> bool \<Rightarrow> int option list \<Rightarrow> db \<Rightarrow> (mega_error + ReapReport) \<times> db" where
  "reap_once cfg now locked holder_starts d =
     (case is_hard_stopped_in_txn d of
        Inl e \<Rightarrow> (Err e, d)
      | Inr hard_stopped_at_start \<Rightarrow>
          let (cancelled, d1) =
                (if hard_stopped_at_start then (0, d)
                 else cancel_stale_queued_in_txn now (now - heartbeat_timeout cfg) d);
              report = (empty_report locked)\<lparr>rp_stale_queued_cancelled := int cancelled\<rparr>;
              running = list_running_in_txn d1 in
          if \<not> locked then
            (Ok (report\<lparr>rp_stuck_alarm :=
               running \<noteq> [] \<and> stuck_alarm now (stuck_timeout cfg) holder_starts running\<rparr>), d1)
          else
            (case reap_rows now (now - started_at_grace cfg) hard_stopped_at_start running report d1 of
               Inl e \<Rightarrow> (Err e, d)
             | Inr (report', d2) \<Rightarrow> (Ok report', d2)))"

end
