(* ===== verification/Queue_Invariant.thy ===== *)
theory Queue_Invariant
  imports Push_Queue_Reaper
begin

text \<open>
  The state invariant of the queue and its preservation by every operation. Statements over the
  rows use the keys the unique indexes are about.
\<close>

named_theorems queue_simps

section \<open>Updates\<close>

lemma set_update_where:
  "set (update_where P f rows) = {r \<in> set rows. \<not> P r} \<union> f ` {r \<in> set rows. P r}"
  by (auto simp: update_where_def)

lemma in_update_where:
  "r' \<in> set (update_where P f rows) \<longleftrightarrow> (\<exists>r\<in>set rows. r' = (if P r then f r else r))"
  by (auto simp: update_where_def)

lemma length_update_where [simp]: "length (update_where P f rows) = length rows"
  by (simp add: update_where_def)

lemma map_update_where:
  "(\<And>r. P r \<Longrightarrow> k (f r) = k r) \<Longrightarrow> map k (update_where P f rows) = map k rows"
  by (auto simp: update_where_def)

lemma update_where_none: "(\<And>r. r \<in> set rows \<Longrightarrow> \<not> P r) \<Longrightarrow> update_where P f rows = rows"
  by (induction rows) (auto simp: update_where_def)

lemma rows_affected_0: "rows_affected P rows = 0 \<longleftrightarrow> (\<forall>r\<in>set rows. \<not> P r)"
  by (auto simp: rows_affected_def filter_empty_conv)

lemma push_queue_update_queue [simp]:
  "push_queue (snd (update_queue P f d)) = update_where P f (push_queue d)"
  "next_push_id (snd (update_queue P f d)) = next_push_id d"
  by (simp_all add: update_queue_def)

section \<open>The invariant\<close>

type_synonym op_key = "PushQueueKind \<times> rstr \<times> rstr"

definition op_key :: "push_row \<Rightarrow> op_key" where
  "op_key r = (q_kind r, q_path r, q_operation_id r)"

definition unclaimed :: "push_row \<Rightarrow> bool" where
  "unclaimed r \<longleftrightarrow> q_started_at r = None \<and> q_expected_commit_hash r = None
     \<and> q_expected_tree_hash r = None \<and> q_expected_native_sequence r = None
     \<and> q_expected_native_epoch r = None \<and> q_expected_native_certificate r = None"

definition row_ok :: "push_row \<Rightarrow> bool" where
  "row_ok r \<longleftrightarrow> (q_status r = Queued \<longrightarrow> unclaimed r)
     \<and> (q_status r = Running \<longrightarrow> q_started_at r \<noteq> None)
     \<and> (is_active r \<longleftrightarrow> q_finished_at r = None)
     \<and> (q_status r = Done \<longleftrightarrow> q_landed_commit_id r \<noteq> None)
     \<and> (q_pending_action r \<noteq> None \<longrightarrow> q_status r = Running)
     \<and> (q_superseded_by r \<noteq> None \<longrightarrow> q_status r = Cancelled)"

definition successor_ok :: "push_row list \<Rightarrow> push_row \<Rightarrow> bool" where
  "successor_ok rows r = (case q_superseded_by r of None \<Rightarrow> True
     | Some j \<Rightarrow> q_id r < j \<and> (\<exists>s\<in>set rows. q_id s = j \<and> op_key s = op_key r))"

definition unique_by :: "(push_row \<Rightarrow> bool) \<Rightarrow> (push_row \<Rightarrow> 'k) \<Rightarrow> push_row list \<Rightarrow> bool" where
  "unique_by P k rows \<longleftrightarrow>
     (\<forall>r\<in>set rows. \<forall>s\<in>set rows. P r \<longrightarrow> P s \<longrightarrow> k r = k s \<longrightarrow> q_id r = q_id s)"

definition running :: "push_row \<Rightarrow> bool" where "running r \<longleftrightarrow> q_status r = Running"

definition active_push :: "push_row \<Rightarrow> bool" where
  "active_push r \<longleftrightarrow> q_kind r = Push \<and> is_active r"

definition queue_inv :: "push_row list \<Rightarrow> int \<Rightarrow> bool" where
  "queue_inv rows n \<longleftrightarrow> 0 < n \<and> sorted_wrt (<) (map q_id rows) \<and> (\<forall>r\<in>set rows. 0 < q_id r \<and> q_id r < n)
     \<and> unique_by running (\<lambda>_. ()) rows \<and> unique_by active_push q_path rows
     \<and> unique_by op_state op_key rows \<and> (\<forall>r\<in>set rows. row_ok r \<and> successor_ok rows r)"

definition queue_ok :: "db \<Rightarrow> bool" where
  "queue_ok d \<longleftrightarrow> queue_inv (push_queue d) (next_push_id d)"

lemma queue_ok_cong:
  "push_queue d' = push_queue d \<Longrightarrow> next_push_id d' = next_push_id d \<Longrightarrow> queue_ok d' = queue_ok d"
  by (simp add: queue_ok_def)

lemma queue_ok_upd [simp]:
  "queue_ok (d\<lparr>control := a\<rparr>) = queue_ok d" "queue_ok (d\<lparr>refs := b\<rparr>) = queue_ok d"
  "queue_ok (d\<lparr>tombstones := c\<rparr>) = queue_ok d" "queue_ok (d\<lparr>blob_paths := e\<rparr>) = queue_ok d"
  "queue_ok (d\<lparr>authz_outbox := f\<rparr>) = queue_ok d" "queue_ok (d\<lparr>namespace_seq := g\<rparr>) = queue_ok d"
  "queue_ok (d\<lparr>publications := h\<rparr>) = queue_ok d" "queue_ok (d\<lparr>next_publication_id := i\<rparr>) = queue_ok d"
  "queue_ok (d\<lparr>publication_outbox := j\<rparr>) = queue_ok d" "queue_ok (d\<lparr>noop_receipts := k\<rparr>) = queue_ok d"
  "queue_ok (d\<lparr>native_head := l\<rparr>) = queue_ok d" "queue_ok (d\<lparr>native_publications := m\<rparr>) = queue_ok d"
  by (simp_all add: queue_ok_def)

lemma queue_ok_distinct: "queue_ok d \<Longrightarrow> distinct (map q_id (push_queue d))"
  by (auto simp: queue_ok_def queue_inv_def strict_sorted_iff)

lemma row_by_id:
  assumes "queue_ok d" "r \<in> set (push_queue d)" "s \<in> set (push_queue d)" "q_id r = q_id s"
  shows "r = s"
  using queue_ok_distinct [OF assms(1)] assms(2-4) by (auto simp: distinct_map dest: inj_onD)

lemma find_push_Some: "find_push i d = Some r \<Longrightarrow> r \<in> set (push_queue d) \<and> q_id r = i"
  by (auto simp: find_push_def find_Some_iff)

lemma find_push_row:
  assumes "queue_ok d" "r \<in> set (push_queue d)" shows "find_push (q_id r) d = Some r"
proof -
  obtain s where s: "find_push (q_id r) d = Some s"
    using assms(2) by (cases "find_push (q_id r) d") (auto simp: find_push_def find_None_iff)
  with row_by_id [OF assms(1) _ assms(2), of s] find_push_Some [OF s] show ?thesis by auto
qed

section \<open>Row updates\<close>

text \<open>An update that keeps the identity of a row and never makes it more active.\<close>

definition identity_kept :: "(push_row \<Rightarrow> bool) \<Rightarrow> (push_row \<Rightarrow> push_row) \<Rightarrow> bool" where
  "identity_kept P f \<longleftrightarrow> (\<forall>r. P r \<longrightarrow> q_id (f r) = q_id r \<and> op_key (f r) = op_key r
     \<and> q_superseded_by (f r) = q_superseded_by r \<and> (row_ok r \<longrightarrow> row_ok (f r))
     \<and> (active_push (f r) \<longrightarrow> active_push r) \<and> (op_state (f r) \<longrightarrow> op_state r))"

definition shrinking :: "(push_row \<Rightarrow> bool) \<Rightarrow> (push_row \<Rightarrow> push_row) \<Rightarrow> bool" where
  "shrinking P f \<longleftrightarrow> identity_kept P f \<and> (\<forall>r. P r \<longrightarrow> running (f r) \<longrightarrow> running r)"

lemma unique_by_update:
  assumes "unique_by Q k rows" "\<And>r. P r \<Longrightarrow> q_id (f r) = q_id r \<and> k (f r) = k r \<and> (Q (f r) \<longrightarrow> Q r)"
  shows "unique_by Q k (update_where P f rows)"
  unfolding unique_by_def
proof (intro ballI impI)
  fix r s assume rs: "r \<in> set (update_where P f rows)" "s \<in> set (update_where P f rows)"
    "Q r" "Q s" "k r = k s"
  let ?g = "\<lambda>u. if P u then f u else u"
  have g: "(Q (?g u) \<longrightarrow> Q u) \<and> q_id (?g u) = q_id u \<and> k (?g u) = k u" for u
    using assms(2) [of u] by simp
  obtain r0 s0 where r0: "r0 \<in> set rows" "r = ?g r0" and s0: "s0 \<in> set rows" "s = ?g s0"
    using rs(1,2) by (auto simp: in_update_where)
  have "q_id r0 = q_id s0"
    using assms(1) r0(1) s0(1) rs(3-5) g [of r0] g [of s0] unfolding r0(2) s0(2) unique_by_def
    by metis
  then show "q_id r = q_id s" using g [of r0] g [of s0] unfolding r0(2) s0(2) by metis
qed

lemma queue_inv_update_running:
  assumes "queue_inv rows n" "identity_kept P f" "unique_by running (\<lambda>_. ()) (update_where P f rows)"
  shows "queue_inv (update_where P f rows) n"
proof -
  let ?rows = "update_where P f rows"
  have ids: "map q_id ?rows = map q_id rows"
    by (rule map_update_where) (use assms(2) in \<open>auto simp: identity_kept_def\<close>)
  have "unique_by active_push q_path ?rows"
      "unique_by op_state op_key ?rows"
    using assms(1,2) by (auto simp: queue_inv_def identity_kept_def op_key_def intro!: unique_by_update)
  moreover have "row_ok r \<and> successor_ok ?rows r" "0 < q_id r \<and> q_id r < n" if r: "r \<in> set ?rows" for r
  proof -
    obtain s where s: "s \<in> set rows" "r = (if P s then f s else s)"
      using r by (auto simp: in_update_where)
    have s': "row_ok s" "successor_ok rows s" "0 < q_id s \<and> q_id s < n"
      using assms(1) s(1) by (auto simp: queue_inv_def)
    show "0 < q_id r \<and> q_id r < n" using s s' assms(2) by (auto simp: identity_kept_def)
    have same: "q_id r = q_id s \<and> op_key r = op_key s \<and> q_superseded_by r = q_superseded_by s"
      using s assms(2) by (auto simp: identity_kept_def)
    have "\<exists>u\<in>set ?rows. q_id u = j \<and> op_key u = k"
      if ex: "\<exists>u\<in>set rows. q_id u = j \<and> op_key u = k" for j k
    proof -
      obtain u where "u \<in> set rows" "q_id u = j" "op_key u = k" using ex by blast
      then show ?thesis
        using assms(2) by (intro bexI [of _ "if P u then f u else u"])
          (auto simp: identity_kept_def in_update_where)
    qed
    with s'(2) same have "successor_ok ?rows r" by (auto simp: successor_ok_def split: option.splits)
    moreover have "row_ok r" using s s'(1) assms(2) by (auto simp: identity_kept_def)
    ultimately show "row_ok r \<and> successor_ok ?rows r" by simp
  qed
  ultimately show ?thesis using assms(1,3) ids by (auto simp: queue_inv_def)
qed

lemma queue_inv_update:
  assumes "queue_inv rows n" "shrinking P f" shows "queue_inv (update_where P f rows) n"
  using assms
  by (intro queue_inv_update_running unique_by_update)
    (auto simp: queue_inv_def shrinking_def identity_kept_def)

lemma queue_ok_update:
  "queue_ok d \<Longrightarrow> shrinking P f \<Longrightarrow> queue_ok (snd (update_queue P f d))"
  by (simp add: queue_ok_def queue_inv_update)

lemmas status_defs = running_def active_push_def op_state_def is_active_def active_status_def

lemma shrinking_updates:
  "shrinking (\<lambda>r. q_id r = i) (\<lambda>r. r\<lparr>q_heartbeat_at := t, q_updated_at := t\<rparr>)"
  "s = Failed \<or> s = Cancelled \<Longrightarrow>
     shrinking (\<lambda>r. is_active r \<and> P r) (finish_row t s fl msg)"
  "shrinking (running_row i) (\<lambda>r. r\<lparr>q_pending_action := Some RequeueConflict, q_updated_at := t\<rparr>)"
  "shrinking (running_row i) (done_row t c)"
  by (auto simp: shrinking_def identity_kept_def finish_row_def done_row_def running_row_def row_ok_def op_key_def
      unclaimed_def status_defs)

lemma shrinking_requeue:
  "shrinking (running_row i) (\<lambda>r. (requeue_row t r)\<lparr>q_pending_action := None\<rparr>)"
  "shrinking (\<lambda>r. running_row i r \<and> q_pending_action r = None) (requeue_row t)"
  by (auto simp: shrinking_def identity_kept_def requeue_row_def running_row_def row_ok_def op_key_def
      unclaimed_def status_defs)

section \<open>Insertion\<close>

lemma unique_by_append:
  assumes "unique_by P k rows" "\<And>s. P r \<Longrightarrow> s \<in> set rows \<Longrightarrow> P s \<Longrightarrow> k s \<noteq> k r"
  shows "unique_by P k (rows @ [r])"
  using assms unfolding unique_by_def by (metis Un_iff empty_iff insert_iff list.set set_append)

lemma queue_inv_insert:
  assumes "queue_inv rows n" "q_id r = n" "q_status r = Queued" "row_ok r" "q_superseded_by r = None"
    "active_push r \<longrightarrow> (\<forall>s\<in>set rows. active_push s \<longrightarrow> q_path s \<noteq> q_path r)"
    "\<forall>s\<in>set rows. op_state s \<longrightarrow> op_key s \<noteq> op_key r"
  shows "queue_inv (rows @ [r]) (n + 1)"
proof -
  have lt: "q_id s < n" if "s \<in> set rows" for s using assms(1) that by (auto simp: queue_inv_def)
  have "sorted_wrt (<) (map q_id (rows @ [r]))"
    using assms(1,2) lt by (auto simp: queue_inv_def sorted_wrt_append)
  moreover have "unique_by running (\<lambda>_. ()) (rows @ [r])"
    by (rule unique_by_append) (use assms(1,3) in \<open>auto simp: queue_inv_def running_def\<close>)
  moreover have "unique_by active_push q_path (rows @ [r])"
    by (rule unique_by_append) (use assms(1,6) in \<open>auto simp: queue_inv_def\<close>)
  moreover have "unique_by op_state op_key (rows @ [r])"
    by (rule unique_by_append) (use assms(1,7) in \<open>auto simp: queue_inv_def\<close>)
  moreover have "successor_ok (rows @ [r]) s" if "s \<in> set (rows @ [r])" for s
    using assms(1,5) that by (auto simp: queue_inv_def successor_ok_def split: option.splits)
  ultimately show ?thesis
    using assms(1,2,4) lt by (auto simp: queue_inv_def intro: less_imp_le)
qed

lemma row_ok_new_row [simp]: "row_ok (new_row now i p payload)"
  by (simp add: row_ok_def new_row_def unclaimed_def is_active_def active_status_def)

lemma new_row_sel [simp]:
  "q_id (new_row now i p payload) = i" "q_status (new_row now i p payload) = Queued"
  "q_superseded_by (new_row now i p payload) = None"
  "op_key (new_row now i p payload) = (e_kind p, e_path p, e_operation_id p)"
  "q_kind (new_row now i p payload) = e_kind p" "q_path (new_row now i p payload) = e_path p"
  "q_operation_id (new_row now i p payload) = e_operation_id p"
  by (simp_all add: new_row_def op_key_def)

lemma same_operation_key: "same_operation k p op r \<longleftrightarrow> op_key r = (k, p, op)"
  by (auto simp: same_operation_def op_key_def)

lemma queue_ok_next [intro]: "queue_ok d \<Longrightarrow> queue_ok (d\<lparr>next_push_id := next_push_id d + 1\<rparr>)"
  by (auto simp: queue_ok_def queue_inv_def intro: less_imp_le)

lemma queue_ok_insert:
  assumes "queue_ok d" "insert_push_row (\<lambda>i. new_row now i p (payload i)) d = Row i d'"
  shows "queue_ok d'"
proof -
  let ?r = "new_row now (next_push_id d) p (payload (next_push_id d))"
  have v: "\<not> violates_active_push_path ?r d" "\<not> violates_operation_states ?r d"
      "d' = d\<lparr>next_push_id := next_push_id d + 1, push_queue := push_queue d @ [?r]\<rparr>"
    using assms(2) by (auto simp: insert_push_row_def Let_def split: if_splits)
  have "queue_inv (push_queue d @ [?r]) (next_push_id d + 1)"
    using assms(1) v(1,2)
    by (intro queue_inv_insert) (auto simp: queue_ok_def violates_active_push_path_def
        violates_operation_states_def list_ex_iff active_push_def is_active_def active_status_def
        op_state_def same_operation_key op_key_def)
  then show ?thesis using v(3) by (simp add: queue_ok_def)
qed

lemma insert_violation:
  "insert_push_row mk d = ViolatesActivePushPath d' \<Longrightarrow> d' = d\<lparr>next_push_id := next_push_id d + 1\<rparr>"
  "insert_push_row mk d = ViolatesOperationStates d' \<Longrightarrow> d' = d\<lparr>next_push_id := next_push_id d + 1\<rparr>"
  by (auto simp: insert_push_row_def Let_def split: if_splits)

definition result_ok :: "insert_result \<Rightarrow> bool" where
  "result_ok res = (case res of Row _ d \<Rightarrow> queue_ok d | ViolatesActivePushPath d \<Rightarrow> queue_ok d
     | ViolatesOperationStates d \<Rightarrow> queue_ok d | ZeroRows \<Rightarrow> True)"

lemma result_ok_insert:
  assumes "queue_ok d" shows "result_ok (insert_push_row (\<lambda>i. new_row now i p payload) d)"
proof (cases "insert_push_row (\<lambda>i. new_row now i p payload) d")
  case (Row i d')
  then show ?thesis
    using queue_ok_insert [OF assms, of now p "\<lambda>_. payload" i d'] by (simp add: result_ok_def)
qed (use assms insert_violation queue_ok_next in \<open>force simp: result_ok_def\<close>)+

lemma result_ok_conditional_insert:
  "queue_ok d \<Longrightarrow> result_ok (conditional_insert now p d)"
  by (simp add: conditional_insert_def result_ok_insert) (simp add: result_ok_def)

section \<open>Other sessions\<close>

text \<open>What commits between two statements of a transaction keeps the invariant.\<close>

definition keeps_queue :: "(db \<Rightarrow> db) \<Rightarrow> bool" where
  "keeps_queue race \<longleftrightarrow> (\<forall>d. queue_ok d \<longrightarrow> queue_ok (race d))"

lemma keeps_queueD: "keeps_queue race \<Longrightarrow> queue_ok d \<Longrightarrow> queue_ok (race d)"
  by (simp add: keeps_queue_def)

lemma queue_ok_enqueue_retry:
  assumes "queue_ok d" "keeps_queue race3" shows "queue_ok (snd (enqueue_retry x now race3 p d))"
  using result_ok_conditional_insert [OF assms(1), of now p] keeps_queueD [OF assms(2,1)]
  by (auto simp: enqueue_retry_def Let_def result_ok_def split: insert_result.splits)

lemma queue_ok_enqueue_atomic:
  assumes "queue_ok d" "keeps_queue race1" "keeps_queue race2" "keeps_queue race3"
  shows "queue_ok (snd (enqueue_atomic x now race1 race2 race3 p d))"
proof -
  have ok: "queue_ok (race1 d)" "queue_ok (race2 (race1 d))" using assms keeps_queueD by blast+
  show ?thesis
    using result_ok_conditional_insert [OF assms(1), of now p] ok keeps_queueD [OF assms(2)]
      queue_ok_enqueue_retry [OF ok(2) assms(4)]
    by (auto simp: enqueue_atomic_def Let_def result_ok_def
        split: insert_result.splits sum.splits option.splits)
qed

section \<open>Status changes\<close>

lemma shrinking_weaken: "shrinking P f \<Longrightarrow> (\<And>r. Q r \<Longrightarrow> P r) \<Longrightarrow> shrinking Q f"
  by (auto simp: shrinking_def identity_kept_def)

lemma shrinking_finish:
  assumes "s = Failed \<or> s = Cancelled" "\<And>r. P r \<Longrightarrow> is_active r"
  shows "shrinking P (finish_row t s fl msg)"
  using shrinking_weaken [OF shrinking_updates(2) [OF assms(1), of P]] assms(2) by blast

lemma queue_ok_updates [intro]:
  assumes "queue_ok d"
  shows "queue_ok (touch_heartbeat now i d)"
    and "queue_ok (snd (freeze_merge_for_authz now cl msg d))"
    and "queue_ok (snd (cancel_if_queued now i d))"
    and "queue_ok (snd (cancel_stale_queued_in_txn now cutoff d))"
    and "queue_ok (snd (reset_running_to_queued now i d))"
    and "queue_ok (snd (persist_requeue_conflict_intent now i d))"
    and "queue_ok (snd (mark_done_if_running_in_txn now i c d))"
    and "queue_ok (snd (mark_failed_if_running_in_txn now i fl msg d))"
  using assms
  by (auto simp: touch_heartbeat_def freeze_merge_for_authz_def cancel_if_queued_def
      cancel_stale_queued_in_txn_def reset_running_to_queued_def persist_requeue_conflict_intent_def
      mark_done_if_running_in_txn_def mark_failed_if_running_in_txn_def Let_def case_prod_beta
      is_active_def active_status_def running_row_def
      intro!: queue_ok_update shrinking_updates shrinking_requeue shrinking_finish
        shrinking_updates(3) [unfolded running_row_def] shrinking_updates(4) [unfolded running_row_def]
        shrinking_requeue(1) [unfolded running_row_def])

lemma queue_ok_control [simp]:
  "queue_ok (set_control_flags now pa hs md d) = queue_ok d"
  "queue_ok (set_hard_stopped_in_txn now b d) = queue_ok d"
  "queue_ok (snd (set_last_policy now pol d)) = queue_ok d"
  "queue_ok (snd (switch_last_policy_if_queue_empty now pol d)) = queue_ok d"
  "queue_ok (snd (cas_published_version now v d)) = queue_ok d"
  "queue_ok (insert_authz_outbox ver dirty d) = queue_ok d"
  "queue_ok (mark_authz_outbox_replayed now i d) = queue_ok d"
  by (auto simp: set_control_flags_def set_hard_stopped_in_txn_def set_last_policy_def
      switch_last_policy_if_queue_empty_def cas_published_version_def insert_authz_outbox_def
      mark_authz_outbox_replayed_def split: option.splits)

lemma queue_ok_refs [simp]:
  "queue_ok (upsert_tombstone_on now p n c t d) = queue_ok d"
  "queue_ok (snd (tombstone_and_delete_main_ref_in_txn now p d)) = queue_ok d"
  "queue_ok (snd (cas_update_root_main_ref_in_txn ec et nc nt d)) = queue_ok d"
  by (auto simp: upsert_tombstone_on_def tombstone_and_delete_main_ref_in_txn_def
      cas_update_root_main_ref_in_txn_def Let_def split: option.splits)

text \<open>The reaper resets only rows without a pending action.\<close>

lemma queue_ok_reset_in_txn:
  assumes "queue_ok d" "\<And>r. r \<in> set (push_queue d) \<Longrightarrow> q_id r = i \<Longrightarrow> q_pending_action r = None"
  shows "queue_ok (snd (reset_running_to_queued_in_txn now i d))"
proof -
  have "update_where (running_row i) (requeue_row now) (push_queue d)
      = update_where (\<lambda>r. running_row i r \<and> q_pending_action r = None) (requeue_row now) (push_queue d)"
    using assms(2) by (auto simp: update_where_def running_row_def)
  then show ?thesis
    using queue_inv_update [OF _ shrinking_requeue(2)] assms(1)
    by (simp add: queue_ok_def reset_running_to_queued_in_txn_def update_queue_def)
qed

section \<open>Claims\<close>

lemma queue_inv_claim:
  assumes "queue_ok d"
  shows "queue_inv (update_where (claimable i d) (claim_row now b d) (push_queue d)) (next_push_id d)"
proof (cases "list_ex running (push_queue d)")
  case True
  then have "update_where (claimable i d) (claim_row now b d) (push_queue d) = push_queue d"
    by (intro update_where_none) (auto simp: claimable_def running_def list_ex_iff)
  then show ?thesis using assms by (simp add: queue_ok_def)
next
  case False
  have "identity_kept (claimable i d) (claim_row now b d)"
    by (auto simp: identity_kept_def claimable_def claim_row_def Let_def row_ok_def op_key_def
        unclaimed_def status_defs)
  moreover have "q_id s = i" if s: "s \<in> set (update_where (claimable i d) (claim_row now b d) (push_queue d))"
      and r: "running s" for s
  proof -
    obtain u where u: "u \<in> set (push_queue d)" "s = (if claimable i d u then claim_row now b d u else u)"
      using s by (auto simp: in_update_where)
    then have "claimable i d u" using r False by (auto simp: list_ex_iff split: if_splits)
    then show ?thesis using u by (simp add: claimable_def claim_row_def Let_def)
  qed
  then have "unique_by running (\<lambda>_. ()) (update_where (claimable i d) (claim_row now b d) (push_queue d))"
    by (auto simp: unique_by_def)
  ultimately show ?thesis
    using assms queue_inv_update_running unfolding queue_ok_def by blast
qed

lemma queue_ok_claim [intro]:
  "queue_ok d \<Longrightarrow> queue_ok (snd (claim_for_execution x b now i d))"
  using queue_inv_claim [of d i now b]
  by (auto simp: claim_for_execution_def Let_def queue_ok_def split: option.splits sum.splits)

section \<open>Conflict requeue\<close>

lemma queue_inv_supersede:
  assumes "queue_inv rows n" "s \<in> set rows" "q_id s = j" "i < j"
    "\<And>r. r \<in> set rows \<Longrightarrow> q_id r = i \<Longrightarrow> q_status r = Cancelled \<and> op_key r = op_key s"
  shows "queue_inv (update_where (\<lambda>r. q_id r = i)
     (\<lambda>r. r\<lparr>q_superseded_by := Some j, q_updated_at := t\<rparr>) rows) n"
proof -
  let ?f = "\<lambda>r. r\<lparr>q_superseded_by := Some j, q_updated_at := t\<rparr>"
  let ?rows = "update_where (\<lambda>r. q_id r = i) ?f rows"
  have ids: "map q_id ?rows = map q_id rows" by (rule map_update_where) simp
  have keep: "unique_by Q k ?rows" if "unique_by Q k rows" "\<And>r. Q (?f r) = Q r" "\<And>r. k (?f r) = k r" for Q k
    by (rule unique_by_update) (use that in auto)
  have u: "unique_by running (\<lambda>_. ()) ?rows" "unique_by active_push q_path ?rows"
      "unique_by op_state op_key ?rows"
    using assms(1) by (auto simp: queue_inv_def status_defs op_key_def intro!: keep)
  have ex: "\<exists>u\<in>set ?rows. q_id u = a \<and> op_key u = b"
    if "u \<in> set rows" "q_id u = a" "op_key u = b" for u a b
    using that by (intro bexI [of _ "if q_id u = i then ?f u else u"]) (auto simp: in_update_where op_key_def)
  have "row_ok r \<and> successor_ok ?rows r \<and> 0 < q_id r \<and> q_id r < n" if r: "r \<in> set ?rows" for r
  proof -
    obtain r0 where r0: "r0 \<in> set rows" "r = (if q_id r0 = i then ?f r0 else r0)"
      using r by (auto simp: in_update_where)
    have r0': "row_ok r0" "successor_ok rows r0" "0 < q_id r0" "q_id r0 < n"
      using assms(1) r0(1) by (auto simp: queue_inv_def)
    show ?thesis
    proof (cases "q_id r0 = i")
      case True
      with r0' assms(5) [OF r0(1)] have "row_ok r"
        by (simp add: r0(2) row_ok_def unclaimed_def is_active_def)
      moreover have "successor_ok ?rows r"
        using True ex [OF assms(2,3) refl] assms(4) assms(5) [OF r0(1) True]
        by (auto simp: r0(2) successor_ok_def op_key_def)
      ultimately show ?thesis using r0' True by (simp add: r0(2))
    next
      case False
      then show ?thesis
        using r0' by (auto simp: r0(2) successor_ok_def split: option.splits intro: ex [OF _ refl])
    qed
  qed
  then show ?thesis using assms(1) ids u by (auto simp: queue_inv_def)
qed

lemma shrinking_conflict:
  "shrinking (requeue_intent i) (\<lambda>r. r\<lparr>q_status := Cancelled, q_failure_type := fl,
     q_finished_at := Some t, q_pending_action := None, q_updated_at := t\<rparr>)"
  by (auto simp: shrinking_def identity_kept_def requeue_intent_def row_ok_def op_key_def
      unclaimed_def status_defs)

text \<open>The rows a snapshot of a row stands for: it may be outdated in every other field.\<close>

definition snapshot_of :: "push_row \<Rightarrow> db \<Rightarrow> bool" where
  "snapshot_of old d \<longleftrightarrow> (\<forall>r\<in>set (push_queue d). q_id r = q_id old \<longrightarrow> op_key r = op_key old)"

lemma queue_ok_complete_conflict_requeue:
  assumes "queue_ok d" "snapshot_of old d" "complete_conflict_requeue_in_txn now old d = Inr (j, d')"
  shows "queue_ok d'"
proof -
  let ?f = "\<lambda>r. r\<lparr>q_status := Cancelled, q_failure_type := Some ConflictFailure,
     q_finished_at := Some now, q_pending_action := None, q_updated_at := now\<rparr>"
  let ?P = "requeue_intent (q_id old)"
  let ?d1 = "snd (update_queue ?P ?f d)"
  have ok1: "queue_ok ?d1" using assms(1) by (rule queue_ok_update) (rule shrinking_conflict)
  show ?thesis
  proof (cases "rows_affected ?P (push_queue d) = 0")
    case True
    then show ?thesis
      using assms(3) ok1 by (auto simp: complete_conflict_requeue_in_txn_def update_queue_def Let_def
          split: option.splits)
  next
    case False
    then obtain r where r: "r \<in> set (push_queue d)" "?P r" by (auto simp: rows_affected_0)
    let ?n = "next_push_id d" and ?s = "new_row now (next_push_id d) (params_of_row old) (q_payload old)"
    obtain d2 where ins: "insert_push_row (\<lambda>i. new_row now i (params_of_row old) (q_payload old)) ?d1 = Row j d2"
        and d': "d' = snd (update_queue (\<lambda>r. q_id r = q_id old)
            (\<lambda>r. r\<lparr>q_superseded_by := Some j, q_updated_at := now\<rparr>) d2)"
      using assms(3) False by (auto simp: complete_conflict_requeue_in_txn_def update_queue_def Let_def
          split: insert_result.splits)
    have ok2: "queue_ok d2"
      by (rule queue_ok_insert [OF ok1, where payload = "\<lambda>_. q_payload old"]) (use ins in simp)
    have d2: "push_queue d2 = push_queue ?d1 @ [?s]" "j = ?n"
      using ins by (auto simp: insert_push_row_def Let_def split: if_splits)
    have lt: "q_id old < ?n"
      using assms(1) r by (auto simp: queue_ok_def queue_inv_def requeue_intent_def)
    have "q_status u = Cancelled \<and> op_key u = op_key ?s" if u: "u \<in> set (push_queue d2)" "q_id u = q_id old" for u
    proof -
      obtain v where v: "v \<in> set (push_queue d)" "u = (if ?P v then ?f v else v)"
        using u lt by (auto simp: d2 in_update_where)
      then have "v = r" using row_by_id [OF assms(1) v(1) r(1)] u r(2)
        by (auto simp: requeue_intent_def split: if_splits)
      then show ?thesis
        using v(2) r assms(2) by (auto simp: snapshot_of_def op_key_def params_of_row_def requeue_intent_def)
    qed
    moreover have "?s \<in> set (push_queue d2)" "q_id ?s = j" "q_id old < j" using d2 lt by auto
    ultimately show ?thesis
      using queue_inv_supersede [OF ok2 [unfolded queue_ok_def]]
      by (simp add: d' queue_ok_def)
  qed
qed

end
