(* ===== verification/Queue_Steps.thy ===== *)
theory Queue_Steps
  imports Queue_Invariant
begin

text \<open>
  The queue as a transition system: every transaction of the storage, the service and the reaper is
  a step, and the invariant of \<open>Queue_Invariant\<close> holds in every reachable state.
\<close>

section \<open>Publication\<close>

lemma queue_ok_ensure_namespace [simp]: "queue_ok (ensure_namespace n d) = queue_ok d"
  by (simp add: ensure_namespace_def)

lemma queue_ok_begin_publication [simp]:
  "queue_ok (snd (begin_publication_in_txn x tx request d)) = queue_ok d"
  by (simp add: begin_publication_in_txn_def Let_def)

lemma queue_ok_begin_publicationE:
  "begin_publication_in_txn x tx request d = (res, d') \<Longrightarrow> queue_ok d' = queue_ok d"
  using queue_ok_begin_publication [of x tx request d] by simp

lemma queue_ok_record_publication:
  "record_publication_in_txn tx prepared old new d = Inr (c, d') \<Longrightarrow> queue_ok d' = queue_ok d"
  by (auto simp: record_publication_in_txn_def Let_def split: if_splits option.splits)

lemma queue_ok_record_noop:
  "record_noop_operation_in_txn tx prepared c t l d = Inr (n, d') \<Longrightarrow> queue_ok d' = queue_ok d"
  by (auto simp: record_noop_operation_in_txn_def Let_def split: if_splits)

lemma queue_ok_record_native:
  "record_native_publication_in_txn x tx prepared committed d = Inr d' \<Longrightarrow> queue_ok d' = queue_ok d"
  by (auto simp: record_native_publication_in_txn_def bindR_eq_Inr write_native_certificate_def Let_def
      split: if_splits option.splits)

lemma queue_ok_initialize_native:
  "initialize_native_publication_in_txn x inst root d = Inr d' \<Longrightarrow> queue_ok d' = queue_ok d"
  by (auto simp: initialize_native_publication_in_txn_def bindR_eq_Inr split: if_splits option.splits)

lemma queue_ok_initialize_maintenance:
  "initialize_native_publication_for_maintenance x locked inst root d = Inr d' \<Longrightarrow> queue_ok d' = queue_ok d"
  using queue_ok_initialize_native
  by (auto simp: initialize_native_publication_for_maintenance_def bindR_eq_Inr
      split: if_splits option.splits)

section \<open>Ending a round\<close>

lemma queue_ok_fail_merge:
  "queue_ok d0 \<Longrightarrow> queue_ok d \<Longrightarrow> queue_ok (snd (b3_fail_merge now i fl msg d0 d))"
  using queue_ok_updates(8) [of d now i fl msg] by (simp add: b3_fail_merge_def case_prod_beta)

lemma queue_ok_terminalize:
  "queue_ok d \<Longrightarrow> queue_ok (snd (terminalize_failure now i fl msg d))"
  by (simp add: terminalize_failure_def queue_ok_fail_merge)

lemma queue_ok_bypass: "queue_ok d \<Longrightarrow> queue_ok (snd (b3_bypass now i msg d))"
  using queue_ok_updates(8) [of "set_hard_stopped_in_txn now True d" now i QueueBypassDetected msg]
  by (simp add: b3_bypass_def case_prod_beta)

lemma queue_ok_replay:
  "queue_ok d0 \<Longrightarrow> queue_ok d \<Longrightarrow> queue_ok (snd (b3_replay_committed_operation now i c d0 d))"
  using queue_ok_updates(7) [of d now i c] by (simp add: b3_replay_committed_operation_def case_prod_beta)

lemma queue_ok_tombstone_repair:
  "queue_ok d \<Longrightarrow> queue_ok (snd (b3_tombstone_repair_after_savepoint now i p msg d))"
  using queue_ok_updates(8) [of "snd (tombstone_and_delete_main_ref_in_txn now p d)" now i ConflictFailure msg]
  by (simp add: b3_tombstone_repair_after_savepoint_def case_prod_beta Let_def)

lemma queue_ok_hard_stopped: "queue_ok d \<Longrightarrow> queue_ok (snd (b3_hard_stopped now i d))"
  using queue_ok_updates(5) [of d now i] by (simp add: b3_hard_stopped_def case_prod_beta)

lemmas queue_ok_endings = queue_ok_fail_merge queue_ok_terminalize queue_ok_bypass queue_ok_replay
  queue_ok_tombstone_repair queue_ok_hard_stopped

section \<open>Execution\<close>

text \<open>The writers that are arguments of the model keep the queue table consistent.\<close>

definition writer_keeps :: "kind_writer \<Rightarrow> bool" where
  "writer_keeps w \<longleftrightarrow> (\<forall>row c t r d. queue_ok d \<longrightarrow> queue_ok (snd (w row c t r d)))"

definition push_ctx_keeps :: "PushExecContext \<Rightarrow> bool" where
  "push_ctx_keeps ctx \<longleftrightarrow>
     (\<forall>row b r t d l n d'. pc_land ctx row b r t d = Landed l n d' \<longrightarrow> queue_ok d \<longrightarrow> queue_ok d')
     \<and> (\<forall>d d'. pc_publish_target_paths ctx d = Inr d' \<longrightarrow> queue_ok d \<longrightarrow> queue_ok d')"

lemma queue_ok_push_noop:
  assumes "queue_ok d0" "queue_ok d"
  shows "queue_ok (snd (b3_push_noop x now tx row cc ct root pref pub native d0 d))"
proof -
  let ?d1 = "snd (cas_update_root_main_ref_in_txn cc ct (ref_commit_hash root) (ref_tree_hash root) d)"
  have "queue_ok (snd (mark_done_if_running_in_txn now (q_id row) (ref_commit_hash pref) ?d1))"
    using assms(2) by (intro queue_ok_updates) simp
  then show ?thesis
    using assms queue_ok_bypass
    by (auto simp: b3_push_noop_def case_prod_beta Let_def bindR_eq_Inr
        split: sum.splits option.splits dest: queue_ok_record_noop)
qed

lemma queue_ok_push_land:
  assumes "queue_ok d0" "queue_ok d" "push_ctx_keeps ctx"
  shows "queue_ok (snd (b3_push_land x now tx ctx row cc root cr tt pub native d0 d))"
proof (cases "pc_land ctx row cr root tt d")
  case (Landed l n d1)
  have "queue_ok (snd (mark_done_if_running_in_txn now (q_id row) l d1))"
    using assms(2,3) Landed by (intro queue_ok_updates) (auto simp: push_ctx_keeps_def)
  moreover have "queue_ok d4" if "pc_publish_target_paths ctx d3 = Inr d4" "queue_ok d3" for d3 d4
    using assms(3) that unfolding push_ctx_keeps_def by blast
  ultimately show ?thesis
    using assms(1) Landed
    by (auto simp: b3_push_land_def case_prod_beta Let_def bindR_eq_Inr map_err_def
        split: sum.splits option.splits dest!: queue_ok_record_publication queue_ok_record_native)
qed (use assms queue_ok_endings in \<open>auto simp: b3_push_land_def\<close>)

lemma queue_ok_execute_push:
  assumes "queue_ok d0" "queue_ok d" "push_ctx_keeps ctx" "keeps_queue race"
  shows "queue_ok (snd (b3_execute_push x now tx race ctx row cc ct root pub native d0 d))"
proof -
  note r = keeps_queueD [OF assms(4) assms(1)] keeps_queueD [OF assms(4) assms(2)]
  have "queue_ok (snd (b3_execute_push_inner x now tx race ctx row cc ct root pub native d0 d))"
    using assms(1,2) queue_ok_fail_merge [OF assms(1,2)] queue_ok_push_noop [OF r]
      queue_ok_push_land [OF r assms(3)]
    by (auto simp: b3_execute_push_inner_def split: sum.splits option.splits prod.splits bool.splits)
  then show ?thesis
    using queue_ok_terminalize by (auto simp: b3_execute_push_def split: prod.splits sum.splits)
qed

lemma queue_ok_stub:
  assumes "queue_ok d0" "queue_ok d" "keeps_queue race"
  shows "queue_ok (snd (b3_stub now tx race req cc ct root pub d0 d))"
proof -
  note r = keeps_queueD [OF assms(3) assms(1)] keeps_queueD [OF assms(3) assms(2)]
  have landed: "queue_ok (snd (mark_done_if_running_in_txn now i c
      (snd (cas_update_root_main_ref_in_txn cc ct nc nt (race d)))))" for i c nc nt
    using r(2) by (intro queue_ok_updates) simp
  show ?thesis
    using assms(1,2) r queue_ok_bypass [OF r(2)] queue_ok_updates(8) [OF assms(2)] landed
    by (auto simp: b3_stub_def case_prod_beta Let_def split: sum.splits option.splits
        dest!: queue_ok_record_publication)
qed

definition contexts_keep ::
    "kind_writer option \<Rightarrow> MergeExecContext option \<Rightarrow> PushExecContext option \<Rightarrow> bool" where
  "contexts_keep attach_ctx merge_ctx push_ctx \<longleftrightarrow>
     (\<forall>w. attach_ctx = Some w \<longrightarrow> writer_keeps w)
     \<and> (\<forall>c. merge_ctx = Some c \<longrightarrow> writer_keeps (mc_execute c))
     \<and> (\<forall>c. push_ctx = Some c \<longrightarrow> push_ctx_keeps c)"

lemma queue_ok_dispatch:
  assumes "queue_ok d0" "queue_ok d" "keeps_queue race" "contexts_keep actx mctx pctx"
  shows "queue_ok (snd (b3_dispatch x now tx race req actx mctx pctx row cc ct root pub native d0 d))"
proof -
  note r = keeps_queueD [OF assms(3) assms(2)]
  show ?thesis
  proof (cases "q_kind row")
    case Attach
    then show ?thesis
      using assms r queue_ok_terminalize
      by (auto simp: b3_dispatch_def contexts_keep_def writer_keeps_def split: option.splits)
  next
    case Merge
    then show ?thesis
      using assms r queue_ok_stub
      by (auto simp: b3_dispatch_def contexts_keep_def writer_keeps_def split: option.splits)
  next
    case Push
    have "queue_ok (snd (b3_execute_push x now tx race ctx row cc ct root pub native d0 d))"
      if "pctx = Some ctx" for ctx
      using assms that by (intro queue_ok_execute_push) (auto simp: contexts_keep_def)
    then show ?thesis
      using Push assms queue_ok_stub queue_ok_tombstone_repair
      by (auto simp: b3_dispatch_def split: option.splits sum.splits)
  qed
qed

lemma queue_ok_begin_pub:
  assumes "queue_ok d"
  shows "b3_begin_publication x now tx mctx pctx row d = Inl res \<Longrightarrow> queue_ok (snd res)"
    and "b3_begin_publication x now tx mctx pctx row d = Inr (pub, d1) \<Longrightarrow> queue_ok d1"
proof -
  have b: "queue_ok d'" if "begin_publication_in_txn x tx request d = (r, d')" for request r d'
    using queue_ok_begin_publicationE [OF that] assms by simp
  note keep = queue_ok_fail_merge [OF assms assms] queue_ok_fail_merge [OF assms] queue_ok_replay [OF assms]
  show "b3_begin_publication x now tx mctx pctx row d = Inl res \<Longrightarrow> queue_ok (snd res)"
    using assms keep b
    by (auto simp: b3_begin_publication_def split: option.splits if_splits sum.splits prod.splits
        PublicationPreparation.splits PublicationReceiptError.splits)
  show "b3_begin_publication x now tx mctx pctx row d = Inr (pub, d1) \<Longrightarrow> queue_ok d1"
    using assms b
    by (auto simp: b3_begin_publication_def split: option.splits if_splits sum.splits prod.splits
        PublicationPreparation.splits PublicationReceiptError.splits)
qed

lemma queue_ok_reserve:
  assumes "queue_ok d0" "queue_ok d" "b3_reserve_native x now tx pctx row pub d0 d = Inl res"
  shows "queue_ok (snd res)"
  using assms(1,3) queue_ok_fail_merge [OF assms(1,2)]
  by (auto simp: b3_reserve_native_def split: sum.splits option.splits if_splits
      PublicationReceiptError.splits)

lemma queue_ok_with_baseline:
  assumes "queue_ok d0" "queue_ok d" "keeps_queue race" "contexts_keep actx mctx pctx"
  shows "queue_ok (snd (b3_with_baseline x now tx race req actx mctx pctx row pub d0 d))"
  using assms(1) queue_ok_bypass [OF assms(2)] queue_ok_fail_merge [OF assms(1,2)]
    queue_ok_dispatch [OF assms] queue_ok_reserve [OF assms(1,2)]
  by (auto simp: b3_with_baseline_def Let_def split: sum.splits)

lemma queue_ok_execute_b3:
  assumes "queue_ok d" "keeps_queue race" "contexts_keep actx mctx pctx"
  shows "queue_ok (snd (execute_b3 x now tx race req actx mctx pctx d))"
  using assms(1) queue_ok_hard_stopped [OF assms(1)] queue_ok_begin_pub [OF assms(1)]
    queue_ok_with_baseline [OF assms(1) _ assms(2,3)]
  by (auto simp: execute_b3_def split: option.splits sum.splits bool.splits prod.splits)

section \<open>Waiting\<close>

definition ticks_keep :: "tick list \<Rightarrow> bool" where
  "ticks_keep ts \<longleftrightarrow> (\<forall>t\<in>set ts. keeps_queue (tk_before t) \<and> keeps_queue (tk_between t))"

lemma queue_ok_wait_and_claim:
  "queue_ok d \<Longrightarrow> ticks_keep ts \<Longrightarrow> wait_and_claim x cfg ts deadline seen i d = Some (res, d') \<Longrightarrow> queue_ok d'"
proof (induction ts arbitrary: deadline seen i d)
  case (Cons t ts)
  let ?d1 = "tk_before t d"
  have d1: "queue_ok ?d1" using Cons.prems(1,2) keeps_queueD by (auto simp: ticks_keep_def)
  let ?c = "claim_for_execution x (native_publication_enabled cfg) (tk_now t) i
      (tk_between t (touch_heartbeat (tk_now t) i ?d1))"
  have "queue_ok (tk_between t (touch_heartbeat (tk_now t) i ?d1))"
    using Cons.prems(2) keeps_queueD queue_ok_updates(1) [OF d1] by (auto simp: ticks_keep_def)
  then have c: "queue_ok (snd ?c)" by blast
  have ts: "ticks_keep ts" using Cons.prems(2) by (simp add: ticks_keep_def)
  show ?case
    using Cons.prems(3) d1 c Cons.IH [OF d1 ts] Cons.IH [OF c ts]
    by (auto simp: Let_def split: option.splits PushQueueStatus.splits if_splits prod.splits
        sum.splits ClaimOutcome.splits)
qed simp

section \<open>The reaper\<close>

lemma apply_i3_queue [simp]:
  "push_queue (snd (apply_i3 now row root d)) = push_queue d"
  "next_push_id (snd (apply_i3 now row root d)) = next_push_id d"
  by (auto simp: apply_i3_def tombstone_and_delete_main_ref_in_txn_def upsert_tombstone_on_def Let_def
      split: PushQueueKind.splits option.splits)

lemma queue_ok_apply_i3 [simp]: "queue_ok (snd (apply_i3 now row root d)) = queue_ok d"
  by (simp add: queue_ok_def)

lemma queue_ok_reap_running_row:
  assumes "queue_ok d" "row \<in> set (push_queue d)" "reap_running_row now row hs d = Inr (k, d')"
  shows "queue_ok d'"
proof -
  let ?root = "get_main_ref_in_txn (lit ''/'') d"
  let ?d1 = "snd (apply_i3 now row ?root d)"
  have d1: "queue_ok ?d1" using assms(1) by simp
  have same: "r = row" if "r \<in> set (push_queue d)" "q_id r = q_id row" for r
    using row_by_id [OF assms(1) that(1) assms(2) that(2)] .
  have snap: "snapshot_of row ?d1" using same by (auto simp: snapshot_of_def)
  have reset: "queue_ok (snd (reset_running_to_queued_in_txn now (q_id row) ?d1))"
    if "q_pending_action row = None"
    by (rule queue_ok_reset_in_txn [OF d1]) (use same that in auto)
  have pend: "q_pending_action row = None \<or> q_pending_action row = Some RequeueConflict"
    by (metis PushQueuePending.exhaust not_Some_eq)
  note m = queue_ok_updates(8) [of "set_hard_stopped_in_txn now True ?d1"] queue_ok_updates(8) [OF d1]
  show ?thesis
    using assms(3) d1 m reset pend queue_ok_complete_conflict_requeue [OF d1 snap]
    by (auto simp: reap_running_row_def Let_def case_prod_beta bindR_eq_Inr split: if_splits)
qed

lemma at_most_one:
  assumes "distinct xs" "\<forall>a\<in>set xs. \<forall>b\<in>set xs. a = b" shows "xs = [] \<or> (\<exists>a. xs = [a])"
proof (cases xs)
  case (Cons a ys)
  have "ys = []"
  proof (cases ys)
    case (Cons b zs)
    then show ?thesis using assms \<open>xs = a # ys\<close> by (metis distinct_length_2_or_more list.set_intros)
  qed
  then show ?thesis using Cons by simp
qed simp

lemma list_running_queue_ok:
  assumes "queue_ok d" shows "list_running_in_txn d = [] \<or> (\<exists>r. list_running_in_txn d = [r])"
proof -
  have "distinct (list_running_in_txn d)"
    using queue_ok_distinct [OF assms] by (simp add: list_running_in_txn_def distinct_map)
  moreover have "\<forall>r\<in>set (list_running_in_txn d). \<forall>s\<in>set (list_running_in_txn d). r = s"
  proof (intro ballI)
    fix r s assume "r \<in> set (list_running_in_txn d)" "s \<in> set (list_running_in_txn d)"
    then have rs: "r \<in> set (push_queue d)" "s \<in> set (push_queue d)" "running r" "running s"
      by (auto simp: list_running_in_txn_def running_def)
    moreover have "unique_by running (\<lambda>_. ()) (push_queue d)"
      using assms by (simp add: queue_ok_def queue_inv_def)
    ultimately have "q_id r = q_id s" unfolding unique_by_def by blast
    then show "r = s" by (rule row_by_id [OF assms rs(1,2)])
  qed
  ultimately show ?thesis by (rule at_most_one)
qed

lemma set_list_running: "set (list_running_in_txn d) = {r \<in> set (push_queue d). q_status r = Running}"
  by (auto simp: list_running_in_txn_def)

lemma queue_ok_reap_rows:
  assumes "queue_ok d" "reap_rows now g hs (list_running_in_txn d) rep d = Inr (rep', d2)"
  shows "queue_ok d2"
  using list_running_queue_ok [OF assms(1)]
proof
  assume "\<exists>r. list_running_in_txn d = [r]"
  then obtain r where r: "list_running_in_txn d = [r]" by blast
  then have "r \<in> set (push_queue d)" using set_list_running [of d] by auto
  then show ?thesis
    using assms r queue_ok_reap_running_row [OF assms(1)] by (auto simp: bindR_eq_Inr split: if_splits)
qed (use assms in simp)

lemma queue_ok_reap_once:
  assumes "queue_ok d" shows "queue_ok (snd (reap_once cfg now locked holders d))"
proof (cases "is_hard_stopped_in_txn d")
  case (Inr hs)
  let ?d1 = "snd (if hs then (0, d) else cancel_stale_queued_in_txn now (now - heartbeat_timeout cfg) d)"
  have d1: "queue_ok ?d1" using assms queue_ok_updates(4) by auto
  show ?thesis
    using Inr assms d1 queue_ok_reap_rows [OF d1] by (auto simp: reap_once_def case_prod_beta Let_def split: sum.splits)
qed (use assms in \<open>simp add: reap_once_def\<close>)

section \<open>The transition system\<close>

locale transition_system =
  fixes init :: "'s \<Rightarrow> bool" and step :: "'s \<Rightarrow> 's \<Rightarrow> bool" and inv :: "'s \<Rightarrow> bool"
  assumes inv_init: "init s \<Longrightarrow> inv s"
    and inv_step: "step s t \<Longrightarrow> inv s \<Longrightarrow> inv t"
begin

lemma reachable_inv:
  assumes "init s" "step\<^sup>*\<^sup>* s t" shows "inv t"
  using assms(2) by (induction rule: rtranclp_induct) (auto intro: inv_init inv_step assms(1))

end

text \<open>The migration seeds an empty queue.\<close>

definition queue_init :: "db \<Rightarrow> bool" where
  "queue_init d \<longleftrightarrow> push_queue d = [] \<and> 0 < next_push_id d"

text \<open>One rule per transaction; the last rule is any transaction that does not touch \<open>push_queue\<close>, such
  as a ref or object write, a receipt or the control row.\<close>

inductive queue_step :: "db \<Rightarrow> db \<Rightarrow> bool" where
  step_enqueue: "keeps_queue race1 \<Longrightarrow> keeps_queue race2 \<Longrightarrow> keeps_queue race3 \<Longrightarrow>
    queue_step d (snd (enqueue_atomic x now race1 race2 race3 p d))"
| step_claim: "queue_step d (snd (claim_for_execution x b now i d))"
| step_heartbeat: "queue_step d (touch_heartbeat now i d)"
| step_execute: "keeps_queue race \<Longrightarrow> contexts_keep actx mctx pctx \<Longrightarrow>
    queue_step d (snd (execute_b3 x now tx race req actx mctx pctx d))"
| step_intent: "queue_step d (snd (persist_requeue_conflict_intent now i d))"
| step_requeue: "snapshot_of old d \<Longrightarrow> complete_conflict_requeue_in_txn now old d = Inr (j, d') \<Longrightarrow>
    queue_step d d'"
| step_cancel: "queue_step d (snd (cancel_if_queued now i d))"
| step_freeze: "queue_step d (snd (freeze_merge_for_authz now cl msg d))"
| step_reset: "queue_step d (snd (reset_running_to_queued now i d))"
| step_done: "queue_step d (snd (mark_done_if_running_in_txn now i c d))"
| step_failed: "queue_step d (snd (mark_failed_if_running_in_txn now i fl msg d))"
| step_reap: "queue_step d (snd (reap_once cfg now locked holders d))"
| step_other: "push_queue d' = push_queue d \<Longrightarrow> next_push_id d' = next_push_id d \<Longrightarrow> queue_step d d'"

interpretation queue_ts: transition_system queue_init queue_step queue_ok
proof
  show "queue_ok d" if "queue_init d" for d
    using that by (simp add: queue_init_def queue_ok_def queue_inv_def unique_by_def)
  show "queue_ok d'" if "queue_step d d'" "queue_ok d" for d d'
    using that
  proof (induction rule: queue_step.induct)
    case (step_requeue old d now j d')
    then show ?case using queue_ok_complete_conflict_requeue by blast
  next
    case (step_other d' d)
    then show ?case by (simp add: queue_ok_def)
  qed (auto intro: queue_ok_enqueue_atomic queue_ok_claim queue_ok_execute_b3 queue_ok_reap_once
      queue_ok_updates)
qed

end
