(* ===== verification/Publication_Ledger.thy ===== *)
theory Publication_Ledger
  imports Queue_Steps
begin

text \<open>
  The publication ledger: receipts, outbox, no-op receipts and the sequence numbers of the
  namespaces. The invariant says that each namespace numbers its receipts from 1 without gaps, that
  the outbox mirrors the receipts and that no operation is recorded twice; every transaction of
  the queue keeps it.
\<close>

section \<open>The invariant\<close>

definition ledger :: "db \<Rightarrow> mst2_namespace_seq list \<times> mst2_publication list \<times> int
    \<times> mst2_publication_outbox list \<times> mst2_queue_noop_receipt list" where
  "ledger d = (namespace_seq d, publications d, next_publication_id d, publication_outbox d, noop_receipts d)"

definition namespace_sequence :: "rstr \<Rightarrow> db \<Rightarrow> int" where
  "namespace_sequence ns d = (case find (\<lambda>s. s_namespace s = ns) (namespace_seq d) of
     None \<Rightarrow> 0 | Some s \<Rightarrow> s_sequence s)"

definition numbering :: "rstr \<Rightarrow> db \<Rightarrow> int list" where
  "numbering ns d = map p_sequence (filter (\<lambda>p. p_namespace p = ns) (publications d))"

definition recorded_operations :: "db \<Rightarrow> rstr list" where
  "recorded_operations d = map p_operation_id (publications d) @ map n_operation_id (noop_receipts d)"

definition receipt_key :: "mst2_publication \<Rightarrow> rstr \<times> rstr \<times> int" where
  "receipt_key p = (p_operation_id p, p_namespace p, p_sequence p)"

definition outbox_key :: "mst2_publication_outbox \<Rightarrow> rstr \<times> rstr \<times> int" where
  "outbox_key ob = (o_operation_id ob, o_namespace ob, o_sequence ob)"

definition ledger_ok :: "db \<Rightarrow> bool" where
  "ledger_ok d \<longleftrightarrow> distinct (map s_namespace (namespace_seq d))
     \<and> (\<forall>s\<in>set (namespace_seq d). 0 \<le> s_sequence s)
     \<and> (\<forall>ns. numbering ns d = [1..namespace_sequence ns d])
     \<and> map outbox_key (publication_outbox d) = map receipt_key (publications d)
     \<and> distinct (recorded_operations d)
     \<and> distinct (map p_id (publications d)) \<and> (\<forall>p\<in>set (publications d). p_id p < next_publication_id d)"

lemma ledger_sel:
  assumes "ledger d' = ledger d"
  shows "namespace_seq d' = namespace_seq d" "publications d' = publications d"
    "next_publication_id d' = next_publication_id d" "publication_outbox d' = publication_outbox d"
    "noop_receipts d' = noop_receipts d"
  using assms by (simp_all add: ledger_def)

lemma ledger_ok_cong:
  assumes "ledger d' = ledger d"
  shows "ledger_ok d' = ledger_ok d" "recorded_operations d' = recorded_operations d"
  using ledger_sel [OF assms]
  by (simp_all add: ledger_ok_def numbering_def namespace_sequence_def recorded_operations_def)

section \<open>Reservation and recording\<close>

lemma find_map_keep: "(\<And>r. Q (f r) = Q r) \<Longrightarrow> find Q (map f xs) = map_option f (find Q xs)"
  by (induction xs) auto

lemma find_append: "find P (xs @ ys) = (case find P xs of None \<Rightarrow> find P ys | Some x \<Rightarrow> Some x)"
  by (induction xs) auto

lemma find_unique:
  assumes "distinct (map k xs)" "y \<in> set xs" shows "find (\<lambda>r. k r = k y) xs = Some y"
  using assms by (induction xs) auto

lemma namespace_sequence_reserve:
  assumes "ledger_ok d" "find (reserved_row tx prepared) (namespace_seq d) = Some s"
    "namespace_seq d' = update_where (reserved_row tx prepared) (\<lambda>r. r\<lparr>s_sequence := s_sequence r + 1\<rparr>) (namespace_seq d)"
  shows "namespace_sequence (r_namespace (pp_request prepared)) d = s_sequence s"
    and "namespace_sequence ns d' = (if ns = r_namespace (pp_request prepared) then s_sequence s + 1 else namespace_sequence ns d)"
proof -
  have s: "s \<in> set (namespace_seq d)" "reserved_row tx prepared s" "s_namespace s = r_namespace (pp_request prepared)"
    using assms(2) by (auto simp: find_Some_iff reserved_row_def)
  have f: "find (\<lambda>r. s_namespace r = s_namespace s) (namespace_seq d) = Some s"
    using assms(1) s(1) by (intro find_unique) (simp add: ledger_ok_def)
  have m: "find (\<lambda>r. s_namespace r = ns) (namespace_seq d')
      = map_option (\<lambda>r. if reserved_row tx prepared r then r\<lparr>s_sequence := s_sequence r + 1\<rparr> else r)
          (find (\<lambda>r. s_namespace r = ns) (namespace_seq d))" for ns
    unfolding assms(3) update_where_def by (rule find_map_keep) simp
  have o: "\<not> reserved_row tx prepared r" if "find (\<lambda>r. s_namespace r = ns) (namespace_seq d) = Some r" "ns \<noteq> r_namespace (pp_request prepared)" for r
    using that by (auto simp: find_Some_iff reserved_row_def)
  show "namespace_sequence (r_namespace (pp_request prepared)) d = s_sequence s"
    using f s(3) by (simp add: namespace_sequence_def)
  show "namespace_sequence ns d' = (if ns = r_namespace (pp_request prepared) then s_sequence s + 1 else namespace_sequence ns d)"
    using f s(2,3) m o by (auto simp: namespace_sequence_def split: option.splits)
qed

lemma committed_operation_none:
  "find_committed_operation d op = Ok None \<longleftrightarrow> op \<notin> set (recorded_operations d)"
proof -
  have n: "find (\<lambda>p. k p = op) xs = None \<longleftrightarrow> op \<notin> k ` set xs" for k :: "'k \<Rightarrow> rstr" and xs
    by (auto simp: find_None_iff)
  show ?thesis
    using n [of p_operation_id "publications d"] n [of n_operation_id "noop_receipts d"]
    by (auto simp: find_committed_operation_def recorded_operations_def split: option.splits)
qed

lemma ensure_namespace_ledger:
  assumes "ledger_ok d" shows "ledger_ok (ensure_namespace ns d)"
proof (cases "list_ex (\<lambda>s. s_namespace s = ns) (namespace_seq d)")
  case False
  then have n: "find (\<lambda>s. s_namespace s = ns) (namespace_seq d) = None" by (auto simp: find_None_iff list_ex_iff)
  have "namespace_sequence m (ensure_namespace ns d) = namespace_sequence m d" for m
    using False n by (auto simp: namespace_sequence_def ensure_namespace_def find_append split: option.splits)
  then show ?thesis using assms False
    by (auto simp: ledger_ok_def ensure_namespace_def numbering_def recorded_operations_def list_ex_iff)
qed (use assms in \<open>simp add: ensure_namespace_def\<close>)

lemma committed_not_prepared [simp]: "validate_committed_operation d request existing \<noteq> Ok (Prepared p)"
  by (cases existing) (auto simp: bindR_eq_Inr)

lemma begin_prepared:
  assumes "begin_publication_in_txn x tx request d = (Ok (Prepared p), d')"
  shows "d' = ensure_namespace (r_namespace request) d" "pp_request p = request" "pp_transaction_id p = tx"
    "find_committed_operation d' (r_operation_id request) = Ok None"
    "\<exists>s. find (\<lambda>s. s_namespace s = r_namespace request) (namespace_seq d') = Some s \<and> s_epoch s = WRITER_EPOCH
       \<and> pp_sequence p = s_sequence s"
  using assms
  by (auto simp: begin_publication_in_txn_def Let_def bindR_eq_Inr split: option.splits if_splits)

lemma ledger_ok_begin:
  assumes "ledger_ok d" "begin_publication_in_txn x tx request d = (res, d')"
  shows "ledger_ok d'"
    and "res = Ok (Prepared p) \<Longrightarrow> r_operation_id (pp_request p) \<notin> set (recorded_operations d')"
proof -
  have "d' = ensure_namespace (r_namespace request) d"
    using assms(2) by (simp add: begin_publication_in_txn_def Let_def)
  then show "ledger_ok d'" using ensure_namespace_ledger [OF assms(1)] by simp
  show "res = Ok (Prepared p) \<Longrightarrow> r_operation_id (pp_request p) \<notin> set (recorded_operations d')"
    using begin_prepared(2,4) [of x tx request d p d'] assms(2) committed_operation_none by auto
qed

lemma ledger_ok_record_publication:
  assumes "ledger_ok d" "record_publication_in_txn tx prepared old new d = Ok (c, d')"
    "r_operation_id (pp_request prepared) \<notin> set (recorded_operations d)"
  shows "ledger_ok d'"
proof -
  let ?ns = "r_namespace (pp_request prepared)" and ?op = "r_operation_id (pp_request prepared)"
  obtain s where s: "find (reserved_row tx prepared) (namespace_seq d) = Some s" "s_sequence s < I64_MAX"
      "namespace_seq d' = update_where (reserved_row tx prepared) (\<lambda>r. r\<lparr>s_sequence := s_sequence r + 1\<rparr>) (namespace_seq d)"
      "publications d' = publications d @ [cp_receipt c]" "publication_outbox d' = publication_outbox d @ [cp_outbox c]"
      "next_publication_id d' = next_publication_id d + 1" "noop_receipts d' = noop_receipts d"
      "receipt_key (cp_receipt c) = (?op, ?ns, s_sequence s + 1)" "outbox_key (cp_outbox c) = (?op, ?ns, s_sequence s + 1)"
      "p_id (cp_receipt c) = next_publication_id d"
    using assms(2) by (auto simp: record_publication_in_txn_def Let_def receipt_key_def outbox_key_def
        split: if_splits option.splits)
  note seq = namespace_sequence_reserve [OF assms(1) s(1,3)]
  have k: "p_operation_id (cp_receipt c) = ?op" "p_namespace (cp_receipt c) = ?ns" "p_sequence (cp_receipt c) = s_sequence s + 1"
    using s(8) by (simp_all add: receipt_key_def)
  have "s \<in> set (namespace_seq d)" using s(1) by (auto simp: find_Some_iff)
  then have "0 \<le> s_sequence s" using assms(1) by (simp add: ledger_ok_def)
  then have "numbering ns d' = [1..namespace_sequence ns d']" for ns
    using seq(1) seq(2) [of ns] assms(1) s(4) k upto_rec2 [of 1 "s_sequence s + 1"]
    by (auto simp: ledger_ok_def numbering_def)
  moreover have "map s_namespace (namespace_seq d') = map s_namespace (namespace_seq d)"
    unfolding s(3) by (rule map_update_where) simp
  moreover have "\<forall>r\<in>set (namespace_seq d'). 0 \<le> s_sequence r"
    using assms(1) unfolding s(3) by (auto simp: ledger_ok_def in_update_where)
  ultimately show ?thesis
    using assms(1,3) s(4-10) k by (auto simp: ledger_ok_def recorded_operations_def)
qed

lemma ledger_ok_record_noop:
  assumes "ledger_ok d" "record_noop_operation_in_txn tx prepared c t l d = Ok (n, d')"
    "r_operation_id (pp_request prepared) \<notin> set (recorded_operations d)"
  shows "ledger_ok d'"
proof -
  have d': "d' = d\<lparr>noop_receipts := noop_receipts d @ [n]\<rparr>" "n_operation_id n = r_operation_id (pp_request prepared)"
    using assms(2) by (auto simp: record_noop_operation_in_txn_def Let_def split: if_splits)
  then have "recorded_operations d' = recorded_operations d @ [r_operation_id (pp_request prepared)]"
    by (simp add: recorded_operations_def)
  then show ?thesis
    using assms(1,3) unfolding ledger_ok_def d'(1) numbering_def namespace_sequence_def by simp
qed

lemma ledger_ok_record_native:
  assumes "ledger_ok d" "record_native_publication_in_txn x tx prepared committed d = Ok d'"
  shows "ledger_ok d'"
proof -
  obtain i where p: "publications d' = update_where (unmarked i) (\<lambda>p. p\<lparr>p_native_certificate_version := Some 1\<rparr>) (publications d)"
      and o: "namespace_seq d' = namespace_seq d" "next_publication_id d' = next_publication_id d"
      "publication_outbox d' = publication_outbox d" "noop_receipts d' = noop_receipts d"
    using assms(2) by (auto simp: record_native_publication_in_txn_def bindR_eq_Inr write_native_certificate_def Let_def
      split: if_splits option.splits)
  have m: "map k (publications d') = map k (publications d)"
    if "\<And>p. k (p\<lparr>p_native_certificate_version := Some 1\<rparr>) = k p" for k :: "mst2_publication \<Rightarrow> 'k"
    unfolding p by (rule map_update_where) (simp add: that)
  have k: "numbering ns e = map (snd \<circ> snd) (filter (\<lambda>k. fst (snd k) = ns) (map receipt_key (publications e)))" for ns e
    by (simp add: numbering_def filter_map comp_def receipt_key_def)
  have key: "map receipt_key (publications d') = map receipt_key (publications d)"
    by (rule m) (simp add: receipt_key_def)
  have ids: "map p_id (publications d') = map p_id (publications d)"
      "map p_operation_id (publications d') = map p_operation_id (publications d)" by (rule m; simp)+
  have im: "p_id ` set (publications d') = p_id ` set (publications d)"
    using arg_cong [OF ids(1), of set] by simp
  have "\<forall>i\<in>p_id ` set (publications d'). i < next_publication_id d'"
    unfolding im o(2) using assms(1) by (simp add: ledger_ok_def)
  then have "\<forall>p\<in>set (publications d'). p_id p < next_publication_id d'" by simp
  moreover have "numbering ns d' = numbering ns d" for ns unfolding k key by simp
  ultimately show ?thesis
    using assms(1) o ids key by (simp add: ledger_ok_def namespace_sequence_def recorded_operations_def)
qed

section \<open>Transactions that do not write the ledger\<close>

lemma ledger_updates [simp]:
  "ledger (snd (update_queue P f d)) = ledger d" "ledger (set_hard_stopped_in_txn now b d) = ledger d"
  "ledger (upsert_tombstone_on now p n c t d) = ledger d"
  "ledger (snd (tombstone_and_delete_main_ref_in_txn now p d)) = ledger d"
  "ledger (snd (cas_update_root_main_ref_in_txn ec et nc nt d)) = ledger d"
  by (auto simp: ledger_def update_queue_def set_hard_stopped_in_txn_def upsert_tombstone_on_def
      tombstone_and_delete_main_ref_in_txn_def cas_update_root_main_ref_in_txn_def Let_def split: option.splits)

lemma ledger_marks [simp]:
  "ledger (snd (mark_failed_if_running_in_txn now i fl msg d)) = ledger d"
  "ledger (snd (mark_done_if_running_in_txn now i c d)) = ledger d"
  "ledger (snd (reset_running_to_queued now i d)) = ledger d"
  by (simp_all add: mark_failed_if_running_in_txn_def mark_done_if_running_in_txn_def
      reset_running_to_queued_def case_prod_beta)

text \<open>The ledger after a round is one of the two the round was given.\<close>

definition ledger_kept :: "db \<Rightarrow> db \<Rightarrow> (mega_error + ExecuteOutcome) \<times> db \<Rightarrow> bool" where
  "ledger_kept d0 d res \<longleftrightarrow> ledger (snd res) = ledger d0 \<or> ledger (snd res) = ledger d"

lemma ledger_endings:
  "ledger_kept d0 d (b3_fail_merge now i fl msg d0 d)" "ledger_kept d0 d (terminalize_failure now i fl msg d)"
  "ledger_kept d0 d (b3_bypass now i msg d)" "ledger_kept d0 d (b3_replay_committed_operation now i c d0 d)"
  "ledger_kept d0 d (b3_tombstone_repair_after_savepoint now i p msg d)" "ledger_kept d0 d (b3_hard_stopped now i d)"
  by (simp_all add: ledger_kept_def b3_fail_merge_def terminalize_failure_def b3_bypass_def
      b3_replay_committed_operation_def b3_tombstone_repair_after_savepoint_def b3_hard_stopped_def
      case_prod_beta Let_def)

lemma ledger_ok_kept: "ledger_ok d0 \<Longrightarrow> ledger_ok d \<Longrightarrow> ledger_kept d0 d res \<Longrightarrow> ledger_ok (snd res)"
  unfolding ledger_kept_def using ledger_ok_cong(1) by blast

section \<open>Execution\<close>

definition fresh :: "PreparedPublication option \<Rightarrow> db \<Rightarrow> bool" where
  "fresh pub d \<longleftrightarrow> (\<forall>p. pub = Some p \<longrightarrow> r_operation_id (pp_request p) \<notin> set (recorded_operations d))"

lemma fresh_cong:
  assumes "ledger d' = ledger d" shows "fresh pub d' = fresh pub d"
  using ledger_ok_cong(2) [OF assms] by (simp add: fresh_def)

text \<open>Other sessions and the writers leave the ledger to the round.\<close>

definition ledger_race :: "(db \<Rightarrow> db) \<Rightarrow> bool" where
  "ledger_race race \<longleftrightarrow> (\<forall>d. ledger (race d) = ledger d)"

lemma race_ledger:
  assumes "ledger_race race"
  shows "ledger_ok (race d) = ledger_ok d" "fresh pub (race d) = fresh pub d"
proof -
  have "ledger (race d) = ledger d" using assms by (simp add: ledger_race_def)
  then show "ledger_ok (race d) = ledger_ok d" "fresh pub (race d) = fresh pub d"
    by (rule ledger_ok_cong(1) fresh_cong)+
qed

definition ledger_writer :: "kind_writer \<Rightarrow> bool" where
  "ledger_writer w \<longleftrightarrow> (\<forall>row c t r d. ledger (snd (w row c t r d)) = ledger d)"

definition ledger_push_ctx :: "PushExecContext \<Rightarrow> bool" where
  "ledger_push_ctx ctx \<longleftrightarrow>
     (\<forall>row b r t d l n d'. pc_land ctx row b r t d = Landed l n d' \<longrightarrow> ledger d' = ledger d)
     \<and> (\<forall>d d'. pc_publish_target_paths ctx d = Inr d' \<longrightarrow> ledger d' = ledger d)"

definition ledger_contexts ::
    "kind_writer option \<Rightarrow> MergeExecContext option \<Rightarrow> PushExecContext option \<Rightarrow> bool" where
  "ledger_contexts attach_ctx merge_ctx push_ctx \<longleftrightarrow>
     (\<forall>w. attach_ctx = Some w \<longrightarrow> ledger_writer w)
     \<and> (\<forall>c. merge_ctx = Some c \<longrightarrow> ledger_writer (mc_execute c))
     \<and> (\<forall>c. push_ctx = Some c \<longrightarrow> ledger_push_ctx c)"

lemma ledger_ok_push_noop:
  assumes "ledger_ok d0" "ledger_ok d" "fresh pub d"
  shows "ledger_ok (snd (b3_push_noop x now tx row cc ct root pref pub native d0 d))"
proof -
  let ?d1 = "snd (cas_update_root_main_ref_in_txn cc ct (ref_commit_hash root) (ref_tree_hash root) d)"
  let ?d2 = "snd (mark_done_if_running_in_txn now (q_id row) (ref_commit_hash pref) ?d1)"
  have l: "ledger ?d2 = ledger d" by simp
  have d2: "ledger_ok ?d2" "fresh pub ?d2" using assms(2,3) ledger_ok_cong(1) [OF l] fresh_cong [OF l] by simp_all
  have "ledger_ok d3" if "pub = Some p" "record_noop_operation_in_txn tx p a b c ?d2 = Ok (n, d3)" for p a b c n d3
    using ledger_ok_record_noop [OF d2(1) that(2)] d2(2) that(1) by (simp add: fresh_def)
  then show ?thesis
    using assms(1) d2(1) ledger_ok_kept [OF assms(1,2) ledger_endings(3)]
    by (auto simp: b3_push_noop_def case_prod_beta Let_def bindR_eq_Inr split: sum.splits option.splits)
qed

lemma ledger_ok_push_land:
  assumes "ledger_ok d0" "ledger_ok d" "fresh pub d" "ledger_push_ctx ctx"
  shows "ledger_ok (snd (b3_push_land x now tx ctx row cc root cr tt pub native d0 d))"
proof (cases "pc_land ctx row cr root tt d")
  case (Landed l n d1)
  let ?d2 = "snd (mark_done_if_running_in_txn now (q_id row) l d1)"
  have l: "ledger ?d2 = ledger d" using Landed assms(4) by (simp add: ledger_push_ctx_def)
  have d2: "ledger_ok ?d2" "fresh pub ?d2" using assms(2,3) ledger_ok_cong(1) [OF l] fresh_cong [OF l] by simp_all
  have "ledger_ok d4" if "pub = Some p" "record_publication_in_txn tx p a b ?d2 = Ok (c, d3)"
      "record_native_publication_in_txn x tx np c d3 = Ok d4" for p a b c d3 np d4
    using ledger_ok_record_native [OF ledger_ok_record_publication [OF d2(1) that(2)] that(3)] d2(2) that(1)
    by (simp add: fresh_def)
  moreover have "ledger_ok d4" if "pc_publish_target_paths ctx d3 = Inr d4" "ledger_ok d3" for d3 d4
    using that assms(4) ledger_ok_cong(1) unfolding ledger_push_ctx_def by blast
  ultimately show ?thesis
    using assms(1) d2(1) Landed
    by (auto simp: b3_push_land_def case_prod_beta Let_def bindR_eq_Inr map_err_def
        split: sum.splits option.splits)
qed (use assms(1) ledger_ok_kept [OF assms(1,2)] ledger_endings in \<open>auto simp: b3_push_land_def\<close>)

lemma ledger_ok_execute_push:
  assumes "ledger_ok d0" "ledger_ok d" "fresh pub d" "ledger_push_ctx ctx" "ledger_race race"
  shows "ledger_ok (snd (b3_execute_push x now tx race ctx row cc ct root pub native d0 d))"
proof -
  have race: "ledger_ok (race d0)" "ledger_ok (race d)" "fresh pub (race d)"
    using assms(1-3) race_ledger [OF assms(5)] by simp_all
  have inner: "ledger_ok (snd (b3_execute_push_inner x now tx race ctx row cc ct root pub native d0 d))"
    using assms(1,2) ledger_ok_kept [OF assms(1,2) ledger_endings(1)] ledger_ok_push_noop [OF race]
      ledger_ok_push_land [OF race assms(4)]
    by (auto simp: b3_execute_push_inner_def split: sum.splits option.splits prod.splits bool.splits)
  show ?thesis
    using inner ledger_ok_kept [OF inner inner ledger_endings(2)]
    by (auto simp: b3_execute_push_def split: prod.splits sum.splits)
qed

lemma ledger_ok_stub:
  assumes "ledger_ok d0" "ledger_ok d" "fresh pub d" "ledger_race race"
  shows "ledger_ok (snd (b3_stub now tx race req cc ct root pub d0 d))"
proof -
  have race: "ledger_ok (race d0)" "ledger_ok (race d)" "fresh pub (race d)"
    using assms(1-3) race_ledger [OF assms(4)] by simp_all
  define d2 where "d2 = snd (mark_done_if_running_in_txn now (ex_id req) (kind_root_commit req cc)
     (snd (cas_update_root_main_ref_in_txn cc ct (kind_root_commit req cc) (kind_root_tree req ct) (race d))))"
  have l: "ledger d2 = ledger (race d)" by (simp add: d2_def)
  have d2: "ledger_ok d2" "fresh pub d2" using race ledger_ok_cong(1) [OF l] fresh_cong [OF l] by simp_all
  have "ledger_ok d3" if "pub = Some p" "record_publication_in_txn tx p a b d2 = Ok (c, d3)" for p a b c d3
    using ledger_ok_record_publication [OF d2(1) that(2)] d2(2) that(1) by (simp add: fresh_def)
  moreover have "ledger_ok (snd (mark_failed_if_running_in_txn now i fl m d))" for i fl m
    using assms(2) ledger_ok_cong(1) [of "snd (mark_failed_if_running_in_txn now i fl m d)" d] by simp
  ultimately show ?thesis
    using race(1) d2(1) ledger_ok_kept [OF race(1,2) ledger_endings(3)]
    by (auto simp: b3_stub_def case_prod_beta Let_def d2_def [symmetric] split: sum.splits option.splits)
qed

lemma ledger_ok_dispatch:
  assumes "ledger_ok d0" "ledger_ok d" "fresh pub d" "ledger_race race" "ledger_contexts actx mctx pctx"
  shows "ledger_ok (snd (b3_dispatch x now tx race req actx mctx pctx row cc ct root pub native d0 d))"
proof -
  have w: "ledger_ok (snd (w row a b c (race d)))" if "ledger_writer w" for w a b c
  proof -
    have "ledger (snd (w row a b c (race d))) = ledger (race d)" using that by (simp add: ledger_writer_def)
    then show ?thesis using ledger_ok_cong(1) race_ledger(1) [OF assms(4)] assms(2) by blast
  qed
  have p: "ledger_ok (snd (b3_execute_push x now tx race ctx row cc ct root pub native d0 d))"
    if "pctx = Some ctx" for ctx
    using assms that by (intro ledger_ok_execute_push) (auto simp: ledger_contexts_def)
  note e = ledger_ok_kept [OF assms(1,1) ledger_endings(2)] ledger_ok_kept [OF assms(1,2) ledger_endings(5)]
  show ?thesis
    using assms(1,5) w p e ledger_ok_stub [OF assms(1-4)]
    by (auto simp: b3_dispatch_def ledger_contexts_def split: PushQueueKind.splits option.splits sum.splits)
qed

lemma ledger_ok_begin_pub:
  assumes "ledger_ok d"
  shows "b3_begin_publication x now tx mctx pctx row d = Inl res \<Longrightarrow> ledger_ok (snd res)"
    and "b3_begin_publication x now tx mctx pctx row d = Inr (pub, d1) \<Longrightarrow> ledger_ok d1 \<and> fresh pub d1"
proof -
  have b: "ledger_ok d'" if "begin_publication_in_txn x tx request d = (r, d')" for request r d'
    using ledger_ok_begin(1) [OF assms that] .
  have f: "fresh (Some p) d'" if "begin_publication_in_txn x tx request d = (Ok (Prepared p), d')" for request p d'
    using ledger_ok_begin(2) [OF assms that] by (simp add: fresh_def)
  have k: "ledger_ok (snd (b3_fail_merge now i fl msg d d'))" "ledger_ok (snd (b3_replay_committed_operation now i c d d'))"
    if "ledger_ok d'" for d' i fl msg c
    by (rule ledger_ok_kept [OF assms that] ledger_endings)+
  show "b3_begin_publication x now tx mctx pctx row d = Inl res \<Longrightarrow> ledger_ok (snd res)"
    using assms k b
    by (auto simp: b3_begin_publication_def split: option.splits if_splits sum.splits prod.splits
        PublicationPreparation.splits PublicationReceiptError.splits)
  show "b3_begin_publication x now tx mctx pctx row d = Inr (pub, d1) \<Longrightarrow> ledger_ok d1 \<and> fresh pub d1"
    using assms b f
    by (auto simp: b3_begin_publication_def fresh_def split: option.splits if_splits sum.splits prod.splits
        PublicationPreparation.splits PublicationReceiptError.splits)
qed

lemma ledger_ok_reserve:
  assumes "ledger_ok d0" "ledger_ok d" "b3_reserve_native x now tx pctx row pub d0 d = Inl res"
  shows "ledger_ok (snd res)"
  using assms(1,3) ledger_ok_kept [OF assms(1,2) ledger_endings(1)]
  by (auto simp: b3_reserve_native_def split: sum.splits option.splits if_splits
      PublicationReceiptError.splits)

lemma ledger_ok_with_baseline:
  assumes "ledger_ok d0" "ledger_ok d" "fresh pub d" "ledger_race race" "ledger_contexts actx mctx pctx"
  shows "ledger_ok (snd (b3_with_baseline x now tx race req actx mctx pctx row pub d0 d))"
  using assms(1) ledger_ok_kept [OF assms(1,2) ledger_endings(3)] ledger_ok_kept [OF assms(1,2) ledger_endings(1)]
    ledger_ok_dispatch [OF assms] ledger_ok_reserve [OF assms(1,2)]
  by (auto simp: b3_with_baseline_def Let_def split: sum.splits)

lemma ledger_ok_execute_b3:
  assumes "ledger_ok d" "ledger_race race" "ledger_contexts actx mctx pctx"
  shows "ledger_ok (snd (execute_b3 x now tx race req actx mctx pctx d))"
  using assms(1) ledger_ok_kept [OF assms(1,1) ledger_endings(6)] ledger_ok_begin_pub [OF assms(1)]
    ledger_ok_with_baseline [OF assms(1) _ _ assms(2,3)]
  by (auto simp: execute_b3_def split: option.splits sum.splits bool.splits prod.splits)

section \<open>The ledger as a transition system\<close>

definition ledger_init :: "db \<Rightarrow> bool" where
  "ledger_init d \<longleftrightarrow> namespace_seq d = [] \<and> publications d = [] \<and> publication_outbox d = [] \<and> noop_receipts d = []"

text \<open>Only a round writes the ledger; the last rule is every other transaction.\<close>

inductive ledger_step :: "db \<Rightarrow> db \<Rightarrow> bool" where
  ledger_execute: "ledger_race race \<Longrightarrow> ledger_contexts actx mctx pctx \<Longrightarrow>
    ledger_step d (snd (execute_b3 x now tx race req actx mctx pctx d))"
| ledger_other: "ledger d' = ledger d \<Longrightarrow> ledger_step d d'"

interpretation ledger_ts: transition_system ledger_init ledger_step ledger_ok
proof
  show "ledger_ok d" if "ledger_init d" for d
    using that by (simp add: ledger_init_def ledger_ok_def numbering_def namespace_sequence_def recorded_operations_def)
  show "ledger_ok d'" if "ledger_step d d'" "ledger_ok d" for d d'
    using that(1)
  proof cases
    case ledger_execute
    then show ?thesis using ledger_ok_execute_b3 [OF that(2)] by simp
  next
    case ledger_other
    then show ?thesis using ledger_ok_cong(1) [of d' d] that(2) by simp
  qed
qed

end
