(* ===== verification/Queue_Properties.thy ===== *)
theory Queue_Properties
  imports Queue_Steps
begin

text \<open>
  Properties of the queue: the reachable states, claims, admission and execution. The witnesses run
  the model on a freshly migrated database.
\<close>

section \<open>A migrated database\<close>

definition SEED_QUEUE_CONTROL :: "int \<Rightarrow> queue_control" where
  "SEED_QUEUE_CONTROL now = \<lparr>c_paused = False, c_hard_stopped = False, c_last_policy = lit ''review'',
     c_max_depth = 64, c_published_version = 0, c_updated_at = now\<rparr>"

definition seeded_db :: db where
  "seeded_db = \<lparr>push_queue = [], next_push_id = 1, control = Some (SEED_QUEUE_CONTROL 0), refs = [],
     tombstones = [], trees = [], commits = [], blob_paths = [], authz_outbox = [],
     namespace_seq = [], publications = [], next_publication_id = 1, publication_outbox = [],
     noop_receipts = [], native_head = None, native_publications = []\<rparr>"

definition sample_ext :: ext where
  "sample_ext = \<lparr>x_sha256_hex = (\<lambda>bytes. bytes), x_validate_scope = (\<lambda>_. Ok ()), x_uuid = Some,
     x_uuid_nil = (\<lambda>_. False), x_valid_oid = (\<lambda>_. True)\<rparr>"

definition sample_params :: EnqueueParams where
  "sample_params = \<lparr>e_kind = Push, e_operation_id = push_operation_id (lit ''b'') (lit ''b''),
     e_path = lit ''/project/p'', e_old_id = lit ''b'', e_new_id = lit ''b'', e_requester = None,
     e_payload = JObject [(lit ''commits'', JArray []), (lit ''n'', JNumber (PosInt 0))]\<rparr>"

definition main_ref :: "int \<Rightarrow> rstr \<Rightarrow> rstr \<Rightarrow> rstr \<Rightarrow> ref_row" where
  "main_ref i path commit tree = \<lparr>ref_id = i, ref_path = path, ref_name = MEGA_BRANCH_NAME,
     ref_commit_hash = commit, ref_tree_hash = tree, ref_is_cl = False\<rparr>"

text \<open>A root, a project below it and one queued net-zero push.\<close>

definition sample_db :: db where
  "sample_db = snd (enqueue_atomic sample_ext 10 id id id sample_params
     (seeded_db\<lparr>refs := [main_ref 1 (lit ''/'') (lit ''r'') (lit ''t0''),
        main_ref 2 (lit ''/project/p'') (lit ''b'') (lit ''t2'')],
      trees := [(lit ''t0'', [\<lparr>ti_name = lit ''project'', ti_is_tree = True, ti_id = lit ''t1''\<rparr>]),
        (lit ''t1'', [\<lparr>ti_name = lit ''p'', ti_is_tree = True, ti_id = lit ''t2''\<rparr>]),
        (lit ''t2'', [])]\<rparr>))"

lemma keeps_queue_id [simp, intro]: "keeps_queue id"
  by (simp add: keeps_queue_def)

lemma queue_init_seeded [simp]: "queue_init seeded_db"
  by (simp add: queue_init_def seeded_db_def)

lemma queue_ok_sample [simp, intro]: "queue_ok sample_db"
  unfolding sample_db_def
  by (intro queue_ok_enqueue_atomic keeps_queue_id)
    (simp add: seeded_db_def queue_ok_def queue_inv_def unique_by_def)

lemmas enqueue_eval = enqueue_atomic_def conditional_insert_def insert_admitted_def
  count_non_terminal_def insert_push_row_def violates_active_push_path_def
  violates_operation_states_def pred_payload_def latest_def

lemma sample_db_sel [simp]:
  "push_queue sample_db = [new_row 10 1 sample_params (e_payload sample_params)]"
  "next_push_id sample_db = 2"
  "control sample_db = Some (SEED_QUEUE_CONTROL 0)"
  "refs sample_db = [main_ref 1 (lit ''/'') (lit ''r'') (lit ''t0''),
     main_ref 2 (lit ''/project/p'') (lit ''b'') (lit ''t2'')]"
  "trees sample_db = [(lit ''t0'', [\<lparr>ti_name = lit ''project'', ti_is_tree = True, ti_id = lit ''t1''\<rparr>]),
     (lit ''t1'', [\<lparr>ti_name = lit ''p'', ti_is_tree = True, ti_id = lit ''t2''\<rparr>]), (lit ''t2'', [])]"
  "tombstones sample_db = []"
  by (simp_all add: sample_db_def enqueue_eval seeded_db_def SEED_QUEUE_CONTROL_def)

section \<open>Reachable states\<close>

lemma distinct_filter_by:
  assumes "sorted_wrt (<) (map q_id rows)" "unique_by P k rows"
  shows "distinct (map k (filter P rows))"
proof -
  have "inj_on q_id (set rows)" using assms(1) by (simp add: strict_sorted_iff distinct_map)
  then have "inj_on k {r \<in> set rows. P r}"
    using assms(2) unfolding unique_by_def inj_on_def by blast
  moreover have "distinct rows" using assms(1) by (simp add: strict_sorted_iff distinct_map)
  ultimately show ?thesis by (simp add: distinct_map)
qed

lemma queue_ok_lists:
  assumes "queue_ok d"
  shows "length (filter running (push_queue d)) \<le> 1"
    and "distinct (map q_path (filter active_push (push_queue d)))"
    and "distinct (map op_key (filter op_state (push_queue d)))"
    and "sorted_wrt (<) (map q_id (push_queue d))"
    and "r \<in> set (push_queue d) \<Longrightarrow> row_ok r \<and> successor_ok (push_queue d) r"
proof -
  note inv = assms [unfolded queue_ok_def queue_inv_def]
  show s: "sorted_wrt (<) (map q_id (push_queue d))" using inv by blast
  show "distinct (map q_path (filter active_push (push_queue d)))"
    "distinct (map op_key (filter op_state (push_queue d)))"
    using distinct_filter_by [OF s] inv by blast+
  show "r \<in> set (push_queue d) \<Longrightarrow> row_ok r \<and> successor_ok (push_queue d) r" using inv by blast
  have "distinct (map (\<lambda>_. ()) (filter running (push_queue d)))" using distinct_filter_by [OF s] inv by blast
  then show "length (filter running (push_queue d)) \<le> 1"
    by (cases "filter running (push_queue d)" rule: remdups_adj.cases) auto
qed

text \<open>C1: In every state that the transactions of the queue can reach from a migrated database: ids
  grow with insertion; at most one row is Running; at most one active push per path; at most one
  Queued, Running or Done row per operation; a row that is not claimed has no root baseline, a row
  is finished exactly when it is neither Queued nor Running, a row has a landed commit exactly
  when it is Done, and a superseded row is Cancelled and points to a later row of the same
  operation.\<close>

theorem queue_reachable:
  assumes "queue_init d0" "queue_step\<^sup>*\<^sup>* d0 d"
  shows "sorted_wrt (<) (map q_id (push_queue d))
     \<and> length (filter running (push_queue d)) \<le> 1
     \<and> distinct (map q_path (filter active_push (push_queue d)))
     \<and> distinct (map op_key (filter op_state (push_queue d)))
     \<and> (\<forall>r\<in>set (push_queue d). row_ok r \<and> successor_ok (push_queue d) r)"
  using queue_ok_lists [OF queue_ts.reachable_inv [OF assms]] by blast

lemma sample_reachable: "queue_step\<^sup>*\<^sup>* seeded_db sample_db"
proof -
  let ?d = "seeded_db\<lparr>refs := [main_ref 1 (lit ''/'') (lit ''r'') (lit ''t0''),
        main_ref 2 (lit ''/project/p'') (lit ''b'') (lit ''t2'')],
      trees := [(lit ''t0'', [\<lparr>ti_name = lit ''project'', ti_is_tree = True, ti_id = lit ''t1''\<rparr>]),
        (lit ''t1'', [\<lparr>ti_name = lit ''p'', ti_is_tree = True, ti_id = lit ''t2''\<rparr>]),
        (lit ''t2'', [])]\<rparr>"
  have "queue_step seeded_db ?d" by (rule step_other) simp_all
  moreover have "queue_step ?d sample_db" unfolding sample_db_def by (rule step_enqueue) simp_all
  ultimately show ?thesis by (rule rtranclp.rtrancl_into_rtrancl [OF r_into_rtranclp])
qed

theorem queue_reachable_witness:
  "push_queue sample_db \<noteq> [] \<and> length (filter running (push_queue sample_db)) \<le> 1"
proof
  show "push_queue sample_db \<noteq> []" by simp
  show "length (filter running (push_queue sample_db)) \<le> 1"
    using queue_reachable [OF queue_init_seeded sample_reachable] by blast
qed

section \<open>Claims\<close>

lemma fold_min_eq: "fold min xs (y :: int) = i \<longleftrightarrow> i \<in> set (y # xs) \<and> (\<forall>z\<in>set (y # xs). i \<le> z)"
proof -
  have "fold min xs y = Min (set (y # xs))" by (metis Min.set_eq_fold)
  then show ?thesis using Min_eq_iff [of "set (y # xs)" i] by (simp add: eq_commute [of i])
qed

lemma min_queued_Some:
  "min_queued d = Some i \<longleftrightarrow> (\<exists>r\<in>set (push_queue d). q_id r = i \<and> q_status r = Queued)
     \<and> (\<forall>r\<in>set (push_queue d). q_status r = Queued \<longrightarrow> i \<le> q_id r)"
proof (cases "map q_id (filter (\<lambda>r. q_status r = Queued) (push_queue d))")
  case (Cons y ys)
  have "set (y # ys) = q_id ` {r \<in> set (push_queue d). q_status r = Queued}"
    by (simp flip: Cons)
  then show ?thesis using Cons fold_min_eq [of ys y i] by (auto simp: min_queued_def)
qed (auto simp: min_queued_def filter_empty_conv)

text \<open>The head of the queue: the oldest Queued row when nothing runs.\<close>

definition at_head :: "int \<Rightarrow> db \<Rightarrow> bool" where
  "at_head i d \<longleftrightarrow> (\<exists>r\<in>set (push_queue d). q_id r = i \<and> q_status r = Queued)
     \<and> (\<forall>r\<in>set (push_queue d). q_status r \<noteq> Running \<and> (q_status r = Queued \<longrightarrow> i \<le> q_id r))"

lemma claimable_at_head: "list_ex (claimable i d) (push_queue d) \<longleftrightarrow> at_head i d"
  by (auto simp: list_ex_iff claimable_def min_queued_Some at_head_def)

lemma claim_result:
  assumes "control d = Some c"
  shows "claim_for_execution x False now i d =
     (if c_hard_stopped c then (Ok ClaimHardStopped, d)
      else if at_head i d then (Ok Claimed, d\<lparr>push_queue :=
        update_where (claimable i d) (claim_row now False d) (push_queue d)\<rparr>)
      else (Ok Missed, d))"
  using assms by (simp add: claim_for_execution_def claimable_at_head Let_def)

lemma claim_row_sel [simp]:
  "q_id (claim_row now b d r) = q_id r" "q_status (claim_row now b d r) = Running"
  by (simp_all add: claim_row_def Let_def)

lemma find_claim_other:
  "j \<noteq> i \<Longrightarrow> find (\<lambda>r. q_id r = j) (update_where (claimable i d) (claim_row now b d) rows)
     = find (\<lambda>r. q_id r = j) rows"
  by (induction rows) (auto simp: update_where_def claimable_def)

lemma claimed_state:
  assumes "queue_ok d" "control d = Some c" "\<not> c_hard_stopped c" "at_head i d"
    "claim_for_execution x False now i d = (res, d')"
  obtains r where "find_push i d = Some r" "q_status r = Queued" "find_push i d' = Some (claim_row now False d r)"
    and "\<And>j. j \<noteq> i \<Longrightarrow> find_push j d' = find_push j d"
    and "\<And>s. s \<in> set (push_queue d') \<Longrightarrow> q_id s < i \<Longrightarrow> \<not> is_active s"
    and "d' = d\<lparr>push_queue := update_where (claimable i d) (claim_row now False d) (push_queue d)\<rparr>"
proof -
  have d': "d' = d\<lparr>push_queue := update_where (claimable i d) (claim_row now False d) (push_queue d)\<rparr>"
    using claim_result [OF assms(2), of x now i] assms(3-5) by simp
  have ok: "queue_ok d'" using queue_ok_claim [OF assms(1), of x False now i] assms(5) by simp
  obtain r where r: "r \<in> set (push_queue d)" "claimable i d r"
    using assms(4) claimable_at_head by (auto simp: list_ex_iff)
  have "claim_row now False d r \<in> set (push_queue d')" "q_id (claim_row now False d r) = i"
    using r by (auto simp: d' in_update_where claimable_def)
  then have f: "find_push i d' = Some (claim_row now False d r)"
    using find_push_row [OF ok, of "claim_row now False d r"] by simp
  have a: "\<not> is_active s" if s: "s \<in> set (push_queue d')" "q_id s < i" for s
  proof -
    obtain u where u: "u \<in> set (push_queue d)" "s = (if claimable i d u then claim_row now False d u else u)"
      using s(1) by (auto simp: d' in_update_where)
    have "\<not> claimable i d u" using u(2) s(2) by (cases "claimable i d u") (simp_all add: claimable_def)
    then show ?thesis
      using assms(4) u s(2) by (auto simp: at_head_def is_active_def active_status_def)
  qed
  have r': "find_push i d = Some r" "q_status r = Queued"
    using find_push_row [OF assms(1) r(1)] r(2) by (auto simp: claimable_def)
  have o: "find_push j d' = find_push j d" if "j \<noteq> i" for j
    using find_claim_other [OF that] by (simp add: d' find_push_def)
  show thesis by (rule that [OF r' f o a d'])
qed



end
