(* ===== verification/Admission_Properties.thy ===== *)
theory Admission_Properties
  imports Queue_Properties
begin

text \<open>
  Admission (B1): an abstract decision table that \<open>enqueue_atomic\<close> implements, the classification of
  races with ending rows, and the depth bound.
\<close>

section \<open>The decision table\<close>

datatype admission = Existing push_row | Refuse EnqueueRejectReason | Admit json

definition admission :: "EnqueueParams \<Rightarrow> queue_control \<Rightarrow> db \<Rightarrow> admission" where
  "admission p c d =
     (case find_op_state (e_kind p) (e_path p) (e_operation_id p) d of
        Some r \<Rightarrow> Existing r
      | None \<Rightarrow>
          if c_hard_stopped c then Refuse HardStoppedReason
          else if c_paused c then Refuse Paused
          else if count_non_terminal d \<ge> c_max_depth c then Refuse (CapacityExceeded (c_max_depth c))
          else if e_kind p = Push \<and> (\<exists>r\<in>set (push_queue d). active_push r \<and> q_path r = e_path p)
            then Refuse ActivePushPathConflict
          else Admit (case pred_payload p d of None \<Rightarrow> e_payload p | Some payload \<Rightarrow> payload))"

lemma find_op_state_None:
  "find_op_state k pth op d = None \<longleftrightarrow>
     \<not> list_ex (\<lambda>r. same_operation k pth op r \<and> op_state r) (push_queue d)"
  by (auto simp: find_op_state_def find_None_iff list_ex_iff)

lemma find_op_state_Some:
  "find_op_state k pth op d = Some r \<Longrightarrow> r \<in> set (push_queue d) \<and> op_key r = (k, pth, op) \<and> op_state r"
  by (auto simp: find_op_state_def find_Some_iff same_operation_key)

lemma active_new_row [simp]:
  "is_active (new_row now i p payload)" "op_state (new_row now i p payload)"
  by (simp_all add: is_active_def active_status_def op_state_def)

lemma violates_new_row:
  "violates_active_push_path (new_row now i p payload) d \<longleftrightarrow>
     e_kind p = Push \<and> (\<exists>r\<in>set (push_queue d). active_push r \<and> q_path r = e_path p)"
  "violates_operation_states (new_row now i p payload) d \<longleftrightarrow>
     find_op_state (e_kind p) (e_path p) (e_operation_id p) d \<noteq> None"
  by (auto simp: violates_active_push_path_def violates_operation_states_def list_ex_iff
      active_push_def find_op_state_None)

lemma insert_admitted_iff:
  "control d = Some c \<Longrightarrow> insert_admitted p d \<longleftrightarrow> \<not> c_paused c \<and> \<not> c_hard_stopped c
     \<and> count_non_terminal d < c_max_depth c
     \<and> find_op_state (e_kind p) (e_path p) (e_operation_id p) d = None"
  by (simp add: insert_admitted_def find_op_state_None)

lemma finish_existing:
  assumes "r \<in> set (push_queue d)" "queue_ok d"
  shows "finish_classified x p (existing_outcome r) d
     = bindR (check_replay x p d r) (\<lambda>_. Ok (existing_outcome r))"
  using find_push_row [OF assms(2,1)]
  by (auto simp: finish_classified_def existing_outcome_def Let_def)

lemma classify_admission:
  assumes "control d = Some c"
  shows "classify_zero_row (e_kind p) (e_operation_id p) (e_path p) d =
     Ok (case admission p c d of Existing r \<Rightarrow> Some (existing_outcome r)
       | Refuse reason \<Rightarrow> Some (Rejected reason) | Admit _ \<Rightarrow> None)"
  using assms
  by (auto simp: classify_zero_row_def admission_def list_ex_iff active_push_def split: option.splits)

lemma insert_admission:
  assumes "control d = Some c"
  shows "conditional_insert now p d =
     (case admission p c d of
        Admit payload \<Rightarrow> Row (next_push_id d) (d\<lparr>next_push_id := next_push_id d + 1,
          push_queue := push_queue d @ [new_row now (next_push_id d) p payload]\<rparr>)
      | Refuse ActivePushPathConflict \<Rightarrow> ViolatesActivePushPath (d\<lparr>next_push_id := next_push_id d + 1\<rparr>)
      | _ \<Rightarrow> ZeroRows)"
  using insert_admitted_iff [OF assms, of p]
  by (auto simp: conditional_insert_def admission_def insert_push_row_def violates_new_row Let_def
      split: option.splits)

text \<open>C8: Without interference from other sessions, \<open>enqueue_atomic\<close> implements the decision table: a
  row of the same operation that is Queued, Running or Done is returned (after the audit of its
  receipt) even when the queue is stopped, paused or full; otherwise hard stop, pause, capacity and
  an active push on the path refuse in this order; otherwise exactly one row is appended, with the
  payload of the latest failed or cancelled attempt when there is one.\<close>

theorem enqueue_implements_admission:
  assumes "queue_ok d" "control d = Some c"
  shows "enqueue_atomic x now id id id p d =
     (case admission p c d of
        Existing r \<Rightarrow> (bindR (check_replay x p d r) (\<lambda>_. Ok (existing_outcome r)), d)
      | Refuse reason \<Rightarrow> (Ok (Rejected reason),
          if reason = ActivePushPathConflict then d\<lparr>next_push_id := next_push_id d + 1\<rparr> else d)
      | Admit payload \<Rightarrow> (Ok (Inserted (next_push_id d)), d\<lparr>next_push_id := next_push_id d + 1,
          push_queue := push_queue d @ [new_row now (next_push_id d) p payload]\<rparr>))"
proof -
  have ex: "r \<in> set (push_queue d)" if "admission p c d = Existing r" for r
    using that find_op_state_Some by (auto simp: admission_def split: option.splits if_splits)
  show ?thesis
    using insert_admission [OF assms(2), of now p] classify_admission [OF assms(2), of p]
      finish_existing [OF ex assms(1), of _ x p]
    by (auto simp: enqueue_atomic_def finish_classified_def
        split: admission.splits EnqueueRejectReason.splits)
qed

theorem enqueue_implements_admission_witness:
  "enqueue_atomic sample_ext 30 id id id sample_params sample_db = (Ok (Adopted 1), sample_db)"
proof -
  have "find_op_state (e_kind sample_params) (e_path sample_params) (e_operation_id sample_params) sample_db
      = Some (new_row 10 1 sample_params (e_payload sample_params))"
    by (simp add: find_op_state_def same_operation_def)
  moreover have "check_replay sample_ext sample_params sample_db (new_row 10 1 sample_params (e_payload sample_params)) = Ok ()"
    by (simp add: check_replay_def validate_queue_publication_replay_in_txn_def find_committed_operation_def
        reject_legacy_queue_receipt_def sample_db_def enqueue_eval seeded_db_def SEED_QUEUE_CONTROL_def)
  ultimately show ?thesis
    using enqueue_implements_admission [of sample_db "SEED_QUEUE_CONTROL 0" sample_ext 30 sample_params]
    by (simp add: admission_def existing_outcome_def queue_ok_sample)
qed

section \<open>Races with ending rows\<close>

text \<open>What other sessions can do while the admission lock is held: rows end, none is added, and the
  control row stays.\<close>

definition ends_rows :: "db \<Rightarrow> db \<Rightarrow> bool" where
  "ends_rows d d' \<longleftrightarrow> control d' = control d \<and> count_non_terminal d' \<le> count_non_terminal d
     \<and> (\<forall>r'\<in>set (push_queue d'). \<exists>r\<in>set (push_queue d). op_key r' = op_key r
          \<and> (is_active r' \<longrightarrow> is_active r) \<and> (op_state r' \<longrightarrow> op_state r))"

definition only_ends_rows :: "(db \<Rightarrow> db) \<Rightarrow> bool" where
  "only_ends_rows race \<longleftrightarrow> (\<forall>d. ends_rows d (race d))"

lemma count_update_le:
  assumes "\<And>r. P r \<Longrightarrow> is_active (f r) \<Longrightarrow> is_active r"
  shows "length (filter is_active (update_where P f rows)) \<le> length (filter is_active rows)"
  using assms by (induction rows) (auto simp: update_where_def)

lemma only_ends_rows_update:
  assumes "shrinking P f" "\<And>r. P r \<Longrightarrow> is_active (f r) \<Longrightarrow> is_active r"
  shows "only_ends_rows (\<lambda>d. snd (update_queue P f d))"
proof -
  have "ends_rows d (snd (update_queue P f d))" for d
  proof -
    have "\<exists>r\<in>set (push_queue d). op_key r' = op_key r \<and> (is_active r' \<longrightarrow> is_active r) \<and> (op_state r' \<longrightarrow> op_state r)"
      if r': "r' \<in> set (update_where P f (push_queue d))" for r'
    proof -
      obtain r where "r \<in> set (push_queue d)" "r' = (if P r then f r else r)"
        using r' by (auto simp: in_update_where)
      then show ?thesis
        using assms by (intro bexI [of _ r]) (auto simp: shrinking_def identity_kept_def)
    qed
    then show ?thesis
      using count_update_le [of P f "push_queue d"] assms(2)
      by (simp add: ends_rows_def count_non_terminal_def update_queue_def)
  qed
  then show ?thesis by (simp add: only_ends_rows_def)
qed

lemma admission_Admit_mono:
  assumes "admission p c d = Admit payload" "ends_rows d d'"
  shows "\<exists>payload'. admission p c d' = Admit payload'"
proof -
  let ?k = "(e_kind p, e_path p, e_operation_id p)"
  have a: "\<not> (\<exists>r\<in>set (push_queue d). op_key r = ?k \<and> op_state r)"
      "\<not> c_hard_stopped c" "\<not> c_paused c" "count_non_terminal d < c_max_depth c"
      "\<not> (e_kind p = Push \<and> (\<exists>r\<in>set (push_queue d). active_push r \<and> q_path r = e_path p))"
    using assms(1) find_op_state_None [of "e_kind p" "e_path p" "e_operation_id p" d]
    by (auto simp: admission_def same_operation_key list_ex_iff split: option.splits if_splits)
  have "\<not> (\<exists>r\<in>set (push_queue d'). op_key r = ?k \<and> op_state r)"
    using a(1) assms(2) unfolding ends_rows_def by metis
  moreover have "count_non_terminal d' < c_max_depth c" using a(4) assms(2) by (simp add: ends_rows_def)
  moreover have "\<not> (e_kind p = Push \<and> (\<exists>r\<in>set (push_queue d'). active_push r \<and> q_path r = e_path p))"
    using a(5) assms(2) by (fastforce simp: ends_rows_def active_push_def op_key_def)
  ultimately show ?thesis
    using a(2,3) find_op_state_None [of "e_kind p" "e_path p" "e_operation_id p" d']
    by (auto simp: admission_def same_operation_key list_ex_iff)
qed

lemma find_push_exists:
  assumes "r \<in> set (push_queue d)" shows "\<exists>s\<in>set (push_queue d). find_push (q_id r) d = Some s"
proof (cases "find_push (q_id r) d")
  case (Some s)
  then show ?thesis using find_push_Some [OF Some] by blast
qed (use assms in \<open>auto simp: find_push_def find_None_iff\<close>)

lemma finish_classified_cases:
  assumes "control d = Some c" "classify_zero_row (e_kind p) (e_operation_id p) (e_path p) d = Ok (Some outcome)"
    "finish_classified x p outcome d = Inl e"
  shows "\<exists>r\<in>set (push_queue d). check_replay x p d r = Inl e"
proof (cases "admission p c d")
  case (Existing r)
  then have o: "outcome = existing_outcome r" "r \<in> set (push_queue d)"
    using classify_admission [OF assms(1), of p] assms(2) find_op_state_Some
    by (auto simp: admission_def split: option.splits if_splits)
  obtain s where s: "s \<in> set (push_queue d)" "find_push (q_id r) d = Some s"
    using find_push_exists [OF o(2)] by blast
  have "finish_classified x p outcome d = bindR (check_replay x p d s) (\<lambda>_. Ok outcome)"
    by (cases "q_status r = Done") (simp_all add: o(1) finish_classified_def existing_outcome_def s(2) Let_def)
  then have "bindR (check_replay x p d s) (\<lambda>_. Ok outcome) = Inl e" using assms(3) by simp
  then show ?thesis using s(1) by (auto simp: bindR_eq_Inl)
qed (use classify_admission [OF assms(1), of p] assms(2,3) in \<open>auto simp: finish_classified_def\<close>)

text \<open>C14: Enqueuing always gets a definite answer. When rows end between the statements of the
  transaction, the second conditional insertion succeeds whenever it is reached, so the only error
  that a present control row leaves is a failed audit of an existing row's receipt.\<close>

theorem enqueue_always_classified:
  assumes "control d = Some c" "only_ends_rows race1" "only_ends_rows race2" "only_ends_rows race3"
  shows "(\<exists>outcome. fst (enqueue_atomic x now race1 race2 race3 p d) = Ok outcome)
     \<or> (\<exists>r\<in>set (push_queue (race1 d)).
          \<exists>e. check_replay x p (race1 d) r = Err e
            \<and> fst (enqueue_atomic x now race1 race2 race3 p d) = Err e)"
proof -
  let ?d1 = "race1 d" and ?d2 = "race2 (race1 d)"
  have c: "control ?d1 = Some c" "control ?d2 = Some c" and e2: "ends_rows ?d1 ?d2"
    using assms by (auto simp: only_ends_rows_def ends_rows_def)
  have ins: "conditional_insert now p d = ZeroRows \<or> (\<exists>i d'. conditional_insert now p d = Row i d')
      \<or> (\<exists>d'. conditional_insert now p d = ViolatesActivePushPath d')"
    using insert_admission [OF assms(1), of now p]
    by (auto split: admission.splits EnqueueRejectReason.splits)
  show ?thesis
  proof (cases "admission p c ?d1")
    case (Admit payload)
    obtain payload' where "admission p c ?d2 = Admit payload'"
      using admission_Admit_mono [OF Admit e2] by blast
    then have "\<exists>i d'. conditional_insert now p ?d2 = Row i d'"
      using insert_admission [OF c(2), of now p] by auto
    then show ?thesis
      using ins classify_admission [OF c(1), of p] Admit
      by (auto simp: enqueue_atomic_def enqueue_retry_def)
  next
    case (Existing r)
    then show ?thesis
      using ins classify_admission [OF c(1), of p] finish_classified_cases [OF c(1), of p _ x]
      by (cases "finish_classified x p (existing_outcome r) ?d1") (auto simp: enqueue_atomic_def)
  next
    case (Refuse reason)
    then show ?thesis
      using ins classify_admission [OF c(1), of p] by (auto simp: enqueue_atomic_def finish_classified_def)
  qed
qed

lemma no_receipts_replay:
  "publications d = [] \<Longrightarrow> noop_receipts d = [] \<Longrightarrow> check_replay x p d r = Ok ()"
  by (simp add: check_replay_def validate_queue_publication_replay_in_txn_def find_committed_operation_def
      reject_legacy_queue_receipt_def)

lemma only_ends_rows_cancel: "only_ends_rows (\<lambda>d. snd (cancel_if_queued now i d))"
  using only_ends_rows_update [OF shrinking_finish [of Cancelled "\<lambda>r. q_id r = i \<and> q_status r = Queued"]]
  by (simp add: cancel_if_queued_def case_prod_beta is_active_def active_status_def)

lemma only_ends_rows_id [simp]: "only_ends_rows id"
  by (auto simp: only_ends_rows_def ends_rows_def)

text \<open>The queued row of the sample is cancelled by an operator during the transaction.\<close>

theorem enqueue_always_classified_witness:
  "\<exists>outcome. fst (enqueue_atomic sample_ext 30 (\<lambda>d. snd (cancel_if_queued 20 1 d)) id id sample_params sample_db)
     = Ok outcome"
proof -
  have "check_replay sample_ext sample_params (snd (cancel_if_queued 20 1 sample_db)) r = Ok ()" for r
    by (rule no_receipts_replay)
      (simp_all add: cancel_if_queued_def update_queue_def sample_db_def enqueue_eval seeded_db_def
        SEED_QUEUE_CONTROL_def)
  then show ?thesis
    using enqueue_always_classified [OF _ only_ends_rows_cancel only_ends_rows_id only_ends_rows_id,
        of sample_db "SEED_QUEUE_CONTROL 0" sample_ext 30 20 1 sample_params]
    by simp
qed

section \<open>Depth\<close>

lemma count_insert:
  assumes "conditional_insert now p d = Row i d'"
  shows "count_non_terminal d' = count_non_terminal d + 1" "insert_admitted p d"
  using assms by (auto simp: conditional_insert_def insert_push_row_def count_non_terminal_def Let_def
      split: if_splits option.splits)

lemma count_violation:
  "conditional_insert now p d = ViolatesActivePushPath d' \<Longrightarrow> count_non_terminal d' = count_non_terminal d \<and> control d' = control d"
  "conditional_insert now p d = ViolatesOperationStates d' \<Longrightarrow> count_non_terminal d' = count_non_terminal d \<and> control d' = control d"
  by (auto simp: conditional_insert_def insert_push_row_def count_non_terminal_def Let_def split: if_splits)

lemma count_requeue:
  assumes "complete_conflict_requeue_in_txn now old d = Inr (j, d')"
  shows "count_non_terminal d' \<le> count_non_terminal d"
proof -
  let ?P = "requeue_intent (q_id old)" and ?f = "\<lambda>r. r\<lparr>q_status := Cancelled,
    q_failure_type := Some ConflictFailure, q_finished_at := Some now, q_pending_action := None,
    q_updated_at := now\<rparr>"
  let ?n = "\<lambda>rows. length (filter is_active rows)"
  have cancel: "?n (update_where ?P ?f rows) + rows_affected ?P rows = ?n rows" for rows
    by (induction rows) (auto simp: update_where_def rows_affected_def requeue_intent_def is_active_def
        active_status_def)
  have mark: "?n (update_where (\<lambda>r. q_id r = q_id old) (\<lambda>r. r\<lparr>q_superseded_by := Some j, q_updated_at := now\<rparr>) rows)
      = ?n rows" for rows
    by (induction rows) (auto simp: update_where_def is_active_def)
  show ?thesis
    using assms cancel [of "push_queue d"] mark
    by (auto simp: complete_conflict_requeue_in_txn_def update_queue_def insert_push_row_def
        count_non_terminal_def Let_def is_active_def active_status_def new_row_def
        split: option.splits insert_result.splits if_splits)
qed

lemma count_conditional_insert:
  assumes "control d = Some c"
  shows "case conditional_insert now p d of Row i d' \<Rightarrow> count_non_terminal d' \<le> c_max_depth c
     | ViolatesActivePushPath d' \<Rightarrow> count_non_terminal d' = count_non_terminal d
     | ViolatesOperationStates d' \<Rightarrow> count_non_terminal d' = count_non_terminal d | ZeroRows \<Rightarrow> True"
proof (cases "conditional_insert now p d")
  case (Row i d')
  then show ?thesis using count_insert [OF Row] assms by (auto simp: insert_admitted_def)
qed (use count_violation in auto)

lemma count_enqueue:
  assumes "control d = Some c" "only_ends_rows race1" "only_ends_rows race2" "only_ends_rows race3"
  shows "count_non_terminal (snd (enqueue_atomic x now race1 race2 race3 p d))
     \<le> max (count_non_terminal d) (c_max_depth c)"
proof -
  let ?n = count_non_terminal and ?d1 = "race1 d" and ?d2 = "race2 (race1 d)"
  have r: "?n (race e) \<le> ?n e" "control (race e) = control e" if "only_ends_rows race" for race e
    using that by (auto simp: only_ends_rows_def ends_rows_def)
  have le: "?n ?d1 \<le> ?n d" "?n ?d2 \<le> ?n d" "?n (race3 ?d2) \<le> ?n d" "control ?d2 = Some c"
    using r [OF assms(2), of d] r [OF assms(3), of ?d1] r [OF assms(4), of ?d2] assms(1) by auto
  have retry: "?n (snd (enqueue_retry x now race3 p ?d2)) \<le> max (?n d) (c_max_depth c)"
    using count_conditional_insert [OF le(4), of now p] le(2,3)
    by (simp add: enqueue_retry_def Let_def le_max_iff_disj split: insert_result.splits)
  have race1: "?n (race1 e) \<le> ?n d" if "?n e = ?n d" for e using r(1) [OF assms(2), of e] that by simp
  show ?thesis
    using count_conditional_insert [OF assms(1), of now p] le(1) retry
    by (cases "conditional_insert now p d")
      (auto simp: enqueue_atomic_def Let_def le_max_iff_disj race1 split: sum.splits option.splits)
qed

lemma count_claim: "count_non_terminal (snd (claim_for_execution x b now i d)) = count_non_terminal d"
proof -
  have "length (filter is_active (update_where (claimable i d) (claim_row now b d) rows))
      = length (filter is_active rows)" for rows
    by (induction rows) (auto simp: update_where_def claimable_def is_active_def active_status_def)
  then show ?thesis
    by (auto simp: claim_for_execution_def count_non_terminal_def Let_def split: option.splits sum.splits)
qed

text \<open>C15: The number of Queued and Running rows never exceeds \<open>max_depth\<close> through admission: an
  enqueue leaves at most \<open>max_depth\<close> active rows or at most as many as before, even when rows end
  during the transaction, and a conflict requeue and a claim never raise the number.\<close>

theorem queue_depth_bound:
  assumes "control d = Some c" "only_ends_rows race1" "only_ends_rows race2" "only_ends_rows race3"
  shows "count_non_terminal (snd (enqueue_atomic x now race1 race2 race3 p d))
       \<le> max (count_non_terminal d) (c_max_depth c)
     \<and> (complete_conflict_requeue_in_txn now old d = Ok (j, d') \<longrightarrow> count_non_terminal d' \<le> count_non_terminal d)
     \<and> count_non_terminal (snd (claim_for_execution x b now i d)) = count_non_terminal d"
  using count_enqueue [OF assms] count_requeue count_claim by blast

theorem queue_depth_bound_witness:
  "count_non_terminal (snd (enqueue_atomic sample_ext 30 id id id
     (sample_params\<lparr>e_path := lit ''/project/q''\<rparr>) sample_db)) \<le> 64"
  using queue_depth_bound [OF _ only_ends_rows_id only_ends_rows_id only_ends_rows_id,
      of sample_db "SEED_QUEUE_CONTROL 0" sample_ext 30 "sample_params\<lparr>e_path := lit ''/project/q''\<rparr>"]
  by (simp add: SEED_QUEUE_CONTROL_def count_non_terminal_def)

end
