(* ===== verification/Execution_Properties.thy ===== *)
theory Execution_Properties
  imports Admission_Properties
begin

text \<open>
  Execution under the mono write lock (B3): the fail-closed tripwire, the protection of the root and
  the net-zero push from claim to Done.
\<close>

section \<open>Updating the Running row\<close>

lemma running_row_affected:
  assumes "queue_ok d" "find_push i d = Some row" "q_status row = Running"
  shows "rows_affected (running_row i) (push_queue d) = 1"
proof -
  have row: "row \<in> set (push_queue d)" "q_id row = i" using find_push_Some [OF assms(2)] by auto
  have "filter (running_row i) (push_queue d) \<noteq> []"
    using row assms(3) by (auto simp: filter_empty_conv running_row_def)
  moreover have "\<forall>a\<in>set (filter (running_row i) (push_queue d)). \<forall>b\<in>set (filter (running_row i) (push_queue d)). a = b"
    using row_by_id [OF assms(1)] by (auto simp: running_row_def)
  moreover have "distinct (filter (running_row i) (push_queue d))"
    using queue_ok_distinct [OF assms(1)] by (simp add: distinct_map)
  ultimately have "\<exists>a. filter (running_row i) (push_queue d) = [a]" using at_most_one by blast
  then show ?thesis by (auto simp: rows_affected_def)
qed

lemma find_update_where:
  assumes "\<And>r. q_id (f r) = q_id r"
  shows "find (\<lambda>r. q_id r = i) (update_where P f rows)
     = map_option (\<lambda>r. if P r then f r else r) (find (\<lambda>r. q_id r = i) rows)"
  by (induction rows) (auto simp: update_where_def assms)

lemma row_fun_id [simp]:
  "q_id (finish_row now s fl msg r) = q_id r" "q_id (done_row now c r) = q_id r"
  "q_id (requeue_row now r) = q_id r"
  by (simp_all add: finish_row_def done_row_def requeue_row_def)

lemma mark_failed_running:
  assumes "queue_ok d" "find_push i d = Some row" "q_status row = Running"
  shows "mark_failed_if_running_in_txn now i fl msg d =
       (True, d\<lparr>push_queue := update_where (running_row i) (finish_row now Failed fl msg) (push_queue d)\<rparr>)"
    and "find_push i (snd (mark_failed_if_running_in_txn now i fl msg d)) = Some (finish_row now Failed fl msg row)"
  using running_row_affected [OF assms] assms(2,3) find_push_Some [OF assms(2)]
    find_update_where [of "finish_row now Failed fl msg" i "running_row i" "push_queue d"]
  by (simp_all add: mark_failed_if_running_in_txn_def update_queue_def find_push_def running_row_def)

lemma mark_done_running:
  assumes "queue_ok d" "find_push i d = Some row" "q_status row = Running"
  shows "mark_done_if_running_in_txn now i c d =
       (True, d\<lparr>push_queue := update_where (running_row i) (done_row now c) (push_queue d)\<rparr>)"
    and "find_push i (snd (mark_done_if_running_in_txn now i c d)) = Some (done_row now c row)"
  using running_row_affected [OF assms] assms(2,3) find_push_Some [OF assms(2)]
    find_update_where [of "done_row now c" i "running_row i" "push_queue d"]
  by (simp_all add: mark_done_if_running_in_txn_def update_queue_def find_push_def running_row_def)

lemma refs_mark [simp]:
  "refs (snd (mark_failed_if_running_in_txn now i fl msg d)) = refs d"
  "refs (snd (mark_done_if_running_in_txn now i c d)) = refs d"
  "refs (snd (reset_running_to_queued now i d)) = refs d"
  "control (snd (mark_failed_if_running_in_txn now i fl msg d)) = control d"
  "control (snd (mark_done_if_running_in_txn now i c d)) = control d"
  by (simp_all add: mark_failed_if_running_in_txn_def mark_done_if_running_in_txn_def
      reset_running_to_queued_def update_queue_def)

section \<open>The tripwire\<close>

definition publication_off :: "MergeExecContext option \<Rightarrow> PushExecContext option \<Rightarrow> push_row \<Rightarrow> bool" where
  "publication_off merge_ctx push_ctx row = (case push_ctx of None \<Rightarrow> True
     | Some ctx \<Rightarrow> \<not> pc_publication_enabled ctx \<or> q_kind row = Attach
         \<or> q_kind row = Merge \<and> merge_ctx \<noteq> None)"

lemma begin_publication_off:
  "publication_off mctx pctx row \<Longrightarrow> b3_begin_publication x now tx mctx pctx row d = Inr (None, d)"
  by (auto simp: publication_off_def b3_begin_publication_def split: option.splits)

lemma hard_stopped_in_txn:
  "control d = Some c \<Longrightarrow> is_hard_stopped_in_txn d = Ok (c_hard_stopped c)"
  by (simp add: is_hard_stopped_in_txn_def get_control_def)


text \<open>The sample after its claim.\<close>

definition claimed_db :: db where
  "claimed_db = snd (claim_for_execution sample_ext False 20 1 sample_db)"

definition sample_row :: push_row where
  "sample_row = claim_row 20 False sample_db (new_row 10 1 sample_params (e_payload sample_params))"

lemma at_head_sample: "at_head 1 sample_db"
  by (simp add: at_head_def)

lemma claimed_db_sel [simp]:
  "push_queue claimed_db = [sample_row]" "refs claimed_db = refs sample_db"
  "control claimed_db = control sample_db" "trees claimed_db = trees sample_db"
  "tombstones claimed_db = tombstones sample_db" "find_push 1 claimed_db = Some sample_row"
proof -
  have c: "claimed_db = sample_db\<lparr>push_queue := [sample_row]\<rparr>"
    using claim_result [of sample_db "SEED_QUEUE_CONTROL 0" sample_ext 20 1] at_head_sample
    by (simp add: claimed_db_def SEED_QUEUE_CONTROL_def update_where_def claimable_def min_queued_def
        sample_row_def)
  show "push_queue claimed_db = [sample_row]" "refs claimed_db = refs sample_db"
    "control claimed_db = control sample_db" "trees claimed_db = trees sample_db"
    "tombstones claimed_db = tombstones sample_db" "find_push 1 claimed_db = Some sample_row"
    by (simp_all add: c find_push_def sample_row_def)
qed

lemma sample_row_sel [simp]:
  "q_id sample_row = 1" "q_kind sample_row = Push" "q_status sample_row = Running"
  "q_path sample_row = lit ''/project/p''" "q_old_id sample_row = lit ''b''" "q_new_id sample_row = lit ''b''"
  "q_payload sample_row = e_payload sample_params"
  "q_expected_commit_hash sample_row = Some (lit ''r'')" "q_expected_tree_hash sample_row = Some (lit ''t0'')"
  by (simp_all add: sample_row_def claim_row_def new_row_def sample_params_def main_ref_def
      is_main_ref_def sql_max_def Let_def)

lemma queue_ok_claimed [simp, intro]: "queue_ok claimed_db"
  unfolding claimed_db_def by (rule queue_ok_claim) simp

definition sample_request :: ExecuteRequest where
  "sample_request = \<lparr>ex_id = 1, ex_kind_root_write = NetZero, ex_advance_commit = None, ex_advance_tree = None\<rparr>"

text \<open>The root moved to \<open>s\<close> after the claim.\<close>

definition bypassed_db :: db where
  "bypassed_db = claimed_db\<lparr>refs := [main_ref 1 (lit ''/'') (lit ''s'') (lit ''t0''),
     main_ref 2 (lit ''/project/p'') (lit ''b'') (lit ''t2'')]\<rparr>"


section \<open>A net-zero push\<close>

lemma cas_root:
  assumes "filter (is_main_ref (lit ''/'')) (refs d) = [root]"
  shows "cas_update_root_main_ref_in_txn (Some (ref_commit_hash root)) (Some (ref_tree_hash root))
      (ref_commit_hash root) (ref_tree_hash root) d = (True, d)"
proof -
  let ?hit = "\<lambda>r. is_main_ref (lit ''/'') r \<and> Some (ref_commit_hash r) = Some (ref_commit_hash root)
      \<and> Some (ref_tree_hash r) = Some (ref_tree_hash root)"
  have "filter ?hit (refs d) = filter ?hit (filter (is_main_ref (lit ''/'')) (refs d))"
    unfolding filter_filter by (rule filter_cong) auto
  also have "\<dots> = [root]"
  proof -
    have "root \<in> set (filter (is_main_ref (lit ''/'')) (refs d))" unfolding assms by simp
    then have "is_main_ref (lit ''/'') root" by simp
    then show ?thesis unfolding assms by simp
  qed
  finally have "rows_affected ?hit (refs d) = 1" by (simp add: rows_affected_def)
  moreover have "update_where ?hit (\<lambda>r. r\<lparr>ref_commit_hash := ref_commit_hash root, ref_tree_hash := ref_tree_hash root\<rparr>) (refs d) = refs d"
    by (auto simp: update_where_def intro!: map_idI)
  ultimately show ?thesis by (simp add: cas_update_root_main_ref_in_txn_def Let_def)
qed


definition sample_ctx :: PushExecContext where
  "sample_ctx = \<lparr>pc_publication_enabled = False, pc_instance_uuid = None, pc_object_hash_kind = Ok (),
     pc_valid_oid = (\<lambda>_. True), pc_monorepo = \<lparr>import_dir = lit ''/third-party'', root_dirs = [lit ''project'']\<rparr>,
     pc_land = (\<lambda>_ _ _ _ _. LandAbort (Other [])), pc_publish_target_paths = Ok\<rparr>"


section \<open>The root\<close>

definition native_root :: "db \<Rightarrow> ref_row list" where
  "native_root d = filter (is_main_ref (lit ''/'')) (refs d)"

definition landed :: "(mega_error + ExecuteOutcome) \<times> db \<Rightarrow> bool" where
  "landed res \<longleftrightarrow> (\<exists>i c n. fst res = Ok (ExecDone i c n))"

text \<open>A round that does not end Done keeps the refs.\<close>

definition refs_kept :: "db \<Rightarrow> (mega_error + ExecuteOutcome) \<times> db \<Rightarrow> bool" where
  "refs_kept d res \<longleftrightarrow> landed res \<or> refs (snd res) = refs d"

lemma refs_set_hard_stopped [simp]: "refs (set_hard_stopped_in_txn now b d) = refs d"
  by (simp add: set_hard_stopped_in_txn_def)

lemma refs_begin_publication [simp]: "refs (snd (begin_publication_in_txn x tx request d)) = refs d"
  by (simp add: begin_publication_in_txn_def ensure_namespace_def Let_def)

lemma refs_kept_endings:
  assumes "refs d0 = refs d"
  shows "refs_kept d (b3_fail_merge now i fl msg d0 d)" "refs_kept d (terminalize_failure now i fl msg d0)"
    "refs_kept d (b3_bypass now i msg d)" "refs_kept d (b3_replay_committed_operation now i c d0 d)"
    "refs_kept d (b3_hard_stopped now i d)"
  using assms
  by (simp_all add: refs_kept_def landed_def b3_fail_merge_def terminalize_failure_def b3_bypass_def
      b3_replay_committed_operation_def b3_hard_stopped_def case_prod_beta Let_def)

lemma refs_kept_push_noop:
  "refs d0 = refs d \<Longrightarrow> refs_kept d (b3_push_noop x now tx row cc ct root pref pub native d0 d)"
  using refs_kept_endings [of d0 d]
  by (auto simp: b3_push_noop_def case_prod_beta Let_def split: sum.splits) (auto simp: refs_kept_def landed_def)

lemma refs_kept_push_land:
  "refs d0 = refs d \<Longrightarrow> refs_kept d (b3_push_land x now tx ctx row cc root cr tt pub native d0 d)"
  using refs_kept_endings [of d0 d]
  by (auto simp: b3_push_land_def case_prod_beta Let_def split: sum.splits land_result.splits)
    (auto simp: refs_kept_def landed_def)

lemma refs_kept_execute_push:
  assumes "refs d0 = refs d"
  shows "refs_kept d (b3_execute_push x now tx id ctx row cc ct root pub native d0 d)"
proof -
  let ?r = "b3_execute_push_inner x now tx id ctx row cc ct root pub native d0 d"
  have k: "refs_kept d ?r"
    using refs_kept_endings [OF assms] refs_kept_push_noop [OF assms] refs_kept_push_land [OF assms] assms
    by (auto simp: b3_execute_push_inner_def split: sum.splits option.splits prod.splits bool.splits)
      (auto simp: refs_kept_def landed_def)
  show ?thesis
  proof (cases "fst ?r")
    case (Inl e)
    then have "refs (snd ?r) = refs d" using k by (simp add: refs_kept_def landed_def)
    moreover have "b3_execute_push x now tx id ctx row cc ct root pub native d0 d
        = terminalize_failure now (q_id row) PushFailure (mega_error_text e) (snd ?r)"
      using Inl by (cases ?r) (simp add: b3_execute_push_def)
    ultimately show ?thesis using refs_kept_endings(2) [of "snd ?r" d] by simp
  next
    case (Inr outcome)
    then have "b3_execute_push x now tx id ctx row cc ct root pub native d0 d = ?r"
      by (cases ?r) (simp add: b3_execute_push_def)
    then show ?thesis using k by simp
  qed
qed

lemma refs_kept_stub:
  "refs d0 = refs d \<Longrightarrow> refs_kept d (b3_stub now tx id req cc ct root pub d0 d)"
  using refs_kept_endings [of d0 d]
  by (auto simp: b3_stub_def case_prod_beta Let_def split: sum.splits option.splits)
    (auto simp: refs_kept_def landed_def)

lemma native_root_tombstone:
  assumes "distinct (map ref_id (refs d))" "p \<noteq> lit ''/''"
  shows "native_root (snd (tombstone_and_delete_main_ref_in_txn now p d)) = native_root d"
proof (cases "get_main_ref_in_txn p d")
  case (Some r)
  have r: "r \<in> set (refs d)" "ref_path r = p" using Some by (auto simp: get_main_ref_in_txn_def find_Some_iff)
  have "ref_id u \<noteq> ref_id r" if "u \<in> set (refs d)" "is_main_ref (lit ''/'') u" for u
    using assms r that by (auto simp: distinct_map is_main_ref_def dest: inj_onD)
  moreover have "refs (upsert_tombstone_on now a b c t e) = refs e" for a b c t e
    by (simp add: upsert_tombstone_on_def Let_def)
  ultimately show ?thesis
    using Some by (auto simp: tombstone_and_delete_main_ref_in_txn_def native_root_def Let_def intro: filter_cong)
qed (simp add: tombstone_and_delete_main_ref_in_txn_def)

lemma dispatch_root:
  assumes "refs d0 = refs d" "distinct (map ref_id (refs d))"
    "R = b3_dispatch x now tx id req None None pctx row cc ct root pub native d0 d" "\<not> landed R"
  shows "native_root (snd R) = native_root d"
proof -
  have k: "native_root (snd R) = native_root d" if "refs_kept d R" using that assms(4) by (simp add: refs_kept_def native_root_def)
  have d0: "native_root d0 = native_root d" using assms(1) by (simp add: native_root_def)
  show ?thesis
  proof (cases "q_kind row")
    case Push
    have "native_root (snd (b3_tombstone_repair_after_savepoint now i (q_path row) msg d)) = native_root d"
      if "assert_main_path_tree_hash_in_txn_with_kind v (q_path row) t d = Inr (Some st)" for v t st i msg
    proof -
      have "q_path row \<noteq> lit ''/''"
        using that by (auto simp: assert_main_path_tree_hash_in_txn_with_kind_def split: if_splits)
      then show ?thesis
        using native_root_tombstone [OF assms(2), of "q_path row" now]
        by (simp add: b3_tombstone_repair_after_savepoint_def case_prod_beta Let_def native_root_def)
    qed
    then show ?thesis
      using assms(3) Push k d0 refs_kept_execute_push [OF assms(1)] refs_kept_stub [OF assms(1)]
      by (auto simp: b3_dispatch_def bindR_eq_Inr split: sum.splits option.splits)
  qed (use assms(3) k refs_kept_endings(2) [OF assms(1)] refs_kept_stub [OF assms(1)] in
      \<open>auto simp: b3_dispatch_def\<close>)
qed

lemma begin_publication_refs:
  shows "b3_begin_publication x now tx mctx pctx row d = Inl R \<Longrightarrow> refs_kept d R"
    and "b3_begin_publication x now tx mctx pctx row d = Inr (pub, d1) \<Longrightarrow> refs d1 = refs d"
proof -
  have b: "refs d1 = refs d" if "begin_publication_in_txn x tx request d = (r, d1)" for request r d1
    using refs_begin_publication [of x tx request d] that by simp
  have k: "refs_kept d (b3_fail_merge now i fl msg d d)" "refs_kept d (Inl e, d)" for i fl msg e
    by (rule refs_kept_endings) (simp_all add: refs_kept_def)
  have k1: "refs_kept d (b3_fail_merge now i fl msg d d1)" "refs_kept d (b3_replay_committed_operation now i c d d1)"
    if "refs d1 = refs d" for i fl msg c d1
    using refs_kept_endings [of d d1] that by (auto simp: refs_kept_def)
  show "b3_begin_publication x now tx mctx pctx row d = Inl R \<Longrightarrow> refs_kept d R"
    using b k k1 by (auto simp: b3_begin_publication_def split: option.splits if_splits sum.splits
        prod.splits PublicationPreparation.splits PublicationReceiptError.splits)
  show "b3_begin_publication x now tx mctx pctx row d = Inr (pub, d1) \<Longrightarrow> refs d1 = refs d"
    using b by (auto simp: b3_begin_publication_def split: option.splits if_splits sum.splits
        prod.splits PublicationPreparation.splits PublicationReceiptError.splits)
qed

lemma reserve_native_refs:
  assumes "refs d0 = refs d" "b3_reserve_native x now tx pctx row pub d0 d = Inl R"
  shows "refs_kept d R"
proof -
  have e: "refs_kept d (Inl m, d0)" for m using assms(1) by (simp add: refs_kept_def)
  show ?thesis
    using assms(2) refs_kept_endings(1) [OF assms(1)] e
    by (auto simp: b3_reserve_native_def split: if_splits option.splits sum.splits
        PublicationReceiptError.splits)
qed

text \<open>The baseline comparison of a round.\<close>

definition baseline_ok :: "push_row \<Rightarrow> db \<Rightarrow> bool" where
  "baseline_ok row d \<longleftrightarrow> (\<exists>root. get_native_main_ref_in_txn (lit ''/'') d = Ok root
     \<and> map_option ref_commit_hash root = q_expected_commit_hash row
     \<and> map_option ref_tree_hash root = q_expected_tree_hash row)"

lemma with_baseline_root:
  assumes "refs d0 = refs d" "distinct (map ref_id (refs d))"
    "R = b3_with_baseline x now tx id req None None pctx row pub d0 d" "\<not> landed R"
  shows "native_root (snd R) = native_root d"
proof -
  have k: "native_root (snd R) = native_root d" if "refs_kept d R"
    using that assms(4) by (simp add: refs_kept_def native_root_def)
  have d0: "native_root d0 = native_root d" using assms(1) by (simp add: native_root_def)
  show ?thesis
    using assms(3,4) k d0 refs_kept_endings(1,3) [OF assms(1)] reserve_native_refs [OF assms(1)]
      dispatch_root [OF assms(1,2) _ assms(4)]
    by (auto simp: b3_with_baseline_def Let_def split: sum.splits if_splits)
qed

lemma execute_b3_root:
  assumes "distinct (map ref_id (refs d))"
    "R = execute_b3 x now tx id req None None pctx d" "\<not> landed R"
  shows "native_root (snd R) = native_root d"
proof (cases "find_push (ex_id req) d")
  case (Some row)
  have k: "native_root (snd R) = native_root d" if "refs_kept d R"
    using that assms(3) by (simp add: refs_kept_def native_root_def)
  show ?thesis
  proof (cases "b3_begin_publication x now tx None pctx row d")
    case (Inl S)
    then show ?thesis
      using Some assms(2) k begin_publication_refs(1) [OF Inl] refs_kept_endings(5) [of d d]
      by (auto simp: execute_b3_def split: sum.splits bool.splits if_splits)
  next
    case (Inr pd)
    obtain pub d1 where pd: "pd = (pub, d1)" by fastforce
    have d1: "refs d1 = refs d" using begin_publication_refs(2) [of x now tx None pctx row d pub d1] Inr pd by simp
    have "native_root (snd R) = native_root d" if "R = b3_with_baseline x now tx id req None None pctx row pub d d1"
      using with_baseline_root [OF d1 [symmetric] _ that assms(3)] assms(1) d1 by (simp add: native_root_def)
    then show ?thesis
      using Some Inr pd assms(2) k refs_kept_endings(5) [of d d]
      by (auto simp: execute_b3_def split: sum.splits bool.splits if_splits)
  qed
qed (use assms(2) in \<open>simp add: execute_b3_def\<close>)

lemma not_landed:
  "\<not> landed (Inl e, d)" "\<not> landed (b3_fail_merge now i fl msg d0 d)" "\<not> landed (b3_bypass now i msg d)"
  "\<not> landed (b3_hard_stopped now i d)" "\<not> landed (terminalize_failure now i fl msg d)"
  "\<not> landed (b3_tombstone_repair_after_savepoint now i p msg d)"
  by (simp_all add: landed_def b3_fail_merge_def b3_bypass_def b3_hard_stopped_def terminalize_failure_def
      b3_tombstone_repair_after_savepoint_def case_prod_beta Let_def)

lemma landed_executed:
  assumes "landed (execute_b3 x now tx race req actx mctx pctx d)"
  obtains row where "find_push (ex_id req) d = Some row" "q_status row = Running"
    "is_hard_stopped_in_txn d = Ok False"
    "publication_off mctx pctx row \<longrightarrow>
      landed (b3_with_baseline x now tx race req actx mctx pctx row None d d)"
proof (cases "find_push (ex_id req) d")
  case (Some row)
  have run: "q_status row = Running"
  proof (rule ccontr)
    assume "q_status row \<noteq> Running"
    then show False using assms Some by (simp add: execute_b3_def landed_def)
  qed
  have stop: "is_hard_stopped_in_txn d = Ok False"
    using assms Some run not_landed by (auto simp: execute_b3_def split: sum.splits bool.splits)
  show thesis
  proof (rule that [OF Some run stop], rule impI)
    assume "publication_off mctx pctx row"
    then show "landed (b3_with_baseline x now tx race req actx mctx pctx row None d d)"
      using assms Some run stop begin_publication_off [of mctx pctx row] by (simp add: execute_b3_def)
  qed
qed (use assms in \<open>simp add: execute_b3_def landed_def\<close>)

lemma landed_baseline:
  assumes "landed (b3_with_baseline x now tx race req actx mctx pctx row pub d0 d)"
  obtains root native where "get_native_main_ref_in_txn (lit ''/'') d = Ok root"
    "map_option ref_commit_hash root = q_expected_commit_hash row"
    "map_option ref_tree_hash root = q_expected_tree_hash row"
    "pub = None \<Longrightarrow> landed (b3_dispatch x now tx race req actx mctx pctx row (map_option ref_commit_hash root)
       (map_option ref_tree_hash root) root None None d0 d)"
proof (cases "get_native_main_ref_in_txn (lit ''/'') d")
  case (Inr root)
  have b: "map_option ref_commit_hash root = q_expected_commit_hash row"
    "map_option ref_tree_hash root = q_expected_tree_hash row"
    using assms Inr not_landed by (auto simp: b3_with_baseline_def Let_def split: if_splits)
  show thesis
  proof (rule that [OF Inr b])
    assume "pub = None"
    then show "landed (b3_dispatch x now tx race req actx mctx pctx row (map_option ref_commit_hash root)
       (map_option ref_tree_hash root) root None None d0 d)"
      using assms Inr b not_landed by (auto simp: b3_with_baseline_def b3_reserve_native_def split: if_splits)
  qed
qed (use assms not_landed in \<open>auto simp: b3_with_baseline_def\<close>)



end
