(* ===== verification/Recovery_Properties.thy ===== *)
theory Recovery_Properties
  imports Execution_Properties
begin

text \<open>
  Recovery after a crash: what one reaper cycle does with the Running row a lost session left, and
  that the queue moves again after it.
\<close>

section \<open>Conflict requeue\<close>

lemma requeue_no_violation:
  assumes "queue_ok d" "row \<in> set (push_queue d)" "q_status row = Running"
    "push_queue d1 = update_where (requeue_intent (q_id row)) f (push_queue d)"
    "\<And>r. q_status (f r) = Cancelled" "requeue_intent (q_id row) row"
  shows "\<not> violates_active_push_path (new_row now i (params_of_row row) py) d1"
    "\<not> violates_operation_states (new_row now i (params_of_row row) py) d1"
proof -
  have s: "q_id s = q_id row \<longrightarrow> s = row" if "s \<in> set (push_queue d)" for s
    using row_by_id [OF assms(1) that assms(2)] by blast
  have old: "\<exists>s\<in>set (push_queue d). r = s \<and> s \<noteq> row" if r: "r \<in> set (push_queue d1)" "q_status r \<noteq> Cancelled" for r
  proof -
    obtain u where u: "u \<in> set (push_queue d)" "r = (if requeue_intent (q_id row) u then f u else u)"
      using r(1) by (auto simp: assms(4) in_update_where)
    then show ?thesis using r(2) assms(5,6) by (cases "requeue_intent (q_id row) u") auto
  qed
  have inv: "unique_by active_push q_path (push_queue d)" "unique_by op_state op_key (push_queue d)"
    using assms(1) by (simp_all add: queue_ok_def queue_inv_def)
  show "\<not> violates_active_push_path (new_row now i (params_of_row row) py) d1"
  proof
    assume v: "violates_active_push_path (new_row now i (params_of_row row) py) d1"
    then obtain r where r: "r \<in> set (push_queue d1)" "active_push r" "q_path r = q_path row" "q_kind row = Push"
      by (auto simp: violates_active_push_path_def list_ex_iff active_push_def params_of_row_def)
    then have "r \<in> set (push_queue d)" "r \<noteq> row" using old [of r] by (auto simp: status_defs)
    moreover have "active_push row" using r(4) assms(3) by (simp add: status_defs)
    ultimately show False using inv(1) r(2,3) assms(2) s unfolding unique_by_def by blast
  qed
  show "\<not> violates_operation_states (new_row now i (params_of_row row) py) d1"
  proof
    assume v: "violates_operation_states (new_row now i (params_of_row row) py) d1"
    then obtain r where r: "r \<in> set (push_queue d1)" "op_state r" "op_key r = op_key row"
      by (auto simp: violates_operation_states_def list_ex_iff same_operation_key params_of_row_def op_key_def)
    then have "r \<in> set (push_queue d)" "r \<noteq> row" using old [of r] by (auto simp: status_defs)
    moreover have "op_state row" using assms(3) by (simp add: status_defs)
    ultimately show False using inv(2) r(2,3) assms(2) s unfolding unique_by_def by blast
  qed
qed

text \<open>The rows after a conflict requeue: the old row cancelled and superseded, the others as they were,
  and the successor.\<close>

definition requeued :: "int \<Rightarrow> push_row \<Rightarrow> int \<Rightarrow> push_row" where
  "requeued now row j = row\<lparr>q_status := Cancelled, q_failure_type := Some ConflictFailure,
     q_finished_at := Some now, q_pending_action := None, q_updated_at := now, q_superseded_by := Some j\<rparr>"

lemma conflict_requeue_succeeds:
  assumes "queue_ok d" "row \<in> set (push_queue d)" "q_status row = Running"
    "q_pending_action row = Some RequeueConflict"
  shows "complete_conflict_requeue_in_txn now row d = Ok (next_push_id d,
     d\<lparr>push_queue := update_where (\<lambda>r. q_id r = q_id row) (\<lambda>_. requeued now row (next_push_id d)) (push_queue d)
          @ [new_row now (next_push_id d) (params_of_row row) (q_payload row)],
       next_push_id := next_push_id d + 1\<rparr>)"
proof -
  let ?f = "\<lambda>r. r\<lparr>q_status := Cancelled, q_failure_type := Some ConflictFailure,
     q_finished_at := Some now, q_pending_action := None, q_updated_at := now\<rparr>"
  let ?P = "requeue_intent (q_id row)" and ?n = "next_push_id d"
  let ?d1 = "d\<lparr>push_queue := update_where ?P ?f (push_queue d)\<rparr>"
  have ok: "row_ok row" "q_id row < ?n" using assms(1,2) by (auto simp: queue_ok_def queue_inv_def)
  then have P: "?P row" using assms(3,4) by (auto simp: requeue_intent_def row_ok_def)
  have only: "?P r \<longleftrightarrow> r = row" "q_id r = q_id row \<longleftrightarrow> r = row" if "r \<in> set (push_queue d)" for r
    using row_by_id [OF assms(1) that assms(2)] P by (auto simp: requeue_intent_def)
  have nz: "rows_affected ?P (push_queue d) \<noteq> 0" using P assms(2) by (auto simp: rows_affected_0)
  note v = requeue_no_violation [OF assms(1-3), of ?d1 ?f now ?n "q_payload row"]
  have ins: "insert_push_row (\<lambda>i. new_row now i (params_of_row row) (q_payload row)) ?d1
      = Row ?n (?d1\<lparr>next_push_id := ?n + 1, push_queue := push_queue ?d1 @ [new_row now ?n (params_of_row row) (q_payload row)]\<rparr>)"
    using v P by (simp add: insert_push_row_def Let_def)
  have rows: "update_where (\<lambda>r. q_id r = q_id row) (\<lambda>r. r\<lparr>q_superseded_by := Some ?n, q_updated_at := now\<rparr>)
        (update_where ?P ?f (push_queue d) @ [new_row now ?n (params_of_row row) (q_payload row)])
      = update_where (\<lambda>r. q_id r = q_id row) (\<lambda>_. requeued now row ?n) (push_queue d)
        @ [new_row now ?n (params_of_row row) (q_payload row)]"
    using only ok(2) by (auto simp: update_where_def requeued_def)
  show ?thesis
    using nz ins rows by (simp add: complete_conflict_requeue_in_txn_def update_queue_def Let_def)
qed

section \<open>The Running row\<close>

lemma apply_i3_db [simp]:
  "control (snd (apply_i3 now row root d)) = control d"
  by (auto simp: apply_i3_def tombstone_and_delete_main_ref_in_txn_def upsert_tombstone_on_def Let_def
      split: PushQueueKind.splits option.splits)

lemma refs_requeue:
  "complete_conflict_requeue_in_txn now row d = Ok (j, d') \<Longrightarrow> refs d' = refs d \<and> control d' = control d"
  by (auto simp: complete_conflict_requeue_in_txn_def update_queue_def insert_push_row_def Let_def
      split: option.splits insert_result.splits if_splits)

lemma no_running_update:
  assumes "queue_ok d" "row \<in> set (push_queue d)" "q_status row = Running"
    "push_queue d' = update_where (\<lambda>r. q_id r = q_id row) (\<lambda>_. r0) (push_queue d) @ rows"
    "q_status r0 \<noteq> Running" "\<forall>r\<in>set rows. q_status r \<noteq> Running"
  shows "\<forall>r\<in>set (push_queue d'). q_status r \<noteq> Running"
proof -
  have "q_id r = q_id row" if "r \<in> set (push_queue d)" "q_status r = Running" for r
    using assms(1-3) that unfolding queue_ok_def queue_inv_def unique_by_def running_def by blast
  then show ?thesis using assms(4-6) by (auto simp: in_update_where split: if_splits)
qed

text \<open>What happens to a Running row whose session is gone.\<close>

definition reaped :: "int \<Rightarrow> push_row \<Rightarrow> bool \<Rightarrow> bool \<Rightarrow> int \<Rightarrow> push_row \<Rightarrow> bool" where
  "reaped now row baseline stopped n r \<longleftrightarrow>
     (if \<not> baseline then r = finish_row now Failed QueueBypassDetected (lit ''reaper expected_* baseline mismatch'') row
      else if q_pending_action row = Some RequeueConflict then r = requeued now row n
      else if stopped then r = requeue_row now row
      else \<exists>message. r = finish_row now Failed SystemError message row)"

definition reap_baseline :: "push_row \<Rightarrow> db \<Rightarrow> bool" where
  "reap_baseline row d \<longleftrightarrow> (let root = get_main_ref_in_txn (lit ''/'') d in
     map_option ref_commit_hash root = q_expected_commit_hash row
     \<and> map_option ref_tree_hash root = q_expected_tree_hash row)"

lemma update_running_row:
  assumes "queue_ok d" "row \<in> set (push_queue d)" "q_status row = Running"
  shows "update_where (running_row (q_id row)) f (push_queue d)
     = update_where (\<lambda>r. q_id r = q_id row) (\<lambda>_. f row) (push_queue d)"
  using row_by_id [OF assms(1) _ assms(2)] assms(3) by (auto simp: update_where_def running_row_def)

lemma reap_running:
  assumes "queue_ok d" "row \<in> set (push_queue d)" "q_status row = Running"
  shows "\<exists>k d' r. reap_running_row now row stopped d = Ok (k, d')
     \<and> reaped now row (reap_baseline row d) stopped (next_push_id d) r
     \<and> push_queue d' = update_where (\<lambda>r. q_id r = q_id row) (\<lambda>_. r) (push_queue d)
         @ (if reap_baseline row d \<and> q_pending_action row = Some RequeueConflict
            then [new_row now (next_push_id d) (params_of_row row) (q_payload row)] else [])
     \<and> refs d' = refs (snd (apply_i3 now row (get_main_ref_in_txn (lit ''/'') d) d))
     \<and> control d' = (if reap_baseline row d then control d
         else control (set_hard_stopped_in_txn now True d))"
proof -
  let ?root = "get_main_ref_in_txn (lit ''/'') d"
  let ?d1 = "snd (apply_i3 now row ?root d)"
  have d1: "queue_ok ?d1" "row \<in> set (push_queue ?d1)" using assms by simp_all
  note u = update_running_row [OF assms]
  note eval = reap_running_row_def Let_def case_prod_beta reap_baseline_def reaped_def update_queue_def
    mark_failed_if_running_in_txn_def set_hard_stopped_in_txn_def reset_running_to_queued_in_txn_def
  show ?thesis
  proof (cases "reap_baseline row d")
    case False
    then show ?thesis by (auto simp: eval u)
  next
    case base: True
    show ?thesis
    proof (cases "q_pending_action row = Some RequeueConflict")
      case True
      with base show ?thesis
        using conflict_requeue_succeeds [OF d1 assms(3) True, of now] by (simp add: eval)
    next
      case False
      with base show ?thesis by (cases stopped) (auto simp: eval u)
    qed
  qed
qed

lemma apply_i3_root:
  assumes "distinct (map ref_id (refs d))"
  shows "native_root (snd (apply_i3 now row (get_main_ref_in_txn (lit ''/'') d) d)) = native_root d"
proof (cases "q_path row = lit ''/''")
  case True
  then show ?thesis
    by (auto simp: apply_i3_def resolve_path_tree_hash_in_txn_def split: PushQueueKind.splits option.splits)
next
  case False
  note t = native_root_tombstone [OF assms False, of now]
  show ?thesis using t by (auto simp: apply_i3_def split: PushQueueKind.splits option.splits)
qed

section \<open>One cycle\<close>

lemma cancel_stale_running:
  assumes "snd (cancel_stale_queued_in_txn now cutoff d) = d1"
  shows "r \<in> set (push_queue d1) \<and> q_status r = Running \<longleftrightarrow> r \<in> set (push_queue d) \<and> q_status r = Running"
    and "next_push_id d1 = next_push_id d" "refs d1 = refs d" "control d1 = control d"
  using assms by (auto simp: cancel_stale_queued_in_txn_def update_queue_def set_update_where finish_row_def)

definition swept :: "reaper_config \<Rightarrow> int \<Rightarrow> queue_control \<Rightarrow> db \<Rightarrow> db" where
  "swept cfg now c d = (if c_hard_stopped c then d
     else snd (cancel_stale_queued_in_txn now (now - heartbeat_timeout cfg) d))"

lemma swept_sel:
  "r \<in> set (push_queue (swept cfg now c d)) \<and> q_status r = Running \<longleftrightarrow> r \<in> set (push_queue d) \<and> q_status r = Running"
  "next_push_id (swept cfg now c d) = next_push_id d" "refs (swept cfg now c d) = refs d"
  "control (swept cfg now c d) = control d" "queue_ok d \<Longrightarrow> queue_ok (swept cfg now c d)"
  "reap_baseline row (swept cfg now c d) = reap_baseline row d"
  using cancel_stale_running [of now "now - heartbeat_timeout cfg" d] queue_ok_updates(4)
  by (auto simp: swept_def reap_baseline_def get_main_ref_in_txn_def)

lemma swept_running:
  "(\<exists>r\<in>set (push_queue (swept cfg now c d)). q_status r = Running \<and> P r)
     \<longleftrightarrow> (\<exists>r\<in>set (push_queue d). q_status r = Running \<and> P r)"
  "(\<forall>r\<in>set (push_queue (swept cfg now c d)). q_status r = Running \<longrightarrow> P r)
     \<longleftrightarrow> (\<forall>r\<in>set (push_queue d). q_status r = Running \<longrightarrow> P r)"
  using swept_sel(1) [of _ cfg now c d] by blast+

lemma reap_rows_ok:
  assumes "queue_ok d"
  shows "\<exists>report' d'. reap_rows now g stopped (list_running_in_txn d) report d = Ok (report', d')
     \<and> (d' = d \<and> (\<forall>r\<in>set (push_queue d). q_status r = Running \<longrightarrow> in_grace g r)
        \<or> (\<exists>row\<in>set (push_queue d). q_status row = Running \<and> \<not> in_grace g row
             \<and> (\<exists>k. reap_running_row now row stopped d = Ok (k, d'))))"
  using list_running_queue_ok [OF assms]
proof
  assume e: "list_running_in_txn d = []"
  then have "\<forall>r\<in>set (push_queue d). q_status r \<noteq> Running"
    using set_list_running [of d] by (simp add: e)
  then show ?thesis using e by simp
next
  assume "\<exists>r. list_running_in_txn d = [r]"
  then obtain row where l: "list_running_in_txn d = [row]" by blast
  then have s: "{r \<in> set (push_queue d). q_status r = Running} = {row}"
    using set_list_running [of d] by simp
  then have row: "row \<in> set (push_queue d)" "q_status row = Running" by blast+
  obtain k d' where k: "reap_running_row now row stopped d = Ok (k, d')"
    using reap_running [OF assms row] by blast
  show ?thesis
  proof (cases "in_grace g row")
    case True
    then have "\<forall>r\<in>set (push_queue d). q_status r = Running \<longrightarrow> in_grace g r"
      using s by (metis (mono_tags, lifting) mem_Collect_eq singletonD)
    then show ?thesis using True l by simp
  next
    case False
    then show ?thesis using row k l by (auto simp: case_prod_beta)
  qed
qed

lemma reap_once_locked:
  assumes "queue_ok d" "control d = Some c"
  shows "\<exists>report d'. reap_once cfg now True holders d = (Ok report, d')
     \<and> (d' = swept cfg now c d
          \<and> (\<forall>r\<in>set (push_queue d). q_status r = Running \<longrightarrow> in_grace (now - started_at_grace cfg) r)
        \<or> (\<exists>row\<in>set (push_queue d). q_status row = Running \<and> \<not> in_grace (now - started_at_grace cfg) row
             \<and> (\<exists>k. reap_running_row now row (c_hard_stopped c) (swept cfg now c d) = Ok (k, d'))))"
proof -
  let ?d1 = "swept cfg now c d" and ?g = "now - started_at_grace cfg"
  let ?n = "fst (if c_hard_stopped c then (0, d) else cancel_stale_queued_in_txn now (now - heartbeat_timeout cfg) d)"
  let ?rep = "(empty_report True)\<lparr>rp_stale_queued_cancelled := int ?n\<rparr>"
  have e: "reap_once cfg now True holders d =
      (case reap_rows now ?g (c_hard_stopped c) (list_running_in_txn ?d1) ?rep ?d1 of
         Inl e \<Rightarrow> (Err e, d) | Inr (report', d2) \<Rightarrow> (Ok report', d2))"
    using assms(2) by (simp add: reap_once_def hard_stopped_in_txn swept_def case_prod_beta Let_def)
  have ok: "queue_ok ?d1" using assms(1) by (rule swept_sel(5))
  show ?thesis
    using reap_rows_ok [OF ok, where now = now and g = ?g and report = ?rep
        and stopped = "c_hard_stopped c"]
    unfolding swept_running by (elim exE conjE) (simp add: e)
qed

lemma one_running:
  assumes "queue_ok d" "r \<in> set (push_queue d)" "q_status r = Running" "row \<in> set (push_queue d)" "q_status row = Running"
  shows "r = row"
proof -
  have "q_id r = q_id row"
    using assms unfolding queue_ok_def queue_inv_def unique_by_def running_def by blast
  then show ?thesis by (rule row_by_id [OF assms(1,2,4)])
qed

text \<open>The end of the Running row, in the state after the stale rows are cancelled.\<close>

definition recovered :: "int \<Rightarrow> queue_control \<Rightarrow> push_row \<Rightarrow> db \<Rightarrow> db \<Rightarrow> bool" where
  "recovered now c row d d' \<longleftrightarrow>
     (\<exists>r\<in>set (push_queue d'). q_id r = q_id row
        \<and> reaped now row (reap_baseline row d) (c_hard_stopped c) (next_push_id d) r)
     \<and> control d' = (if reap_baseline row d then control d else control (set_hard_stopped_in_txn now True d))"

lemma reap_swept:
  assumes "queue_ok d" "distinct (map ref_id (refs d))" "row \<in> set (push_queue d)" "q_status row = Running"
    "reap_running_row now row (c_hard_stopped c) (swept cfg now c d) = Ok (k, d')"
  shows "native_root d' = native_root d" "\<forall>r\<in>set (push_queue d'). q_status r \<noteq> Running" "recovered now c row d d'"
proof -
  let ?d1 = "swept cfg now c d"
  have d1: "queue_ok ?d1" "distinct (map ref_id (refs ?d1))" using assms by (simp_all add: swept_sel)
  have row1: "row \<in> set (push_queue ?d1)" using swept_sel(1) [of row] assms(3,4) by blast
  obtain r where r: "reaped now row (reap_baseline row d) (c_hard_stopped c) (next_push_id d) r"
      "push_queue d' = update_where (\<lambda>r. q_id r = q_id row) (\<lambda>_. r) (push_queue ?d1)
         @ (if reap_baseline row d \<and> q_pending_action row = Some RequeueConflict
            then [new_row now (next_push_id d) (params_of_row row) (q_payload row)] else [])"
      "refs d' = refs (snd (apply_i3 now row (get_main_ref_in_txn (lit ''/'') ?d1) ?d1))"
      "control d' = (if reap_baseline row d then control d else control (set_hard_stopped_in_txn now True ?d1))"
    using reap_running [OF d1(1) row1 assms(4), of now "c_hard_stopped c"] assms(5) by (auto simp: swept_sel)
  have st: "q_status r \<noteq> Running" "q_id r = q_id row"
    using r(1) by (auto simp: reaped_def finish_row_def requeued_def requeue_row_def split: if_splits)
  show "\<forall>r\<in>set (push_queue d'). q_status r \<noteq> Running"
    by (rule no_running_update [OF d1(1) row1 assms(4) r(2) st(1)]) simp
  show "native_root d' = native_root d"
    using apply_i3_root [OF d1(2), of now row] r(3) swept_sel(3) [of cfg now c d] by (simp add: native_root_def)
  have "r \<in> set (push_queue d')" using row1 by (auto simp: r(2) in_update_where)
  then show "recovered now c row d d'"
    using r(1,4) st(2) swept_sel(4) [of cfg now c d] by (auto simp: recovered_def set_hard_stopped_in_txn_def)
qed

lemma reap_once_cases [consumes 3, case_names none row]:
  assumes "queue_ok d" "control d = Some c" "reap_once cfg now True holders d = (res, d')"
  obtains report where "res = Ok report" "d' = swept cfg now c d"
      "\<forall>r\<in>set (push_queue d). q_status r = Running \<longrightarrow> in_grace (now - started_at_grace cfg) r"
    | report row k where "res = Ok report" "row \<in> set (push_queue d)" "q_status row = Running"
        "\<not> in_grace (now - started_at_grace cfg) row"
        "reap_running_row now row (c_hard_stopped c) (swept cfg now c d) = Ok (k, d')"
  using reap_once_locked [OF assms(1,2), of cfg now holders] assms(3) by auto


text \<open>The session that claimed the sample row at time 20 crashed; the cycle runs at time 1000.\<close>

definition sample_reaper :: reaper_config where
  "sample_reaper = \<lparr>heartbeat_timeout = 60, started_at_grace = 30, stuck_timeout = 600\<rparr>"

lemma sample_row_started: "q_started_at sample_row = Some 20" "q_pending_action sample_row = None"
  by (simp_all add: sample_row_def claim_row_def new_row_def Let_def)


section \<open>The queue moves again\<close>

lemma touch_heartbeat_db [simp]:
  "control (touch_heartbeat now i d) = control d" "refs (touch_heartbeat now i d) = refs d"
  by (simp_all add: touch_heartbeat_def update_queue_def)

lemma at_head_key:
  "at_head i d \<longleftrightarrow> (let k = set (map (\<lambda>r. (q_id r, q_status r)) (push_queue d)) in
     (i, Queued) \<in> k \<and> (\<forall>(j, s)\<in>k. s \<noteq> Running \<and> (s = Queued \<longrightarrow> i \<le> j)))"
  by (force simp: at_head_def Let_def)

lemma touch_at_head: "at_head i (touch_heartbeat now i d) \<longleftrightarrow> at_head i d"
proof -
  have "map (\<lambda>r. (q_id r, q_status r)) (push_queue (touch_heartbeat now i d)) = map (\<lambda>r. (q_id r, q_status r)) (push_queue d)"
    unfolding touch_heartbeat_def push_queue_update_queue by (rule map_update_where) simp
  then show ?thesis unfolding at_head_key by (simp only:)
qed

lemma head_claims:
  assumes "queue_ok d" "control d = Some c" "\<not> c_hard_stopped c" "at_head i d"
    "\<not> native_publication_enabled cfg" "tk_before t = id" "tk_between t = id" "seen \<or> tk_now t < deadline"
  shows "\<exists>d' r. wait_and_claim x cfg (t # ts) deadline seen i d = Some (Ok (Ready i), d')
     \<and> find_push i d' = Some r \<and> q_status r = Running"
proof -
  let ?d = "touch_heartbeat (tk_now t) i d"
  obtain r where r: "r \<in> set (push_queue d)" "q_id r = i" "q_status r = Queued"
    using assms(4) by (auto simp: at_head_def)
  then have f: "find_push i d = Some r" using find_push_row [OF assms(1) r(1)] by simp
  have d: "queue_ok ?d" "control ?d = Some c" "at_head i ?d"
    using assms(1,2,4) touch_at_head queue_ok_updates(1) by auto
  let ?c = "claim_for_execution x False (tk_now t) i ?d"
  have c: "?c = (Ok Claimed, snd ?c)" using claim_result [OF d(2), of x "tk_now t" i] assms(3) d(3) by simp
  obtain r' where "find_push i (snd ?c) = Some (claim_row (tk_now t) False ?d r')"
    using claimed_state [OF d(1,2) assms(3) d(3) c] by metis
  then show ?thesis
    using f r(3) assms(5-8) c by (auto simp: Let_def split: prod.splits)
qed

lemma min_queued_head:
  "min_queued d = Some i \<Longrightarrow> \<forall>r\<in>set (push_queue d). q_status r \<noteq> Running \<Longrightarrow> at_head i d"
  by (auto simp: at_head_def min_queued_Some)


text \<open>A second session waits behind the crashed one.\<close>

definition crashed_db :: db where
  "crashed_db = snd (enqueue_atomic sample_ext 990 id id id
     (sample_params\<lparr>e_operation_id := lit ''op2'', e_path := lit ''/project/q''\<rparr>) claimed_db)"

definition waiting_row :: push_row where
  "waiting_row = new_row 990 2 (sample_params\<lparr>e_operation_id := lit ''op2'', e_path := lit ''/project/q''\<rparr>) (e_payload sample_params)"

lemma claimed_db_next: "next_push_id claimed_db = 2"
  by (simp add: claimed_db_def claim_for_execution_def Let_def split: option.splits)

lemma crashed_db_sel [simp]:
  "push_queue crashed_db = [sample_row, waiting_row]" "refs crashed_db = refs sample_db"
  "control crashed_db = control sample_db" "trees crashed_db = trees sample_db"
  by (simp_all add: crashed_db_def enqueue_eval claimed_db_next SEED_QUEUE_CONTROL_def is_active_def
      active_status_def same_operation_def retryable_def waiting_row_def new_row_def)

lemma queue_ok_crashed [simp, intro]: "queue_ok crashed_db"
  unfolding crashed_db_def by (intro queue_ok_enqueue_atomic keeps_queue_id queue_ok_claimed)

lemma waiting_row_sel [simp]:
  "q_id waiting_row = 2" "q_status waiting_row = Queued" "q_heartbeat_at waiting_row = 990"
  by (simp_all add: waiting_row_def new_row_def)

definition sample_service :: service_config where
  "sample_service = \<lparr>push_policy = Trunk, max_push_commits = 250, wait_timeout = 600,
     native_publication_enabled = False\<rparr>"

lemma reaped_head: "min_queued (snd (reap_once sample_reaper 1000 True [] crashed_db)) = Some 2"
  by (simp add: reap_once_def hard_stopped_in_txn SEED_QUEUE_CONTROL_def cancel_stale_queued_in_txn_def
      update_queue_def update_where_def rows_affected_def sample_reaper_def list_running_in_txn_def in_grace_def
      sample_row_started reap_running_row_def apply_i3_def get_main_ref_in_txn_def main_ref_def
      resolve_path_tree_hash_in_txn_def mark_failed_if_running_in_txn_def running_row_def finish_row_def
      min_queued_def)


section \<open>Waiting ends\<close>

text \<open>Nobody else runs or supersedes the row.\<close>

definition undisturbed :: "int \<Rightarrow> db \<Rightarrow> bool" where
  "undisturbed i d \<longleftrightarrow> (\<forall>r. find_push i d = Some r \<longrightarrow> q_status r \<noteq> Running \<and> q_superseded_by r = None)"

lemma undisturbed_touch [simp]: "undisturbed i (touch_heartbeat now i d) = undisturbed i d"
proof -
  have "find_push i (touch_heartbeat now i d)
      = map_option (\<lambda>r. if q_id r = i then r\<lparr>q_heartbeat_at := now, q_updated_at := now\<rparr> else r) (find_push i d)"
    unfolding find_push_def touch_heartbeat_def push_queue_update_queue by (rule find_update_where) simp
  then show ?thesis by (cases "find_push i d") (simp_all add: undisturbed_def)
qed

lemma claim_unclaimed:
  "claim_for_execution x b now i d = (res, d') \<Longrightarrow> res \<noteq> Ok Claimed \<Longrightarrow> d' = d"
  by (auto simp: claim_for_execution_def Let_def split: option.splits if_splits sum.splits)

text \<open>C17: A session that waits for its row ends by its deadline: the loop returns as soon as a turn comes at
  or after it, whatever other sessions do, as long as nobody else runs or supersedes the row. Until
  then it may also end because it claimed the row, because the row ended or because a claim failed.\<close>

theorem wait_ends:
  assumes "undisturbed i d"
    "\<forall>t\<in>set ts. \<forall>d. undisturbed i d \<longrightarrow> undisturbed i (tk_before t d) \<and> undisturbed i (tk_between t d)"
    "\<exists>t\<in>set ts. deadline \<le> tk_now t"
  shows "\<exists>res d'. wait_and_claim x cfg ts deadline False i d = Some (res, d')"
  using assms
proof (induction ts arbitrary: d)
  case (Cons t ts)
  let ?d1 = "tk_before t d"
  let ?d2 = "tk_between t (touch_heartbeat (tk_now t) i ?d1)"
  have d1: "undisturbed i ?d1" "undisturbed i ?d2" using Cons.prems(1,2) by auto
  let ?c = "claim_for_execution x (native_publication_enabled cfg) (tk_now t) i ?d2"
  have again: "\<exists>res d'. wait_and_claim x cfg ts deadline False i ?d2 = Some (res, d')" if "\<not> deadline \<le> tk_now t"
    by (rule Cons.IH) (use d1 Cons.prems(2,3) that in auto)
  have poll: "\<exists>res d'. (if deadline \<le> tk_now t then Some (Ok (Abandoned i), ?d1)
      else case ?c of (Inl e, d2) \<Rightarrow> Some (Err e, d2) | (Inr Claimed, d2) \<Rightarrow> Some (Ok (Ready i), d2)
        | (Inr _, d2) \<Rightarrow> wait_and_claim x cfg ts deadline False i d2) = Some (res, d')"
    using again claim_unclaimed [of x "native_publication_enabled cfg" "tk_now t" i ?d2 "fst ?c" "snd ?c"]
    by (auto split: prod.splits sum.splits ClaimOutcome.splits)
  show ?case
    using poll d1(1) by (auto simp: Let_def undisturbed_def split: option.splits PushQueueStatus.splits)
qed simp

theorem wait_ends_witness:
  "\<exists>res d'. wait_and_claim sample_ext sample_service
      [\<lparr>tk_now = 100, tk_before = set_hard_stopped_in_txn 100 True, tk_between = id\<rparr>,
       \<lparr>tk_now = 700, tk_before = id, tk_between = id\<rparr>] 610 False 1 sample_db = Some (res, d')"
proof -
  have "undisturbed 1 sample_db" "undisturbed 1 (set_hard_stopped_in_txn 100 True d) = undisturbed 1 d" for d
    by (simp_all add: undisturbed_def find_push_def set_hard_stopped_in_txn_def)
  then show ?thesis by (intro wait_ends) auto
qed

end
