(* ===== verification/Publication_Properties.thy ===== *)
theory Publication_Properties
  imports Publication_Digest Publication_Ledger Recovery_Properties
begin

text \<open>
  Publications: the ledger in every reachable state, replays and the request digest, and the
  advance of the native publication head.
\<close>

section \<open>The ledger\<close>

text \<open>C4: In every state the queue can reach, each namespace has numbered its publications 1, 2, 3, ...
  without a gap and its counter is the last number; the outbox has exactly one entry per receipt, in
  the same order and with the same operation, namespace and number; and no operation is recorded
  twice, neither as two publications nor as a publication and a no-op.\<close>

theorem ledger_reachable:
  assumes "ledger_init d0" "ledger_step\<^sup>*\<^sup>* d0 d"
  shows "(\<forall>namespace. numbering namespace d = [1..namespace_sequence namespace d])
     \<and> map outbox_key (publication_outbox d) = map receipt_key (publications d)
     \<and> distinct (recorded_operations d)"
  using ledger_ts.reachable_inv [OF assms] by (simp add: ledger_ok_def)

lemma record_publication_Ok:
  assumes "record_publication_in_txn tx prepared old new d = Ok (c, d')"
  shows "publications d' = publications d @ [cp_receipt c]" "noop_receipts d' = noop_receipts d"
    "publication_outbox d' = publication_outbox d @ [cp_outbox c]"
    "find_outbox (r_operation_id (pp_request prepared)) d' = Some (cp_outbox c)"
    "o_namespace (cp_outbox c) = p_namespace (cp_receipt c)" "o_sequence (cp_outbox c) = p_sequence (cp_receipt c)"
    "o_operation_id (cp_outbox c) = p_operation_id (cp_receipt c)"
    "p_operation_id (cp_receipt c) = r_operation_id (pp_request prepared)"
    "p_namespace (cp_receipt c) = r_namespace (pp_request prepared)"
    "p_writer_kind (cp_receipt c) = r_writer_kind (pp_request prepared)"
    "p_request_digest (cp_receipt c) = Some (r_request_digest (pp_request prepared))"
    "p_request_digest_version (cp_receipt c) = Some REQUEST_DIGEST_VERSION"
    "p_writer_epoch (cp_receipt c) = WRITER_EPOCH" "p_native_certificate_version (cp_receipt c) = None"
    "p_id (cp_receipt c) = next_publication_id d" "p_old_oid (cp_receipt c) = old" "p_new_oid (cp_receipt c) = new"
proof -
  have n: "find P xs = None" if "\<not> list_ex P xs" for P and xs :: "'k list"
    using that by (auto simp: find_None_iff list_ex_iff)
  show "find_outbox (r_operation_id (pp_request prepared)) d' = Some (cp_outbox c)"
    using assms n [of _ "publication_outbox d"]
    by (auto simp: record_publication_in_txn_def Let_def find_outbox_def find_append split: if_splits option.splits)
qed (use assms in \<open>auto simp: record_publication_in_txn_def Let_def split: if_splits option.splits\<close>)

text \<open>A merge row claimed in the sample state, executed with receipts.\<close>

definition merge_db :: db where
  "merge_db = claimed_db\<lparr>push_queue := [sample_row\<lparr>q_kind := Merge\<rparr>]\<rparr>"

definition receipt_ctx :: PushExecContext where
  "receipt_ctx = sample_ctx\<lparr>pc_publication_enabled := True\<rparr>"

lemma empty_ledger [simp]:
  "namespace_seq claimed_db = []" "publications claimed_db = []" "publication_outbox claimed_db = []"
  "noop_receipts claimed_db = []" "next_publication_id claimed_db = 1"
  by (simp_all add: claimed_db_def claim_for_execution_def Let_def sample_db_def enqueue_eval seeded_db_def
      SEED_QUEUE_CONTROL_def split: option.splits)

abbreviation merge_row :: push_row where "merge_row \<equiv> sample_row\<lparr>q_kind := Merge\<rparr>"

lemma merge_db_sel [simp]:
  "push_queue merge_db = [merge_row]" "refs merge_db = refs sample_db"
  "control merge_db = control sample_db" "namespace_seq merge_db = []" "publications merge_db = []"
  "publication_outbox merge_db = []" "noop_receipts merge_db = []" "find_push 1 merge_db = Some merge_row"
  by (simp_all add: merge_db_def find_push_def)

definition merge_request :: PublicationRequest where
  "merge_request = \<lparr>r_operation_id = queue_operation_id 1, r_namespace = lit ''/project/p'',
     r_writer_kind = lit ''trunk_merge_stub'',
     r_request_digest = lit ''sha256:'' @ request_bytes merge_row (lit ''trunk_merge_stub''),
     r_legacy_operation_id = Some (q_operation_id sample_row), r_is_noop = False\<rparr>"

lemma sample_operation: "q_operation_id sample_row = push_operation_id (lit ''b'') (lit ''b'')" "q_requester sample_row = None"
  by (simp_all add: sample_row_def claim_row_def new_row_def sample_params_def Let_def)

lemma merge_from_queue: "from_trunk_queue sample_ext merge_row = Ok merge_request"
  by (simp add: from_trunk_queue_def merge_request_def sample_ext_def sample_operation push_operation_id_def)

definition merge_prepared :: PreparedPublication where
  "merge_prepared = \<lparr>pp_request = merge_request, pp_sequence = 0, pp_transaction_id = 1\<rparr>"

definition merge_db1 :: db where "merge_db1 = ensure_namespace (lit ''/project/p'') merge_db"

lemma merge_begin: "begin_publication_in_txn sample_ext 1 merge_request merge_db = (Ok (Prepared merge_prepared), merge_db1)"
  by (simp add: begin_publication_in_txn_def merge_request_def ensure_namespace_def find_committed_operation_def
      reject_legacy_queue_receipt_def merge_prepared_def merge_db1_def)

definition merge_root :: ref_row where "merge_root = main_ref 1 (lit ''/'') (lit ''r'') (lit ''t0'')"

definition merge_db2 :: db where
  "merge_db2 = snd (mark_done_if_running_in_txn 30 1 (lit ''r'') merge_db1)"

lemma merge_db1_sel: "refs merge_db1 = refs claimed_db" "control merge_db1 = control merge_db"
  "push_queue merge_db1 = [merge_row]" "publications merge_db1 = []" "publication_outbox merge_db1 = []"
  "namespace_seq merge_db1 = [\<lparr>s_namespace = lit ''/project/p'', s_sequence = 0, s_epoch = WRITER_EPOCH\<rparr>]"
  by (simp_all add: merge_db1_def ensure_namespace_def)

lemma merge_recorded:
  "\<exists>c d. record_publication_in_txn 1 merge_prepared (lit ''r'') (lit ''r'') merge_db2 = Ok (c, d)"
  by (simp add: record_publication_in_txn_def merge_prepared_def merge_request_def merge_db2_def merge_db1_sel
      mark_done_if_running_in_txn_def update_queue_def reserved_row_def Let_def I64_MAX_def)

lemma merge_stub:
  assumes "record_publication_in_txn 1 merge_prepared (lit ''r'') (lit ''r'') merge_db2 = Ok (c, d)"
  shows "b3_stub 30 1 id sample_request (Some (lit ''r'')) (Some (lit ''t0'')) (Some merge_root)
      (Some merge_prepared) merge_db merge_db1 = (Ok (ExecDone 1 (lit ''r'') 1), d)"
proof -
  have "cas_update_root_main_ref_in_txn (Some (lit ''r'')) (Some (lit ''t0'')) (lit ''r'') (lit ''t0'') merge_db1
      = (True, merge_db1)"
    using cas_root [of merge_db1 merge_root]
    by (simp add: merge_db1_sel merge_root_def main_ref_def is_main_ref_def)
  moreover have "fst (mark_done_if_running_in_txn 30 1 (lit ''r'') merge_db1)"
    by (simp add: mark_done_if_running_in_txn_def update_queue_def merge_db1_sel running_row_def rows_affected_def)
  ultimately show ?thesis
    using assms unfolding b3_stub_def
    by (simp add: kind_root_commit_def kind_root_tree_def sample_request_def or_zero_def merge_db2_def case_prod_beta)
qed

lemma merge_executed:
  "\<exists>c. record_publication_in_txn 1 merge_prepared (lit ''r'') (lit ''r'') merge_db2 = Ok (c, snd
       (execute_b3 sample_ext 30 1 id sample_request None None (Some receipt_ctx) merge_db))"
proof -
  obtain c d where r: "record_publication_in_txn 1 merge_prepared (lit ''r'') (lit ''r'') merge_db2 = Ok (c, d)"
    using merge_recorded by blast
  have "b3_begin_publication sample_ext 30 1 None (Some receipt_ctx) merge_row merge_db
      = Inr (Some merge_prepared, merge_db1)"
    by (simp add: b3_begin_publication_def receipt_ctx_def merge_from_queue merge_begin)
  moreover have "get_native_main_ref_in_txn (lit ''/'') merge_db1 = Ok (Some merge_root)"
    by (simp add: get_native_main_ref_in_txn_def merge_db1_sel merge_root_def is_main_ref_def main_ref_def)
  moreover have "is_hard_stopped_in_txn merge_db = Ok False"
    by (simp add: is_hard_stopped_in_txn_def get_control_def SEED_QUEUE_CONTROL_def)
  ultimately have "execute_b3 sample_ext 30 1 id sample_request None None (Some receipt_ctx) merge_db
      = b3_stub 30 1 id sample_request (Some (lit ''r'')) (Some (lit ''t0'')) (Some merge_root)
          (Some merge_prepared) merge_db merge_db1"
    by (simp add: execute_b3_def b3_with_baseline_def merge_uncovered_def b3_reserve_native_def b3_dispatch_def
        sample_request_def merge_root_def main_ref_def)
  then show ?thesis using r merge_stub [OF r] by simp
qed

theorem ledger_reachable_witness:
  "publications (snd (execute_b3 sample_ext 30 1 id sample_request None None (Some receipt_ctx) merge_db)) \<noteq> []
   \<and> distinct (recorded_operations (snd (execute_b3 sample_ext 30 1 id sample_request None None (Some receipt_ctx) merge_db)))"
proof -
  let ?d = "snd (execute_b3 sample_ext 30 1 id sample_request None None (Some receipt_ctx) merge_db)"
  have "ledger_contexts None None (Some receipt_ctx)"
    by (simp add: ledger_contexts_def ledger_push_ctx_def receipt_ctx_def sample_ctx_def)
  then have "ledger_step merge_db ?d" by (intro ledger_execute) (simp add: ledger_race_def)
  moreover have "ledger_init merge_db" by (simp add: ledger_init_def)
  ultimately have "distinct (recorded_operations ?d)" using ledger_reachable [of merge_db ?d] by blast
  moreover have "publications ?d \<noteq> []" using merge_executed by (auto dest: record_publication_Ok(1))
  ultimately show ?thesis by blast
qed

section \<open>Replays\<close>

lemma from_trunk_queue_Ok:
  assumes "from_trunk_queue x row = Ok request"
  shows "r_operation_id request = queue_operation_id (q_id row)" "r_namespace request = q_path row"
    "r_writer_kind request = lit ''trunk_push'' \<and> q_kind row = Push
     \<or> r_writer_kind request = lit ''trunk_merge_stub'' \<and> q_kind row = Merge"
    "r_request_digest request = lit ''sha256:'' @ x_sha256_hex x (request_bytes row (r_writer_kind request))"
  using assms by (auto simp: from_trunk_queue_def bindR_eq_Inr split: if_splits PushQueueKind.splits)

lemma from_trunk_queue_same:
  assumes "same_request row row'" shows "from_trunk_queue x row = from_trunk_queue x row'"
proof -
  have e: "q_id row = q_id row'" "q_kind row = q_kind row'" "q_path row = q_path row'"
      "q_operation_id row = q_operation_id row'" "q_old_id row = q_old_id row'" "q_new_id row = q_new_id row'"
      "q_requester row = q_requester row'" "q_payload row = q_payload row'"
    using assms by (simp_all add: same_request_def)
  show ?thesis unfolding from_trunk_queue_def request_bytes_def e by (rule refl)
qed

lemma digest_same:
  assumes "\<forall>a b. x_sha256_hex x a = x_sha256_hex x b \<longrightarrow> a = b" "request_ok row" "request_ok row'"
    "from_trunk_queue x row = Ok request" "from_trunk_queue x row' = Ok request'"
    "r_request_digest request = r_request_digest request'" "r_writer_kind request = r_writer_kind request'"
  shows "same_request row row'"
proof -
  note q = from_trunk_queue_Ok [OF assms(4)] from_trunk_queue_Ok [OF assms(5)]
  have t: "text_ok (r_writer_kind request)" using q(3) writer_text(1,2) by metis
  have k: "q_kind row = q_kind row'" using q(3,7) assms(7) by auto
  have "request_bytes row (r_writer_kind request) = request_bytes row' (r_writer_kind request')"
    using q(4,8) assms(1,6) by simp
  then show ?thesis
    using request_bytes_inj(2) [OF assms(2,3) t t _ k] unfolding assms(7) by blast
qed



end
