(* ===== verification/Native_Properties.thy ===== *)
theory Native_Properties
  imports Publication_Properties
begin

text \<open>The native publication head: a recorded certificate advances it by one and is what readers see.\<close>

section \<open>Observation\<close>

lemma root_eta [simp]: "\<lparr>root_commit = root_commit r, root_tree = root_tree r\<rparr> = r"
  by simp

lemma selected_ref_cong: "refs d' = refs d \<Longrightarrow> selected_ref x path d' = selected_ref x path d"
  by (simp add: selected_ref_def)

lemma selected_root:
  assumes "selected_ref x (lit ''/'') d = Ok (Some root)"
  shows "\<exists>r. filter (is_main_ref (lit ''/'')) (refs d) = [r] \<and> ref_root r = root" "validate_root x root = Ok ()"
  using assms by (auto simp: selected_ref_def bindR_eq_Inr split: list.splits)

lemma observed_head:
  assumes "observe_native x d = Ok ob" "native_head d = Some h"
  shows "canonical_instance x (h_instance_id h) = Ok (h_instance_id h)" "0 \<le> h_sequence h"
    "\<exists>ready. ob_head ob = Some (native_head_of h ready)"
    "validate_root x \<lparr>root_commit = h_root_commit h, root_tree = h_root_tree h\<rparr> = Ok ()"
  using assms by (auto simp: observe_native_def bindR_eq_Inr Let_def split: if_splits list.splits)

lemma observe_head:
  assumes "selected_ref x (lit ''/'') d = Ok (Some \<lparr>root_commit = h_root_commit h, root_tree = h_root_tree h\<rparr>)"
    "native_head d = Some h" "canonical_instance x (h_instance_id h) = Ok (h_instance_id h)"
    "0 \<le> h_sequence h" "h_writer_epoch h = NATIVE_EPOCH" "head_ready d h = Ok ready"
  shows "\<exists>root. observe_native x d = Ok \<lparr>ob_root = root, ob_head = Some (native_head_of h ready)\<rparr>"
proof -
  obtain r where "filter (is_main_ref (lit ''/'')) (refs d) = [r]"
      "ref_root r = \<lparr>root_commit = h_root_commit h, root_tree = h_root_tree h\<rparr>"
    using selected_root(1) [OF assms(1)] by blast
  then show ?thesis
    using selected_root(2) [OF assms(1)] assms(2-6) by (simp add: observe_native_def)
qed

section \<open>Recording\<close>

lemma record_native_Ok:
  assumes "record_native_publication_in_txn x tx prepared committed d = Ok d'"
  shows "\<exists>h root path. native_head d = Some h \<and> reservation_row tx prepared h \<and> h_writer_epoch h = NATIVE_EPOCH
     \<and> selected_ref x (lit ''/'') d = Ok (Some root) \<and> selected_ref x (pn_path prepared) d = Ok (Some path)
     \<and> receipt_matches prepared committed path
     \<and> (\<forall>c\<in>set (native_publications d). np_receipt_id c \<noteq> p_id (cp_receipt committed))
     \<and> d' = d\<lparr>publications := update_where (unmarked (p_id (cp_receipt committed)))
           (\<lambda>p. p\<lparr>p_native_certificate_version := Some 1\<rparr>) (publications d),
         native_publications := native_publications d @ [native_certificate prepared committed root path],
         native_head := Some (h\<lparr>h_sequence := h_sequence h + 1, h_root_commit := root_commit root,
           h_root_tree := root_tree root, h_state := lit ''READY'',
           h_certificate_receipt_id := Some (p_id (cp_receipt committed))\<rparr>)\<rparr>"
proof -
  obtain root path where r: "selected_ref x (lit ''/'') d = Ok (Some root)" "selected_ref x (pn_path prepared) d = Ok (Some path)"
      "check_published_path prepared committed root path d = Ok ()"
      "write_native_certificate tx prepared committed root path d = Ok d'"
    using assms by (auto simp: record_native_publication_in_txn_def bindR_eq_Inr require_ref_def split: option.splits)
  then show ?thesis
    by (auto simp: write_native_certificate_def check_published_path_def Let_def reservation_row_def native_certificate_def
        list_ex_iff split: if_splits option.splits)
qed

lemma find_marked:
  assumes "distinct (map p_id ps)" "p \<in> set ps" "p_native_certificate_version p = None"
  shows "find (\<lambda>q. p_id q = p_id p) (update_where (unmarked (p_id p)) (\<lambda>q. q\<lparr>p_native_certificate_version := Some 1\<rparr>) ps)
     = Some (p\<lparr>p_native_certificate_version := Some 1\<rparr>)"
  using assms by (induction ps) (auto simp: update_where_def unmarked_def)

lemma reserve_native_Ok:
  assumes "reserve_native_publication_in_txn x tx q inst d = Ok prepared"
  shows "\<exists>h ready. native_head d = Some h \<and> pn_head prepared = native_head_of h ready
     \<and> canonical_instance x inst = Ok (h_instance_id h) \<and> canonical_instance x (h_instance_id h) = Ok (h_instance_id h)
     \<and> 0 \<le> h_sequence h \<and> validate_root x \<lparr>root_commit = h_root_commit h, root_tree = h_root_tree h\<rparr> = Ok ()
     \<and> q_expected_native_sequence q = Some (h_sequence h)"
proof -
  obtain h ob where h: "native_head d = Some h" and ob: "observe_native x d = Ok ob"
    using assms by (auto simp: reserve_native_publication_in_txn_def bindR_eq_Inr split: if_splits)
  note o = observed_head [OF ob h]
  show ?thesis
    using assms o ob h
    by (auto simp: reserve_native_publication_in_txn_def bindR_eq_Inr native_head_of_def split: if_splits)
qed

lemma find_new_certificate:
  assumes "\<forall>c\<in>set (native_publications d). np_receipt_id c \<noteq> p_id (cp_receipt committed)"
    "native_publications d' = native_publications d @ [native_certificate prepared committed root path]"
  shows "find_certificate (p_id (cp_receipt committed)) d' = Some (native_certificate prepared committed root path)"
proof -
  have "find (\<lambda>c. np_receipt_id c = p_id (cp_receipt committed)) (native_publications d) = None"
    using assms(1) by (simp add: find_None_iff)
  then show ?thesis
    unfolding find_certificate_def assms(2) find_append by (simp add: native_certificate_def)
qed

text \<open>The certificate written for a receipt passes the checks of the readers.\<close>

lemma certificate_valid:
  assumes "receipt_matches prepared committed path" "pn_head prepared = native_head_of h ready"
    "canonical_instance x (h_instance_id h) = Ok (h_instance_id h)" "0 \<le> h_sequence h"
    "validate_root x \<lparr>root_commit = h_root_commit h, root_tree = h_root_tree h\<rparr> = Ok ()"
    "validate_root x root = Ok ()" "validate_root x path = Ok ()"
    "find_certificate (p_id (cp_receipt committed)) d = Some (native_certificate prepared committed root path)"
  shows "validate_native_historical_receipt_in_txn x d
     (cp_receipt committed\<lparr>p_native_certificate_version := Some 1\<rparr>) = Ok ()"
  using assms
  by (auto simp: validate_native_historical_receipt_in_txn_def native_certificate_def receipt_matches_def
      native_head_of_def Let_def)

lemma recorded_head_ready:
  assumes "ledger_ok d1" "digest_valid (Some (r_request_digest (pp_request publication)))"
    "record_publication_in_txn tx publication old_oid new_oid d1 = Ok (committed, d2)"
    "record_native_publication_in_txn x tx prepared committed d2 = Ok d'"
    "native_head d2 = Some h" "pn_head prepared = native_head_of h ready" "native_head d' = Some h'"
  shows "head_ready d' h' = Ok True"
proof -
  note p = record_publication_Ok [OF assms(3)]
  obtain root path where r: "receipt_matches prepared committed path" "h_writer_epoch h = NATIVE_EPOCH"
      "\<forall>c\<in>set (native_publications d2). np_receipt_id c \<noteq> p_id (cp_receipt committed)"
    and d': "d' = d2\<lparr>publications := update_where (unmarked (p_id (cp_receipt committed)))
           (\<lambda>p. p\<lparr>p_native_certificate_version := Some 1\<rparr>) (publications d2),
         native_publications := native_publications d2 @ [native_certificate prepared committed root path],
         native_head := Some (h\<lparr>h_sequence := h_sequence h + 1, h_root_commit := root_commit root,
           h_root_tree := root_tree root, h_state := lit ''READY'',
           h_certificate_receipt_id := Some (p_id (cp_receipt committed))\<rparr>)\<rparr>"
    using record_native_Ok [OF assms(4)] assms(5) by auto
  have "distinct (map p_id (publications d2))" "cp_receipt committed \<in> set (publications d2)"
    using assms(1) p(1,15) by (auto simp: ledger_ok_def)
  then have f: "find_publication (p_id (cp_receipt committed)) d'
      = Some (cp_receipt committed\<lparr>p_native_certificate_version := Some 1\<rparr>)"
    using find_marked p(14) unfolding d' find_publication_def by simp
  have c: "find_certificate (p_id (cp_receipt committed)) d' = Some (native_certificate prepared committed root path)"
    by (rule find_new_certificate [OF r(3)]) (simp add: d')
  have o: "find_outbox (p_operation_id (cp_receipt committed)) d' = Some (cp_outbox committed)"
    using p(4,8) by (simp add: d' find_outbox_def)
  show ?thesis
    using assms(2,6,7) f c o r(1,2) p(11,12)
    by (auto simp: head_ready_def associated_certificate_def certificate_consistent_def d' native_certificate_def
        receipt_matches_def native_head_of_def REQUEST_DIGEST_VERSION_def)
qed

text \<open>C6: A native publication that commits advances the head by exactly one: readers see a ready head whose root
  is the stored root ref and whose certificate is the receipt of this publication; the receipt passes
  the historical check; and neither the reservation nor the claimed token can be used again.\<close>

theorem native_publication_advances:
  assumes "reserve_native_publication_in_txn x tx q inst d = Ok prepared"
    "native_head d1 = native_head d" "ledger_ok d1"
    "digest_valid (Some (r_request_digest (pp_request publication)))"
    "record_publication_in_txn tx publication old_oid new_oid d1 = Ok (committed, d2)"
    "record_native_publication_in_txn x tx prepared committed d2 = Ok d'"
  shows "\<exists>head. read_native_publication_head_from x inst d' = Ok head
     \<and> tok_sequence (nh_token head) = tok_sequence (nh_token (pn_head prepared)) + 1
     \<and> tok_certificate (nh_token head) = Some (p_id (cp_receipt committed))
     \<and> selected_ref x (lit ''/'') d' = Ok (Some (nh_root head))
     \<and> validate_native_historical_receipt_in_txn x d'
         (cp_receipt committed\<lparr>p_native_certificate_version := Some 1\<rparr>) = Ok ()
     \<and> (\<exists>e. reserve_native_publication_in_txn x tx' q inst d' = Err e)
     \<and> (\<exists>e. record_native_publication_in_txn x tx prepared committed d' = Err e)"
proof -
  have nh: "native_head d2 = native_head d1"
    using assms(5) by (auto simp: record_publication_in_txn_def Let_def split: if_splits option.splits)
  obtain h ready where h: "native_head d2 = Some h" "pn_head prepared = native_head_of h ready"
      "canonical_instance x inst = Ok (h_instance_id h)" "canonical_instance x (h_instance_id h) = Ok (h_instance_id h)"
      "0 \<le> h_sequence h" "validate_root x \<lparr>root_commit = h_root_commit h, root_tree = h_root_tree h\<rparr> = Ok ()"
      "q_expected_native_sequence q = Some (h_sequence h)"
    using reserve_native_Ok [OF assms(1)] nh assms(2) by auto
  obtain root path where r: "receipt_matches prepared committed path" "h_writer_epoch h = NATIVE_EPOCH"
      "\<forall>c\<in>set (native_publications d2). np_receipt_id c \<noteq> p_id (cp_receipt committed)"
      "selected_ref x (lit ''/'') d2 = Ok (Some root)" "selected_ref x (pn_path prepared) d2 = Ok (Some path)"
    and d': "d' = d2\<lparr>publications := update_where (unmarked (p_id (cp_receipt committed)))
           (\<lambda>p. p\<lparr>p_native_certificate_version := Some 1\<rparr>) (publications d2),
         native_publications := native_publications d2 @ [native_certificate prepared committed root path],
         native_head := Some (h\<lparr>h_sequence := h_sequence h + 1, h_root_commit := root_commit root,
           h_root_tree := root_tree root, h_state := lit ''READY'',
           h_certificate_receipt_id := Some (p_id (cp_receipt committed))\<rparr>)\<rparr>"
    using record_native_Ok [OF assms(6)] h(1) by auto
  let ?h = "the (native_head d')"
  have sel: "selected_ref x (lit ''/'') d' = Ok (Some root)" using r(4) selected_ref_cong [of d' d2] d' by simp
  have vp: "validate_root x path = Ok ()"
    using r(5) by (auto simp: selected_ref_def bindR_eq_Inr split: list.splits)
  have c: "find_certificate (p_id (cp_receipt committed)) d' = Some (native_certificate prepared committed root path)"
    by (rule find_new_certificate [OF r(3)]) (simp add: d')
  have "head_ready d' ?h = Ok True"
    by (rule recorded_head_ready [OF assms(3-6) h(1,2)]) (simp add: d')
  then obtain root' where ob: "observe_native x d' = Ok \<lparr>ob_root = root', ob_head = Some (native_head_of ?h True)\<rparr>"
    using observe_head [of x d' ?h True] sel h(4,5) r(2) by (auto simp: d')
  have "validate_native_historical_receipt_in_txn x d' (cp_receipt committed\<lparr>p_native_certificate_version := Some 1\<rparr>) = Ok ()"
    by (rule certificate_valid [OF r(1) h(2,4-6) selected_root(2) [OF r(4)] vp c])
  moreover have "read_native_publication_head_from x inst d' = Ok (native_head_of ?h True)"
    using ob h(3) by (simp add: read_native_publication_head_from_def native_head_of_def d')
  moreover have "\<exists>e. reserve_native_publication_in_txn x tx' q inst d' = Err e"
    using ob h(3,7) by (simp add: reserve_native_publication_in_txn_def native_head_of_def d')
  moreover have "\<exists>e. record_native_publication_in_txn x tx prepared committed d' = Err e"
    using h(2) by (simp add: record_native_publication_in_txn_def check_native_reservation_def reservation_row_def
        native_head_of_def d')
  ultimately show ?thesis using sel h(2) by (auto simp: native_head_of_def d')
qed

text \<open>A push whose landing moved the root from \<open>r\<close> to \<open>s\<close> and the project from \<open>a\<close> to \<open>b\<close>.\<close>

definition native_db :: db where
  "native_db = seeded_db\<lparr>refs := [main_ref 1 (lit ''/'') (lit ''r'') (lit ''t0''), main_ref 2 (lit ''/project'') (lit ''a'') (lit ''t1'')],
     native_head := Some \<lparr>h_instance_id = lit ''i'', h_sequence = 4, h_writer_epoch = NATIVE_EPOCH, h_root_commit = lit ''r'',
       h_root_tree = lit ''t0'', h_state = lit ''INITIALIZING'', h_certificate_receipt_id = None\<rparr>\<rparr>"

definition landed_db :: db where
  "landed_db = native_db\<lparr>refs := [main_ref 1 (lit ''/'') (lit ''s'') (lit ''u0''), main_ref 2 (lit ''/project'') (lit ''b'') (lit ''u1'')],
     trees := [(lit ''u0'', [\<lparr>ti_name = lit ''project'', ti_is_tree = True, ti_id = lit ''u1''\<rparr>]), (lit ''u1'', [])],
     namespace_seq := [\<lparr>s_namespace = lit ''/project'', s_sequence = 0, s_epoch = WRITER_EPOCH\<rparr>]\<rparr>"

definition native_row :: push_row where
  "native_row = sample_row\<lparr>q_path := lit ''/project'', q_expected_native_sequence := Some 4, q_expected_native_epoch := Some NATIVE_EPOCH,
     q_expected_native_certificate := None\<rparr>"

definition native_prepared :: PreparedPublication where
  "native_prepared = \<lparr>pp_request = \<lparr>r_operation_id = queue_operation_id 1, r_namespace = lit ''/project'', r_writer_kind = lit ''trunk_push'',
       r_request_digest = lit ''sha256:'' @ replicate 64 97, r_legacy_operation_id = None, r_is_noop = False\<rparr>,
     pp_sequence = 0, pp_transaction_id = 1\<rparr>"

definition native_reservation :: PreparedNativePublication where
  "native_reservation = \<lparr>pn_head = native_head_of (the (native_head native_db)) False, pn_path = lit ''/project'',
     pn_old_path = Some \<lparr>root_commit = lit ''a'', root_tree = lit ''t1''\<rparr>, pn_transaction_id = 1\<rparr>"

lemma native_reserved:
  "reserve_native_publication_in_txn sample_ext 1 native_row (lit ''i'') native_db = Ok native_reservation"
  by (simp add: reserve_native_publication_in_txn_def native_db_def native_row_def observe_native_def sample_ext_def
      canonical_instance_def selected_ref_def is_main_ref_def main_ref_def validate_root_def ref_root_def
      head_ready_def native_head_of_def native_reservation_def)

lemma landed_ledger: "ledger_ok landed_db" "native_head landed_db = native_head native_db"
  by (simp_all add: ledger_ok_def landed_db_def native_db_def seeded_db_def numbering_def namespace_sequence_def
      recorded_operations_def)

lemma native_digest: "digest_valid (Some (r_request_digest (pp_request native_prepared)))"
  by (simp add: digest_valid_def native_prepared_def byte_len_def starts_with_def utf8_len_def list_all_iff sum_list_replicate)

lemma native_recorded:
  "\<exists>c d2 d'. record_publication_in_txn 1 native_prepared (lit ''r'') (lit ''b'') landed_db = Ok (c, d2)
     \<and> record_native_publication_in_txn sample_ext 1 native_reservation c d2 = Ok d'"
  by (simp add: record_publication_in_txn_def native_prepared_def landed_db_def native_db_def seeded_db_def
      reserved_row_def Let_def I64_MAX_def record_native_publication_in_txn_def check_native_reservation_def
      reservation_row_def native_reservation_def native_head_of_def selected_ref_def is_main_ref_def main_ref_def
      sample_ext_def validate_root_def ref_root_def require_ref_def check_published_path_def receipt_matches_def
      resolve_path_tree_hash_in_txn_def write_native_certificate_def rows_affected_def unmarked_def
      WRITER_EPOCH_def NATIVE_EPOCH_def)

theorem native_publication_advances_witness:
  "\<exists>c d2 d' head. record_publication_in_txn 1 native_prepared (lit ''r'') (lit ''b'') landed_db = Ok (c, d2)
     \<and> record_native_publication_in_txn sample_ext 1 native_reservation c d2 = Ok d'
     \<and> read_native_publication_head_from sample_ext (lit ''i'') d' = Ok head \<and> tok_sequence (nh_token head) = 5"
proof -
  obtain c d2 d' where r: "record_publication_in_txn 1 native_prepared (lit ''r'') (lit ''b'') landed_db = Ok (c, d2)"
      "record_native_publication_in_txn sample_ext 1 native_reservation c d2 = Ok d'"
    using native_recorded by blast
  have "tok_sequence (nh_token (pn_head native_reservation)) = 4"
    by (simp add: native_reservation_def native_head_of_def native_db_def)
  with native_publication_advances [OF native_reserved landed_ledger(2,1) native_digest r] r
  show ?thesis by auto
qed

end
