(* ===== verification/Spec2Isabelle.thy ===== *)
theory Spec2Isabelle
  imports Filter_Properties Policy_Properties Validate_Properties Native_Properties
begin

text \<open>
  Verification of the mega2 monorepo engine (\<open>src/src/\<close>).

  \<^bold>\<open>The parts and how they interact.\<close> A push to the monorepo becomes a row of the mono write queue
  (\<open>jupiter/storage/push_queue_storage.rs\<close>, \<open>jupiter/service/push_queue_service.rs\<close>). The session of
  the push enqueues it (B0 and B1), waits until its row is the oldest (B2), claims it (B2.5) and
  executes it under the mono write lock (B3), where it moves the root of the monorepo; a conflict
  puts it back in the queue (B4). A reaper (\<open>push_queue_reaper.rs\<close>) ends what crashed sessions left.
  With publication enabled a round also writes a receipt (\<open>mst2_publication_storage.rs\<close>) and a native
  root certificate (\<open>native_publication_storage.rs\<close>). Which paths a push may create is decided by the
  path policy (\<open>ceres/pack/path_policy.rs\<close>). Views are projections of the monorepo described by filters
  (\<open>ceres/view/filter/\<close>), which are parsed, canonicalized, validated and stored by digest.

  \<^bold>\<open>Conventions.\<close> \<open>Mega_Prelude\<close>: text is the list of its code points (\<open>rstr\<close>), \<open>lit\<close> a literal,
  a fallible operation returns \<open>error + value\<close> (\<open>Ok\<close> and \<open>Err\<close>), \<open>bindR\<close> is the question mark operator,
  and every panic of the source is a value of an error type. A database transaction is a function on the
  record \<open>db\<close> of tables; the time and the transaction id are arguments; what other sessions commit between
  two statements is an argument \<open>race\<close>. A function that may roll back takes the state to return to
  (\<open>d0\<close>) and the state of the open transaction (\<open>d\<close>). Code of other crates is an argument: the record
  \<open>ext\<close> (SHA-256, UUID and object id checks, scope check), with what is assumed of it named in the statements.

  \<^bold>\<open>Theories.\<close>
  \<^item> \<open>Filter_Syntax\<close>, \<open>Filter_Parse\<close>, \<open>Filter_Roundtrip\<close>, \<open>Filter_Canonical\<close>: \<open>filter/mod.rs\<close>, \<open>parse.rs\<close>,
    \<open>print.rs\<close>, \<open>canonical.rs\<close>. The recursive-descent parser runs on fuel; \<open>parse_with_max\<close> gives it
    more than the length of the text, and the parser is proved never to run out. Printing and parsing are
    inverse on canonical filters, canonicalization reaches a normal form and is idempotent, and a
    registered definition passes the recheck. The statements are in \<open>Filter_Properties\<close>.
  \<^item> \<open>Filter_Paths\<close>, \<open>Filter_Validate\<close>, \<open>Validate_Properties\<close>: \<open>semantics.rs\<close> and \<open>validate.rs\<close>: inversion, source
    and destination paths and the registration checks. The limited path computation is equivalent to
    the mathematical pull-back, and the overlap check finds an overlap exactly when there is one.
  \<^item> \<open>Path_Policy\<close>, \<open>Policy_Properties\<close>: \<open>path_policy.rs\<close> and the path checks of \<open>config/validate.rs\<close>.
  \<^item> \<open>Queue_Db\<close>, \<open>Publication\<close>, \<open>Push_Queue_Storage\<close>, \<open>Push_Queue_Service\<close>, \<open>Push_Queue_Reaper\<close>: the tables, the
    receipts, the storage operations, the service and the reaper, one definition per operation.
    The wait loop consumes a list of turns and is \<open>None\<close> while the list is too short.
  \<^item> \<open>Queue_Invariant\<close>, \<open>Queue_Steps\<close>, \<open>Queue_Properties\<close>: the invariant of the queue, the transition system
    with one rule per transaction (interface \<open>transition_system\<close>) and the claim.
  \<^item> \<open>Admission_Properties\<close>: enqueue implements a decision table and keeps the depth bound.
  \<^item> \<open>Execution_Properties\<close>: the tripwire, the protection of the root and the net-zero push.
  \<^item> \<open>Recovery_Properties\<close>: the reaper recovers the queue, and waiting ends.
  \<^item> \<open>Publication_Digest\<close>, \<open>Publication_Ledger\<close>, \<open>Publication_Properties\<close>, \<open>Native_Properties\<close>: the request digest is an injective
    encoding (interfaces \<open>prefix_code\<close> and \<open>nonempty_code\<close>), the receipts of a namespace are numbered
    without gaps, a replay must repeat the request, and the native head advances.
  \<^bold>\<open>Not modelled.\<close> The writers that land a push, a merge or an attach (\<open>ceres/pack/\<close>, \<open>ceres/api_service/\<close>)
  are arguments of B3: what they do to the tables is assumed only where a statement says so. The
  database engine, the advisory locks and the asynchronous runtime are represented by the transaction
  boundaries above. HTTP and SSH servers, routers, the Git wire protocol, object storage,
  LFS, OCI, agent capture, GitHub synchronization, notifications, commands and the remaining
  configuration are I/O around these parts and are listed as such in the manifest.
\<close>

end
